(* ===== verification/Prelude.thy ===== *)
theory Prelude
  imports Main "HOL-Library.Word" "HOL-Library.Sublist"
begin

section \<open>Shared types, arithmetic and list lemmas\<close>

text \<open>
  The C++ sources move bytes around as \<^verbatim>\<open>char\<close> and \<^verbatim>\<open>uint8_t\<close>, converting freely between
  the two; both are eight bits wide, so one type, \<open>byte\<close>, stands for both and a
  \<^verbatim>\<open>std::string\<close>, a \<^verbatim>\<open>std::deque<uint8_t>\<close> and a \<^verbatim>\<open>(const void*, size_t)\<close> pair are byte lists.
  Lengths of containers are natural numbers: no container can hold more elements than the address
  space has bytes. Integers that the code computes and that can wrap are words of their width.
\<close>

type_synonym byte = char
type_synonym bytes = "byte list"
type_synonym size_t = "64 word"
type_synonym int64 = "64 word"
type_synonym uint32 = "32 word"

named_theorems io_simps \<open>unfolding of the stream operations\<close>

abbreviation (input) NUL :: byte where
  "NUL \<equiv> CHR 0x00"

abbreviation (input) TAB :: byte where
  "TAB \<equiv> CHR 0x09"

text \<open>The line terminator that ends a header, twice.\<close>

definition CRLF2 :: bytes where
  "CRLF2 = [CHR 0x0D, CHR 0x0A, CHR 0x0D, CHR 0x0A]"

subsection \<open>Decimal notation\<close>

text \<open>\<^verbatim>\<open>std::to_string\<close> of an unsigned value: decimal digits without leading zeros.\<close>

definition digit_char :: "nat \<Rightarrow> byte" where
  "digit_char d = char_of (48 + d)"

fun to_string :: "nat \<Rightarrow> bytes" where
  "to_string n = (if n < 10 then [digit_char n] else to_string (n div 10) @ [digit_char (n mod 10)])"

declare to_string.simps [simp del]

definition digit_value :: "byte \<Rightarrow> nat" where
  "digit_value c = of_char c - 48"

definition is_digit :: "byte \<Rightarrow> bool" where
  "is_digit c \<longleftrightarrow> c \<in> set ''0123456789''"

definition decimal :: "bytes \<Rightarrow> nat" where
  "decimal ds = foldl (\<lambda>a c. a * 10 + digit_value c) 0 ds"

lemma digit_char_cases:
  assumes "d < 10"
  shows "is_digit (digit_char d) \<and> digit_value (digit_char d) = d"
proof -
  from assms have "d \<in> {0, 1, 2, 3, 4, 5, 6, 7, 8, 9}"
    by auto
  then show ?thesis
    by (elim insertE emptyE)
       (simp_all add: is_digit_def digit_char_def digit_value_def char_of_def bit_0)
qed

lemma is_digit_digit_char [simp]: "d < 10 \<Longrightarrow> is_digit (digit_char d)"
  by (simp add: digit_char_cases)

lemma digit_value_digit_char [simp]: "d < 10 \<Longrightarrow> digit_value (digit_char d) = d"
  by (simp add: digit_char_cases)

lemma is_digit_bounds: "is_digit c \<Longrightarrow> 48 \<le> (of_char c :: nat) \<and> (of_char c :: nat) < 58"
  by (auto simp: is_digit_def)

lemma NUL_not_digit [simp]: "\<not> is_digit NUL"
  by (simp add: is_digit_def)

lemma to_string_digits: "\<forall>c \<in> set (to_string n). is_digit c"
proof (induction n rule: to_string.induct)
  case (1 n)
  show ?case
  proof (cases "n < 10")
    case False
    with 1 have "\<forall>c \<in> set (to_string (n div 10)). is_digit c" by simp
    with False show ?thesis by (subst to_string.simps) auto
  qed (subst to_string.simps, simp)
qed

lemma to_string_nonempty [simp]: "to_string n \<noteq> []"
  by (subst to_string.simps) simp

lemma decimal_snoc: "decimal (ds @ [c]) = decimal ds * 10 + digit_value c"
  by (simp add: decimal_def)

lemma decimal_to_string [simp]: "decimal (to_string n) = n"
proof (induction n rule: to_string.induct)
  case (1 n)
  show ?case
  proof (cases "n < 10")
    case True
    then show ?thesis by (subst to_string.simps) (simp add: decimal_def)
  next
    case False
    with 1 have "decimal (to_string (n div 10)) = n div 10" by simp
    with False show ?thesis by (subst to_string.simps) (simp add: decimal_snoc)
  qed
qed

subsection \<open>C strings\<close>

text \<open>A \<^verbatim>\<open>std::string\<close> that passes through a \<^verbatim>\<open>const char*\<close>: it ends at its first zero byte.\<close>

definition c_str :: "bytes \<Rightarrow> bytes" where
  "c_str s = takeWhile (\<lambda>c. c \<noteq> NUL) s"

lemma c_str_id: "NUL \<notin> set s \<Longrightarrow> c_str s = s"
  unfolding c_str_def by (intro takeWhile_eq_all_conv [THEN iffD2]) auto

subsection \<open>Lists\<close>

lemma take_prefix_append: "length xs = n \<Longrightarrow> take n (xs @ ys) = xs"
  by simp

lemma append_eq_split:
  assumes "xs @ ys = as @ bs" and "length as \<le> length xs"
  shows "\<exists>cs. xs = as @ cs \<and> bs = cs @ ys"
  using assms by (metis append_eq_append_conv_if append_eq_conv_conj append_take_drop_id)

lemma take_append_same_length: "n \<le> length xs \<Longrightarrow> take n (xs @ ys) = take n xs"
  by simp

end
