(* ===== verification/IO.thy ===== *)
theory IO
  imports Prelude
begin

section \<open>Byte streams: \<^verbatim>\<open>include/dap/io.h\<close>, \<^verbatim>\<open>src/io.cpp\<close>, \<^verbatim>\<open>src/string_buffer.h\<close>\<close>

text \<open>
  The abstract classes \<^verbatim>\<open>Closable\<close>, \<^verbatim>\<open>Reader\<close> and \<^verbatim>\<open>Writer\<close> are records of operations (their
  virtual function tables) over the state of the object behind the pointer; each implementation is
  a state type, its operations and one such record. A read that would block for ever when no other
  thread acts, and a call whose behaviour is undefined, have no result (\<open>None\<close>).
  The locales at the end state what a client may rely on; they are interpreted here on the
  implementations of the repository.
\<close>

record 'r Reader =
  r_isOpen :: "'r \<Rightarrow> bool \<times> 'r"
  r_close :: "'r \<Rightarrow> 'r"
  r_read :: "'r \<Rightarrow> nat \<Rightarrow> (bytes \<times> 'r) option"

record 'w Writer =
  w_isOpen :: "'w \<Rightarrow> bool \<times> 'w"
  w_close :: "'w \<Rightarrow> 'w"
  w_write :: "'w \<Rightarrow> bytes \<Rightarrow> bool \<times> 'w"

subsection \<open>StringBuffer\<close>

record StringBuffer =
  sb_str :: bytes
  sb_chunk_lengths :: "nat list"
  sb_closed :: bool

definition StringBuffer_create :: StringBuffer where
  "StringBuffer_create = \<lparr>sb_str = [], sb_chunk_lengths = [], sb_closed = False\<rparr>"

definition StringBuffer_isOpen :: "StringBuffer \<Rightarrow> bool \<times> StringBuffer" where
  "StringBuffer_isOpen s = (\<not> sb_closed s, s)"

definition StringBuffer_close :: "StringBuffer \<Rightarrow> StringBuffer" where
  "StringBuffer_close s = s\<lparr>sb_closed := True\<rparr>"

definition StringBuffer_string :: "StringBuffer \<Rightarrow> bytes" where
  "StringBuffer_string s = sb_str s"

text \<open>
  The \<^verbatim>\<open>memcpy\<close> reads \<open>len\<close> bytes from the string whatever its size; reading past its end is
  undefined behaviour, hence no result. \<open>sb_inv\<close> below excludes it.
\<close>

definition StringBuffer_read :: "StringBuffer \<Rightarrow> nat \<Rightarrow> (bytes \<times> StringBuffer) option" where
  "StringBuffer_read s bytes =
     (if sb_closed s \<or> bytes = 0 \<or> length (sb_str s) = 0 \<or> length (sb_chunk_lengths s) = 0
      then Some ([], s)
      else
        let chunk_length = hd (sb_chunk_lengths s);
            len = min bytes chunk_length
        in if length (sb_str s) < len then None
           else Some (take len (sb_str s),
                  s\<lparr>sb_str := drop len (sb_str s),
                    sb_chunk_lengths :=
                      (if bytes < chunk_length
                       then (chunk_length - bytes) # tl (sb_chunk_lengths s)
                       else tl (sb_chunk_lengths s))\<rparr>))"

definition StringBuffer_write :: "StringBuffer \<Rightarrow> bytes \<Rightarrow> bool \<times> StringBuffer" where
  "StringBuffer_write s buffer =
     (if sb_closed s then (False, s)
      else (True, s\<lparr>sb_str := sb_str s @ buffer,
                    sb_chunk_lengths := sb_chunk_lengths s @ [length buffer]\<rparr>))"

definition StringBuffer_Reader :: "StringBuffer Reader" where
  "StringBuffer_Reader =
     \<lparr>r_isOpen = StringBuffer_isOpen, r_close = StringBuffer_close, r_read = StringBuffer_read\<rparr>"

definition StringBuffer_Writer :: "StringBuffer Writer" where
  "StringBuffer_Writer =
     \<lparr>w_isOpen = StringBuffer_isOpen, w_close = StringBuffer_close, w_write = StringBuffer_write\<rparr>"

subsection \<open>Pipe\<close>

record Pipe =
  p_data :: bytes
  p_closed :: bool

definition Pipe_create :: Pipe where
  "Pipe_create = \<lparr>p_data = [], p_closed = False\<rparr>"

definition Pipe_isOpen :: "Pipe \<Rightarrow> bool \<times> Pipe" where
  "Pipe_isOpen p = (\<not> p_closed p, p)"

definition Pipe_close :: "Pipe \<Rightarrow> Pipe" where
  "Pipe_close p = p\<lparr>p_closed := True\<rparr>"

text \<open>
  One turn of the loop of \<^verbatim>\<open>Pipe::read\<close>, entered with the bytes \<open>out\<close> already copied: the
  condition variable lets the reader pass when the pipe is closed or holds data. A turn that
  neither returns nor finds the pipe closed has emptied the pipe, so the reader waits again, with
  what it has copied so far.
\<close>

datatype pipe_wait = Returned bytes | Waiting bytes

definition Pipe_read_turn :: "Pipe \<Rightarrow> nat \<Rightarrow> bytes \<Rightarrow> pipe_wait \<times> Pipe" where
  "Pipe_read_turn p bytes out =
     (if p_closed p then (Returned out, p)
      else if p_data p = [] then (Waiting out, p)
      else
        let k = min (bytes - length out) (length (p_data p));
            out' = out @ take k (p_data p);
            p' = p\<lparr>p_data := drop k (p_data p)\<rparr>
        in if length out' = bytes then (Returned out', p') else (Waiting out', p'))"

definition Pipe_read :: "Pipe \<Rightarrow> nat \<Rightarrow> (bytes \<times> Pipe) option" where
  "Pipe_read p bytes =
     (case Pipe_read_turn p bytes [] of
        (Returned out, p') \<Rightarrow> Some (out, p')
      | (Waiting out, p') \<Rightarrow> None)"

definition Pipe_write :: "Pipe \<Rightarrow> bytes \<Rightarrow> bool \<times> Pipe" where
  "Pipe_write p buffer =
     (if p_closed p then (False, p)
      else if length buffer = 0 then (True, p)
      else (True, p\<lparr>p_data := p_data p @ buffer\<rparr>))"

definition Pipe_Reader :: "Pipe Reader" where
  "Pipe_Reader = \<lparr>r_isOpen = Pipe_isOpen, r_close = Pipe_close, r_read = Pipe_read\<rparr>"

definition Pipe_Writer :: "Pipe Writer" where
  "Pipe_Writer = \<lparr>w_isOpen = Pipe_isOpen, w_close = Pipe_close, w_write = Pipe_write\<rparr>"

subsection \<open>RW: a reader and a writer behind one object\<close>

definition RW_isOpen :: "'r Reader \<Rightarrow> 'w Writer \<Rightarrow> 'r \<times> 'w \<Rightarrow> bool \<times> ('r \<times> 'w)" where
  "RW_isOpen R W rw =
     (case r_isOpen R (fst rw) of (b, r') \<Rightarrow>
        if b then (case w_isOpen W (snd rw) of (b', w') \<Rightarrow> (b', (r', w')))
        else (False, (r', snd rw)))"

definition RW_close :: "'r Reader \<Rightarrow> 'w Writer \<Rightarrow> 'r \<times> 'w \<Rightarrow> 'r \<times> 'w" where
  "RW_close R W rw = (r_close R (fst rw), w_close W (snd rw))"

definition RW_read :: "'r Reader \<Rightarrow> 'r \<times> 'w \<Rightarrow> nat \<Rightarrow> (bytes \<times> ('r \<times> 'w)) option" where
  "RW_read R rw n =
     (case r_read R (fst rw) n of None \<Rightarrow> None | Some (bs, r') \<Rightarrow> Some (bs, (r', snd rw)))"

definition RW_write :: "'w Writer \<Rightarrow> 'r \<times> 'w \<Rightarrow> bytes \<Rightarrow> bool \<times> ('r \<times> 'w)" where
  "RW_write W rw bs = (case w_write W (snd rw) bs of (ok, w') \<Rightarrow> (ok, (fst rw, w')))"

definition RW_Reader :: "'r Reader \<Rightarrow> 'w Writer \<Rightarrow> ('r \<times> 'w) Reader" where
  "RW_Reader R W = \<lparr>r_isOpen = RW_isOpen R W, r_close = RW_close R W, r_read = RW_read R\<rparr>"

definition RW_Writer :: "'r Reader \<Rightarrow> 'w Writer \<Rightarrow> ('r \<times> 'w) Writer" where
  "RW_Writer R W = \<lparr>w_isOpen = RW_isOpen R W, w_close = RW_close R W, w_write = RW_write W\<rparr>"

subsection \<open>File\<close>

text \<open>
  What the source uses of a C stream: the bytes it will still deliver, the bytes written to it, how
  many more bytes the device behind it accepts, and whether \<^verbatim>\<open>fclose\<close> was called (using the
  stream afterwards is undefined).
\<close>

record FILE =
  f_in :: bytes
  f_out :: bytes
  f_room :: nat
  f_fclosed :: bool

record File =
  file_f :: FILE
  file_closable :: bool
  file_closed :: bool

definition fgetc :: "FILE \<Rightarrow> byte option \<times> FILE" where
  "fgetc f = (case f_in f of [] \<Rightarrow> (None, f) | c # cs \<Rightarrow> (Some c, f\<lparr>f_in := cs\<rparr>))"

definition fwrite :: "FILE \<Rightarrow> bytes \<Rightarrow> nat \<times> FILE" where
  "fwrite f bs =
     (let k = min (length bs) (f_room f)
      in (k, f\<lparr>f_out := f_out f @ take k bs, f_room := f_room f - k\<rparr>))"

definition File_isOpen :: "File \<Rightarrow> bool \<times> File" where
  "File_isOpen x = (\<not> file_closed x, x)"

definition File_close :: "File \<Rightarrow> File" where
  "File_close x =
     (if file_closable x then
        if \<not> file_closed x
        then x\<lparr>file_closed := True, file_f := (file_f x)\<lparr>f_fclosed := True\<rparr>\<rparr>
        else x
      else x)"

fun File_read_loop :: "FILE \<Rightarrow> nat \<Rightarrow> bytes \<times> FILE" where
  "File_read_loop f 0 = ([], f)"
| "File_read_loop f (Suc n) =
     (case fgetc f of
        (None, f') \<Rightarrow> ([], f')
      | (Some c, f') \<Rightarrow> (case File_read_loop f' n of (cs, f'') \<Rightarrow> (c # cs, f'')))"

definition File_read :: "File \<Rightarrow> nat \<Rightarrow> (bytes \<times> File) option" where
  "File_read x n =
     (if f_fclosed (file_f x) \<and> n \<noteq> 0 then None
      else case File_read_loop (file_f x) n of (cs, f') \<Rightarrow> Some (cs, x\<lparr>file_f := f'\<rparr>))"

definition File_write :: "File \<Rightarrow> bytes \<Rightarrow> bool \<times> File" where
  "File_write x bs =
     (case fwrite (file_f x) bs of (k, f') \<Rightarrow> (k = length bs, x\<lparr>file_f := f'\<rparr>))"

definition File_Reader :: "File Reader" where
  "File_Reader = \<lparr>r_isOpen = File_isOpen, r_close = File_close, r_read = File_read\<rparr>"

definition File_Writer :: "File Writer" where
  "File_Writer = \<lparr>w_isOpen = File_isOpen, w_close = File_close, w_write = File_write\<rparr>"

subsection \<open>Spies and formatted writes\<close>

definition ReaderSpy_isOpen :: "'r Reader \<Rightarrow> 'r \<times> 's \<Rightarrow> bool \<times> ('r \<times> 's)" where
  "ReaderSpy_isOpen R x = (case r_isOpen R (fst x) of (b, r') \<Rightarrow> (b, (r', snd x)))"

definition ReaderSpy_close :: "'r Reader \<Rightarrow> 'r \<times> 's \<Rightarrow> 'r \<times> 's" where
  "ReaderSpy_close R x = (r_close R (fst x), snd x)"

definition ReaderSpy_read ::
  "'r Reader \<Rightarrow> 's Writer \<Rightarrow> bytes \<Rightarrow> 'r \<times> 's \<Rightarrow> nat \<Rightarrow> (bytes \<times> ('r \<times> 's)) option" where
  "ReaderSpy_read R S pfx x n =
     (case r_read R (fst x) n of
        None \<Rightarrow> None
      | Some (c, r') \<Rightarrow>
          if length c > 0
          then (case w_write S (snd x) (pfx @ c) of (_, s') \<Rightarrow> Some (c, (r', s')))
          else Some (c, (r', snd x)))"

definition ReaderSpy_Reader :: "'r Reader \<Rightarrow> 's Writer \<Rightarrow> bytes \<Rightarrow> ('r \<times> 's) Reader" where
  "ReaderSpy_Reader R S pfx =
     \<lparr>r_isOpen = ReaderSpy_isOpen R, r_close = ReaderSpy_close R,
      r_read = ReaderSpy_read R S pfx\<rparr>"

definition WriterSpy_isOpen :: "'w Writer \<Rightarrow> 'w \<times> 's \<Rightarrow> bool \<times> ('w \<times> 's)" where
  "WriterSpy_isOpen W x = (case w_isOpen W (fst x) of (b, w') \<Rightarrow> (b, (w', snd x)))"

definition WriterSpy_close :: "'w Writer \<Rightarrow> 'w \<times> 's \<Rightarrow> 'w \<times> 's" where
  "WriterSpy_close W x = (w_close W (fst x), snd x)"

definition WriterSpy_write ::
  "'w Writer \<Rightarrow> 's Writer \<Rightarrow> bytes \<Rightarrow> 'w \<times> 's \<Rightarrow> bytes \<Rightarrow> bool \<times> ('w \<times> 's)" where
  "WriterSpy_write W S pfx x bs =
     (case w_write W (fst x) bs of (ok, w') \<Rightarrow>
        if \<not> ok then (False, (w', snd x))
        else (case w_write S (snd x) (pfx @ bs) of (_, s') \<Rightarrow> (True, (w', s'))))"

definition WriterSpy_Writer :: "'w Writer \<Rightarrow> 's Writer \<Rightarrow> bytes \<Rightarrow> ('w \<times> 's) Writer" where
  "WriterSpy_Writer W S pfx =
     \<lparr>w_isOpen = WriterSpy_isOpen W, w_close = WriterSpy_close W,
      w_write = WriterSpy_write W S pfx\<rparr>"

text \<open>
  \<^verbatim>\<open>vsnprintf\<close> into a buffer of \<open>sz\<close> bytes keeps at most \<open>sz - 1\<close> bytes of the expanded
  format and ends them with a NUL; the C string read back stops at the first NUL byte.
\<close>

definition vsnprintf_c_str :: "nat \<Rightarrow> bytes \<Rightarrow> bytes" where
  "vsnprintf_c_str sz expanded = takeWhile (\<lambda>c. c \<noteq> NUL) (take (sz - 1) expanded)"

definition writef :: "'w Writer \<Rightarrow> 'w \<Rightarrow> bytes \<Rightarrow> bool \<times> 'w" where
  "writef W w expanded = w_write W w (vsnprintf_c_str 2048 expanded)"

lemmas stringbuffer_defs [io_simps] =
  StringBuffer_isOpen_def StringBuffer_close_def StringBuffer_string_def
  StringBuffer_Reader_def StringBuffer_Writer_def
lemmas pipe_defs [io_simps] =
  Pipe_isOpen_def Pipe_close_def Pipe_Reader_def Pipe_Writer_def
lemmas file_defs [io_simps] =
  File_isOpen_def File_Reader_def File_Writer_def
lemmas rw_defs [io_simps] =
  RW_isOpen_def RW_close_def RW_Reader_def RW_Writer_def RW_read_def RW_write_def
lemmas spy_defs [io_simps] =
  ReaderSpy_isOpen_def ReaderSpy_close_def ReaderSpy_Reader_def
  WriterSpy_isOpen_def WriterSpy_close_def WriterSpy_Writer_def

subsection \<open>What a client of a reader relies on\<close>

text \<open>
  \<open>contents r\<close> are the bytes the reader can still deliver. A read returns a prefix of them, no
  longer than asked for; when at least the wanted number of bytes is there, and it is not more than the
  256 bytes that the content reader asks for at a time, the read returns and makes progress. Reading does not open or close the stream.
\<close>

locale byte_reader =
  fixes R :: "'r Reader"
    and contents :: "'r \<Rightarrow> bytes"
    and invar :: "'r \<Rightarrow> bool"
  assumes read_split: "invar r \<Longrightarrow> r_read R r n = Some (bs, r') \<Longrightarrow> contents r = bs @ contents r'"
    and read_length: "invar r \<Longrightarrow> r_read R r n = Some (bs, r') \<Longrightarrow> length bs \<le> n"
    and read_invar: "invar r \<Longrightarrow> r_read R r n = Some (bs, r') \<Longrightarrow> invar r'"
    and read_progress: "invar r \<Longrightarrow> 0 < n \<Longrightarrow> n \<le> 256 \<Longrightarrow> n \<le> length (contents r) \<Longrightarrow>
          \<exists>bs r'. r_read R r n = Some (bs, r') \<and> bs \<noteq> []"
    and read_isOpen: "invar r \<Longrightarrow> r_read R r n = Some (bs, r') \<Longrightarrow>
          fst (r_isOpen R r') = fst (r_isOpen R r)"
    and close_invar: "invar r \<Longrightarrow> invar (r_close R r)"

text \<open>A reader that never blocks: at the end of its contents it returns no byte.\<close>

locale draining_reader = byte_reader R contents invar
  for R :: "'r Reader" and contents :: "'r \<Rightarrow> bytes" and invar :: "'r \<Rightarrow> bool" +
  assumes read_returns: "invar r \<Longrightarrow> \<exists>bs r'. r_read R r n = Some (bs, r')"

text \<open>
  A link: what is written to the one end can be read at the other. While it is open it accepts every write
  of a size that fits, and the bytes appear at the end of its contents. A device whose writer feeds its
  own reader is a link for writes of every size, and rejects them when it is closed.
\<close>

locale stream_link = byte_reader R contents invar
  for R :: "'d Reader" and contents :: "'d \<Rightarrow> bytes" and invar :: "'d \<Rightarrow> bool" +
  fixes W :: "'d Writer" and fits :: "bytes \<Rightarrow> bool"
  assumes write_open: "invar d \<Longrightarrow> fst (r_isOpen R d) \<Longrightarrow> bs \<noteq> [] \<Longrightarrow> fits bs \<Longrightarrow>
          \<exists>d'. w_write W d bs = (True, d') \<and> contents d' = contents d @ bs \<and> invar d'
               \<and> fst (r_isOpen R d')"

locale loopback = stream_link R contents invar W "\<lambda>_. True"
  for R :: "'d Reader" and contents :: "'d \<Rightarrow> bytes" and invar :: "'d \<Rightarrow> bool" and W :: "'d Writer" +
  assumes write_closed: "invar d \<Longrightarrow> \<not> fst (r_isOpen R d) \<Longrightarrow> w_write W d bs = (False, d)"
    and writer_isOpen: "w_isOpen W d = (fst (r_isOpen R d), d)"

text \<open>Bounds of one read, as the caller's loop needs them.\<close>

context byte_reader
begin

lemma read_rest_length:
  assumes "invar r" and "r_read R r n = Some (bs, r')"
  shows "length (contents r') + length bs = length (contents r)"
  using read_split [OF assms] by simp

lemma read_empty:
  assumes "invar r" and "contents r = []" and "r_read R r n = Some (bs, r')"
  shows "bs = [] \<and> contents r' = []"
  using read_split [OF assms(1,3)] assms(2) by simp

end

subsection \<open>StringBuffer keeps the contract\<close>

definition sb_inv :: "StringBuffer \<Rightarrow> bool" where
  "sb_inv s \<longleftrightarrow> sum_list (sb_chunk_lengths s) = length (sb_str s) \<and> 0 \<notin> set (sb_chunk_lengths s)"

definition sb_contents :: "StringBuffer \<Rightarrow> bytes" where
  "sb_contents s = (if sb_closed s then [] else sb_str s)"

lemma sb_inv_create: "sb_inv StringBuffer_create"
  by (simp add: sb_inv_def StringBuffer_create_def)

lemma sb_inv_chunks: "sb_inv s \<Longrightarrow> sb_chunk_lengths s = [] \<longleftrightarrow> sb_str s = []"
  unfolding sb_inv_def by (cases "sb_chunk_lengths s") auto

lemma sb_inv_head:
  "sb_inv s \<Longrightarrow> sb_chunk_lengths s = c # cs \<Longrightarrow> 0 < c \<and> c \<le> length (sb_str s)
     \<and> sum_list cs = length (sb_str s) - c \<and> 0 \<notin> set cs"
  unfolding sb_inv_def by auto

lemma StringBuffer_read_invar:
  assumes invar: "sb_inv s"
  shows "StringBuffer_read s n =
     (if sb_closed s \<or> n = 0 \<or> sb_str s = [] then Some ([], s)
      else let c = hd (sb_chunk_lengths s); len = min n c
           in Some (take len (sb_str s), s\<lparr>sb_str := drop len (sb_str s),
                sb_chunk_lengths := (if n < c then (c - n) # tl (sb_chunk_lengths s)
                                     else tl (sb_chunk_lengths s))\<rparr>))"
proof (cases "sb_chunk_lengths s")
  case Nil
  with invar show ?thesis
    by (simp add: StringBuffer_read_def sb_inv_chunks)
next
  case (Cons c cs)
  with sb_inv_head [OF invar Cons] invar show ?thesis
    by (auto simp: StringBuffer_read_def Let_def sb_inv_chunks)
qed

lemma StringBuffer_read_keeps_inv:
  assumes invar: "sb_inv s" and read: "StringBuffer_read s n = Some (bs, s')"
  shows "sb_inv s'"
proof (cases "sb_chunk_lengths s")
  case Nil
  with invar read show ?thesis
    by (simp add: StringBuffer_read_def)
next
  case (Cons c cs)
  with sb_inv_head [OF invar Cons] invar read show ?thesis
    by (auto simp: StringBuffer_read_invar sb_inv_def Let_def split: if_splits)
qed

interpretation sb: draining_reader StringBuffer_Reader sb_contents sb_inv
proof (unfold_locales, goal_cases)
  case (1 s n bs s')
  then show ?case
    by (auto simp: io_simps sb_contents_def StringBuffer_read_invar Let_def split: if_splits)
next
  case (2 s n bs s')
  then show ?case
    by (auto simp: io_simps StringBuffer_read_invar Let_def split: if_splits)
next
  case (3 s n bs s')
  then show ?case
    by (auto simp: io_simps intro: StringBuffer_read_keeps_inv)
next
  case (4 s n)
  then show ?case
    by (cases "sb_chunk_lengths s")
       (auto simp: io_simps sb_contents_def StringBuffer_read_invar Let_def sb_inv_chunks
          dest: sb_inv_head split: if_splits)
next
  case (5 s n bs s')
  then show ?case
    by (auto simp: io_simps StringBuffer_read_invar Let_def split: if_splits)
next
  case (6 s)
  then show ?case
    by (simp add: io_simps sb_inv_def)
next
  case (7 s n)
  then show ?case
    by (simp add: io_simps StringBuffer_read_invar Let_def)
qed

interpretation sb: loopback StringBuffer_Reader sb_contents sb_inv StringBuffer_Writer
  by unfold_locales (auto simp: io_simps sb_contents_def StringBuffer_write_def sb_inv_def)

subsection \<open>Pipe keeps the contract\<close>

definition pipe_contents :: "Pipe \<Rightarrow> bytes" where
  "pipe_contents p = (if p_closed p then [] else p_data p)"

lemma Pipe_read_eq:
  "Pipe_read p n =
     (if p_closed p then Some ([], p)
      else if p_data p \<noteq> [] \<and> n \<le> length (p_data p)
      then Some (take n (p_data p), p\<lparr>p_data := drop n (p_data p)\<rparr>)
      else None)"
  by (auto simp: Pipe_read_def Pipe_read_turn_def Let_def min_def)

interpretation pipe: byte_reader Pipe_Reader pipe_contents "\<lambda>_. True"
  by unfold_locales (auto simp: io_simps pipe_contents_def Pipe_read_eq split: if_splits)

interpretation pipe: loopback Pipe_Reader pipe_contents "\<lambda>_. True" Pipe_Writer
  by unfold_locales (auto simp: io_simps pipe_contents_def Pipe_write_def)

subsection \<open>File keeps the contract\<close>

definition file_contents :: "File \<Rightarrow> bytes" where
  "file_contents x = (if f_fclosed (file_f x) then [] else f_in (file_f x))"

lemma File_read_loop_eq:
  "File_read_loop f n = (take n (f_in f), f\<lparr>f_in := drop n (f_in f)\<rparr>)"
  by (induction f n rule: File_read_loop.induct) (auto simp: fgetc_def split: list.splits)

lemma File_read_eq:
  "File_read x n =
     (if f_fclosed (file_f x) \<and> n \<noteq> 0 then None
      else Some (take n (f_in (file_f x)),
                 x\<lparr>file_f := (file_f x)\<lparr>f_in := drop n (f_in (file_f x))\<rparr>\<rparr>))"
  by (simp add: File_read_def File_read_loop_eq)

interpretation fileio: byte_reader File_Reader file_contents "\<lambda>_. True"
  by unfold_locales (auto simp: io_simps file_contents_def File_read_eq split: if_splits)

subsection \<open>Wrappers keep the contract of what they wrap\<close>

text \<open>
  A \<^verbatim>\<open>RW\<close> reads what its reader reads. A spy delivers exactly what the reader behind it delivers,
  whatever happens to the copy.
\<close>

context byte_reader
begin

lemma RW_reader: "byte_reader (RW_Reader R W) (\<lambda>x. contents (fst x)) (\<lambda>x. invar (fst x))"
proof (unfold_locales, goal_cases)
  case (1 x n bs x')
  then show ?case
    by (auto simp: io_simps split: option.splits dest: read_split)
next
  case (2 x n bs x')
  then show ?case
    by (auto simp: io_simps split: option.splits dest: read_length)
next
  case (3 x n bs x')
  then show ?case
    by (auto simp: io_simps split: option.splits dest: read_invar)
next
  case (4 x n)
  with read_progress [of "fst x" n] show ?case
    by (auto simp: io_simps)
next
  case (5 x n bs x')
  then show ?case
    by (auto simp: io_simps split: option.splits prod.splits dest: read_isOpen)
next
  case (6 x)
  then show ?case
    by (simp add: io_simps close_invar)
qed

lemma ReaderSpy_reader:
  "byte_reader (ReaderSpy_Reader R S pfx) (\<lambda>x. contents (fst x)) (\<lambda>x. invar (fst x))"
proof (unfold_locales, goal_cases)
  case (1 x n bs x')
  then show ?case
    by (auto simp: io_simps ReaderSpy_read_def split: option.splits prod.splits if_splits
        dest: read_split)
next
  case (2 x n bs x')
  then show ?case
    by (auto simp: io_simps ReaderSpy_read_def split: option.splits prod.splits if_splits
        dest: read_length)
next
  case (3 x n bs x')
  then show ?case
    by (auto simp: io_simps ReaderSpy_read_def split: option.splits prod.splits if_splits
        dest: read_invar)
next
  case (4 x n)
  with read_progress [of "fst x" n] show ?case
    by (auto simp: io_simps ReaderSpy_read_def split: prod.splits)
next
  case (5 x n bs x')
  then show ?case
    by (auto simp: io_simps ReaderSpy_read_def split: option.splits prod.splits if_splits
        dest: read_isOpen)
next
  case (6 x)
  then show ?case
    by (simp add: io_simps close_invar)
qed

end

interpretation sb_spy: byte_reader "ReaderSpy_Reader StringBuffer_Reader S pfx"
  "\<lambda>x. sb_contents (fst x)" "\<lambda>x. sb_inv (fst x)" for S :: "'s Writer" and pfx
  by (rule sb.ReaderSpy_reader)

interpretation pipe_rw: byte_reader "RW_Reader Pipe_Reader W"
  "\<lambda>x. pipe_contents (fst x)" "\<lambda>_. True" for W :: "'w Writer"
  by (rule pipe.RW_reader)

end
