(* ===== verification/ContentStream.thy ===== *)
theory ContentStream
  imports IO
begin

section \<open>Message framing: \<^verbatim>\<open>src/content_stream.h\<close>, \<^verbatim>\<open>src/content_stream.cpp\<close>\<close>

text \<open>
  \<^verbatim>\<open>ContentReader\<close> cuts a byte stream into messages, \<^verbatim>\<open>ContentWriter\<close> writes one message with its
  \<^verbatim>\<open>Content-Length\<close> header. The reader is modelled with its look-ahead buffer and the operations
  of the underlying \<^verbatim>\<open>Reader\<close> as a parameter; a call that does not return (the underlying read
  blocks, the loop does not end, or a null \<^verbatim>\<open>reader\<close> is dereferenced) is \<open>None\<close>.
\<close>

datatype OnInvalidData = kIgnore | kClose

record 'r ContentReader =
  cr_reader :: "'r option"
  cr_buf :: bytes
  cr_on_invalid_data :: OnInvalidData

definition ContentReader_new :: "'r \<Rightarrow> OnInvalidData \<Rightarrow> 'r ContentReader" where
  "ContentReader_new r oid = \<lparr>cr_reader = Some r, cr_buf = [], cr_on_invalid_data = oid\<rparr>"

definition ContentReader_isOpen :: "'r Reader \<Rightarrow> 'r ContentReader \<Rightarrow> bool \<times> 'r ContentReader" where
  "ContentReader_isOpen R cr =
     (case cr_reader cr of
        Some r \<Rightarrow> (case r_isOpen R r of (b, r') \<Rightarrow> (b, cr\<lparr>cr_reader := Some r'\<rparr>))
      | None \<Rightarrow> (False, cr))"

definition ContentReader_close :: "'r Reader \<Rightarrow> 'r ContentReader \<Rightarrow> 'r ContentReader" where
  "ContentReader_close R cr =
     (case cr_reader cr of
        Some r \<Rightarrow> cr\<lparr>cr_reader := Some (r_close R r)\<rparr>
      | None \<Rightarrow> cr)"

text \<open>
  The loop of \<^verbatim>\<open>ContentReader::buffer\<close>: every turn reads at most 256 bytes into \<^verbatim>\<open>chunk\<close> and fails
  when nothing was read, so \<open>n\<close>, the number of bytes still wanted, shrinks.
\<close>

function buffer_loop :: "'r Reader \<Rightarrow> nat \<Rightarrow> 'r \<Rightarrow> bytes \<Rightarrow> (bool \<times> 'r \<times> bytes) option" where
  "buffer_loop R n r buf =
     (if n = 0 then Some (True, r, buf)
      else case r_read R r (min 256 n) of
        None \<Rightarrow> None
      | Some (got, r') \<Rightarrow>
          if got = [] then Some (False, r', buf)
          else buffer_loop R (n - length got) r' (buf @ got))"
  by pat_completeness auto
termination
  by (relation "measure (\<lambda>(R, n, r, buf). n)") auto

declare buffer_loop.simps [simp del]

definition ContentReader_buffer ::
  "'r Reader \<Rightarrow> 'r ContentReader \<Rightarrow> nat \<Rightarrow> (bool \<times> 'r ContentReader) option" where
  "ContentReader_buffer R cr bytes =
     (if bytes < length (cr_buf cr) then Some (True, cr)
      else
        let want = bytes - length (cr_buf cr)
        in if want = 0 then Some (True, cr)
           else case cr_reader cr of
             None \<Rightarrow> None
           | Some r \<Rightarrow>
               (case buffer_loop R want r (cr_buf cr) of
                  None \<Rightarrow> None
                | Some (ok, r', buf') \<Rightarrow> Some (ok, cr\<lparr>cr_reader := Some r', cr_buf := buf'\<rparr>)))"

definition ContentReader_match ::
  "'r Reader \<Rightarrow> 'r ContentReader \<Rightarrow> bytes \<Rightarrow> (bool \<times> 'r ContentReader) option" where
  "ContentReader_match R cr seq =
     (case ContentReader_buffer R cr (length seq) of
        None \<Rightarrow> None
      | Some (ok, cr') \<Rightarrow>
          if \<not> ok then Some (False, cr')
          else if take (length seq) (cr_buf cr') \<noteq> seq then Some (False, cr')
          else Some (True, cr'\<lparr>cr_buf := drop (length seq) (cr_buf cr')\<rparr>))"

partial_function (option) ContentReader_scan ::
  "'r Reader \<Rightarrow> 'r ContentReader \<Rightarrow> bytes \<Rightarrow> (bool \<times> 'r ContentReader) option" where
  "ContentReader_scan R cr seq =
     (case ContentReader_buffer R cr (length seq) of
        None \<Rightarrow> None
      | Some (ok, cr1) \<Rightarrow>
          if \<not> ok then Some (False, cr1)
          else
            (case ContentReader_match R cr1 seq of
               None \<Rightarrow> None
             | Some (m, cr2) \<Rightarrow>
                 if m then Some (True, cr2)
                 else ContentReader_scan R (cr2\<lparr>cr_buf := tl (cr_buf cr2)\<rparr>) seq))"

text \<open>
  \<^verbatim>\<open>strchr\<close> also finds the terminating NUL of the searched string, so a NUL byte is always found.
\<close>

definition strchr :: "bytes \<Rightarrow> byte \<Rightarrow> byte option" where
  "strchr chars c = (if c \<in> set chars \<or> c = NUL then Some c else None)"

definition ContentReader_matchAny ::
  "'r Reader \<Rightarrow> 'r ContentReader \<Rightarrow> bytes \<Rightarrow> (byte \<times> 'r ContentReader) option" where
  "ContentReader_matchAny R cr chars =
     (case ContentReader_buffer R cr 1 of
        None \<Rightarrow> None
      | Some (ok, cr') \<Rightarrow>
          if \<not> ok then Some (NUL, cr')
          else
            (case strchr chars (hd (cr_buf cr')) of
               Some p \<Rightarrow> Some (p, cr'\<lparr>cr_buf := tl (cr_buf cr')\<rparr>)
             | None \<Rightarrow> Some (NUL, cr')))"

definition ContentReader_badHeader :: "'r Reader \<Rightarrow> 'r ContentReader \<Rightarrow> bytes \<times> 'r ContentReader" where
  "ContentReader_badHeader R cr =
     (if cr_on_invalid_data cr = kClose then ([], ContentReader_close R cr) else ([], cr))"

text \<open>The two loops of \<^verbatim>\<open>ContentReader::read\<close>: skipping blanks, and accumulating the length.\<close>

partial_function (option) skip_blanks :: "'r Reader \<Rightarrow> 'r ContentReader \<Rightarrow> 'r ContentReader option" where
  "skip_blanks R cr =
     (case ContentReader_matchAny R cr [CHR '' '', TAB] of
        None \<Rightarrow> None
      | Some (c, cr') \<Rightarrow> if c \<noteq> NUL then skip_blanks R cr' else Some cr')"

partial_function (option) parse_length ::
  "'r Reader \<Rightarrow> 'r ContentReader \<Rightarrow> size_t \<Rightarrow> (size_t \<times> 'r ContentReader) option" where
  "parse_length R cr len =
     (case ContentReader_matchAny R cr ''0123456789'' of
        None \<Rightarrow> None
      | Some (c, cr') \<Rightarrow>
          if c = NUL then Some (len, cr')
          else parse_length R cr' (len * 10 + (of_char c - 48)))"

text \<open>The header name that \<^verbatim>\<open>read\<close> looks for.\<close>

definition CONTENT_LENGTH :: bytes where
  "CONTENT_LENGTH = ''Content-Length:''"

definition read_body :: "'r Reader \<Rightarrow> 'r ContentReader \<Rightarrow> (bytes \<times> 'r ContentReader) option" where
  "read_body R cr =
     (case skip_blanks R cr of
        None \<Rightarrow> None
      | Some cr1 \<Rightarrow>
     (case parse_length R cr1 0 of
        None \<Rightarrow> None
      | Some (len, cr2) \<Rightarrow>
          if len = 0 then Some ([], cr2)
          else
     (case ContentReader_match R cr2 CRLF2 of
        None \<Rightarrow> None
      | Some (m, cr3) \<Rightarrow>
          if \<not> m then Some (ContentReader_badHeader R cr3)
          else
     (case ContentReader_buffer R cr3 (unat len) of
        None \<Rightarrow> None
      | Some (ok, cr4) \<Rightarrow>
          if \<not> ok then Some ([], cr4)
          else Some (take (unat len) (cr_buf cr4),
                     cr4\<lparr>cr_buf := drop (unat len) (cr_buf cr4)\<rparr>)))))"

definition ContentReader_read :: "'r Reader \<Rightarrow> 'r ContentReader \<Rightarrow> (bytes \<times> 'r ContentReader) option" where
  "ContentReader_read R cr =
     (if cr_on_invalid_data cr = kClose then
        (case ContentReader_match R cr CONTENT_LENGTH of
           None \<Rightarrow> None
         | Some (m, cr') \<Rightarrow>
             if \<not> m then Some (ContentReader_badHeader R cr') else read_body R cr')
      else
        (case ContentReader_scan R cr CONTENT_LENGTH of
           None \<Rightarrow> None
         | Some (m, cr') \<Rightarrow>
             if \<not> m then Some ([], cr') else read_body R cr'))"

subsection \<open>ContentWriter\<close>

type_synonym 'w ContentWriter = "'w option"

definition ContentWriter_isOpen :: "'w Writer \<Rightarrow> 'w ContentWriter \<Rightarrow> bool \<times> 'w ContentWriter" where
  "ContentWriter_isOpen W cw =
     (case cw of Some w \<Rightarrow> (case w_isOpen W w of (b, w') \<Rightarrow> (b, Some w')) | None \<Rightarrow> (False, None))"

definition ContentWriter_close :: "'w Writer \<Rightarrow> 'w ContentWriter \<Rightarrow> 'w ContentWriter" where
  "ContentWriter_close W cw = (case cw of Some w \<Rightarrow> Some (w_close W w) | None \<Rightarrow> None)"

definition header :: "bytes \<Rightarrow> bytes" where
  "header msg = ''Content-Length: '' @ to_string (length msg) @ CRLF2"

definition ContentWriter_write :: "'w Writer \<Rightarrow> 'w ContentWriter \<Rightarrow> bytes \<Rightarrow> (bool \<times> 'w ContentWriter) option" where
  "ContentWriter_write W cw msg =
     (case cw of
        None \<Rightarrow> None
      | Some w \<Rightarrow>
          (case w_write W w (header msg) of (ok, w1) \<Rightarrow>
             if ok then (case w_write W w1 msg of (ok', w2) \<Rightarrow> Some (ok', Some w2))
             else Some (False, Some w1)))"

subsection \<open>The reader as a position in its byte stream\<close>

text \<open>
  \<open>reader_at R contents invar b m p cr\<close>: the content reader \<open>cr\<close> is over a valid reader that is open
  iff \<open>b\<close>, it has mode \<open>m\<close>, and \<open>p\<close> are the bytes still to come: the look-ahead buffer, then the
  contents of the reader behind it.
\<close>

definition reader_at ::
  "'r Reader \<Rightarrow> ('r \<Rightarrow> bytes) \<Rightarrow> ('r \<Rightarrow> bool) \<Rightarrow> bool \<Rightarrow> OnInvalidData \<Rightarrow> bytes \<Rightarrow> 'r ContentReader \<Rightarrow> bool" where
  "reader_at R contents invar b m p cr \<longleftrightarrow>
     (\<exists>r. cr_reader cr = Some r \<and> invar r \<and> fst (r_isOpen R r) = b \<and> cr_buf cr @ contents r = p)
     \<and> cr_on_invalid_data cr = m"

lemma reader_at_new:
  "invar r \<Longrightarrow> reader_at R contents invar (fst (r_isOpen R r)) m (contents r) (ContentReader_new r m)"
  by (simp add: reader_at_def ContentReader_new_def)

lemma strchr_None: "strchr chars c = None \<longleftrightarrow> c \<notin> set chars \<and> c \<noteq> NUL"
  by (simp add: strchr_def)

lemma strchr_Some: "strchr chars c = Some d \<longleftrightarrow> d = c \<and> (c \<in> set chars \<or> c = NUL)"
  by (auto simp: strchr_def)

lemma CONTENT_LENGTH_nonempty [simp]: "CONTENT_LENGTH \<noteq> []"
  by (simp add: CONTENT_LENGTH_def)

lemma digits_ne_NUL: "c \<in> set ''0123456789'' \<Longrightarrow> c \<noteq> NUL"
  by auto

text \<open>The value the length loop computes: the decimal value, modulo the width of \<^verbatim>\<open>size_t\<close>.\<close>

lemma of_char_digit:
  assumes "is_digit c"
  shows "(of_char c - 48 :: size_t) = of_nat (digit_value c)"
proof -
  have "(of_char c :: size_t) = of_nat (of_char c)"
    by (simp add: of_nat_of_char)
  with is_digit_bounds [OF assms] show ?thesis
    by (simp add: digit_value_def of_nat_diff)
qed

lemma length_loop_value:
  assumes "\<forall>c \<in> set ds. is_digit c"
  shows "foldl (\<lambda>l c. l * 10 + (of_char c - 48)) (of_nat a :: size_t) ds
         = of_nat (foldl (\<lambda>a c. a * 10 + digit_value c) a ds)"
  using assms
proof (induction ds arbitrary: a)
  case (Cons c ds)
  have "of_nat a * 10 + (of_char c - 48) = (of_nat (a * 10 + digit_value c) :: size_t)"
    using Cons.prems by (simp add: of_char_digit)
  with Cons show ?case
    by (simp del: of_nat_add of_nat_mult)
qed simp

context byte_reader
begin

abbreviation at :: "bool \<Rightarrow> OnInvalidData \<Rightarrow> bytes \<Rightarrow> 'r ContentReader \<Rightarrow> bool" where
  "at \<equiv> reader_at R contents invar"

lemma buffer_loop_any:
  assumes "invar r" and "buffer_loop R n r buf = Some (ok, r', buf')"
  shows "\<exists>got. buf' = buf @ got \<and> contents r = got @ contents r' \<and> invar r'
     \<and> fst (r_isOpen R r') = fst (r_isOpen R r) \<and> (ok \<longrightarrow> n \<le> length got)"
  using assms
proof (induction n arbitrary: r buf rule: less_induct)
  case (less n)
  show ?case
  proof (cases "n = 0")
    case True
    with less.prems show ?thesis by (simp add: buffer_loop.simps)
  next
    case False
    with less.prems(2) obtain got1 r1 where r1: "r_read R r (min 256 n) = Some (got1, r1)"
      and rest: "(if got1 = [] then Some (False, r1, buf)
                  else buffer_loop R (n - length got1) r1 (buf @ got1)) = Some (ok, r', buf')"
      by (subst (asm) buffer_loop.simps) (auto split: option.splits)
    note facts = read_split [OF less.prems(1) r1] read_invar [OF less.prems(1) r1]
      read_isOpen [OF less.prems(1) r1]
    show ?thesis
    proof (cases "got1 = []")
      case True
      with rest facts show ?thesis by auto
    next
      case False
      with less.IH [of "n - length got1" r1 "buf @ got1"] rest facts \<open>n \<noteq> 0\<close> show ?thesis
        by fastforce
    qed
  qed
qed

lemma buffer_loop_ok:
  assumes "invar r" and "n \<le> length (contents r)"
  shows "\<exists>r' buf'. buffer_loop R n r buf = Some (True, r', buf')"
  using assms
proof (induction n arbitrary: r buf rule: less_induct)
  case (less n)
  show ?case
  proof (cases "n = 0")
    case True
    then show ?thesis by (simp add: buffer_loop.simps)
  next
    case False
    with less.prems read_progress [of r "min 256 n"] obtain got r1
      where r1: "r_read R r (min 256 n) = Some (got, r1)" and ne: "got \<noteq> []"
      by fastforce
    have len: "length (contents r1) + length got = length (contents r)"
      by (rule read_rest_length [OF less.prems(1) r1])
    have "\<exists>r' buf'. buffer_loop R (n - length got) r1 (buf @ got) = Some (True, r', buf')"
      using False ne len less.prems(2)
      by (intro less.IH read_invar [OF less.prems(1) r1]) auto
    with r1 ne False show ?thesis
      by (subst buffer_loop.simps) simp
  qed
qed

lemma buffer_any:
  assumes "at b m p cr" and "ContentReader_buffer R cr n = Some (ok, cr')"
  shows "at b m p cr' \<and> (ok \<longrightarrow> n \<le> length (cr_buf cr'))"
proof -
  from assms(1) obtain r where r: "cr_reader cr = Some r" "invar r" "fst (r_isOpen R r) = b"
    "cr_buf cr @ contents r = p" "cr_on_invalid_data cr = m"
    by (auto simp: reader_at_def)
  show ?thesis
  proof (cases "n \<le> length (cr_buf cr)")
    case True
    with assms show ?thesis
      by (auto simp: ContentReader_buffer_def split: if_splits)
  next
    case False
    with assms(2) r obtain r' buf' where l: "buffer_loop R (n - length (cr_buf cr)) r (cr_buf cr)
        = Some (ok, r', buf')" and cr': "cr' = cr\<lparr>cr_reader := Some r', cr_buf := buf'\<rparr>"
      by (auto simp: ContentReader_buffer_def split: if_splits option.splits)
    from buffer_loop_any [OF r(2) l] r cr' False show ?thesis
      by (auto simp: reader_at_def)
  qed
qed

lemma buffer_ok:
  assumes "at b m p cr" and "n \<le> length p"
  shows "\<exists>cr'. ContentReader_buffer R cr n = Some (True, cr') \<and> at b m p cr'
     \<and> n \<le> length (cr_buf cr')"
proof -
  from assms(1) obtain r where r: "cr_reader cr = Some r" "invar r" "cr_buf cr @ contents r = p"
    by (auto simp: reader_at_def)
  have "\<exists>cr'. ContentReader_buffer R cr n = Some (True, cr')"
  proof (cases "n \<le> length (cr_buf cr)")
    case True
    then show ?thesis by (simp add: ContentReader_buffer_def)
  next
    case False
    from r assms(2) have "n - length (cr_buf cr) \<le> length (contents r)"
      by auto
    with buffer_loop_ok [of r _ "cr_buf cr"] r obtain r' buf' where
      "buffer_loop R (n - length (cr_buf cr)) r (cr_buf cr) = Some (True, r', buf')"
      by blast
    with r False show ?thesis
      by (simp add: ContentReader_buffer_def)
  qed
  with buffer_any [OF assms(1)] show ?thesis by blast
qed

text \<open>A buffered prefix of the stream can be consumed.\<close>

lemma at_consume:
  assumes "at b m p cr" and "n \<le> length (cr_buf cr)"
  shows "at b m (drop n p) (cr\<lparr>cr_buf := drop n (cr_buf cr)\<rparr>)
     \<and> take n (cr_buf cr) = take n p"
  using assms by (auto simp: reader_at_def)

lemma match_yes:
  assumes "at b m (seq @ rest) cr"
  shows "\<exists>cr'. ContentReader_match R cr seq = Some (True, cr') \<and> at b m rest cr'"
proof -
  from buffer_ok [OF assms, of "length seq"] obtain cr1 where
    cr1: "ContentReader_buffer R cr (length seq) = Some (True, cr1)"
    "at b m (seq @ rest) cr1" "length seq \<le> length (cr_buf cr1)"
    by auto
  from at_consume [OF cr1(2,3)] cr1(1) show ?thesis
    by (simp add: ContentReader_match_def)
qed

lemma match_no:
  assumes "at b m p cr" and "length seq \<le> length p" and "take (length seq) p \<noteq> seq"
  shows "\<exists>cr'. ContentReader_match R cr seq = Some (False, cr') \<and> at b m p cr'
     \<and> length seq \<le> length (cr_buf cr')"
proof -
  from buffer_ok [OF assms(1,2)] obtain cr1 where
    cr1: "ContentReader_buffer R cr (length seq) = Some (True, cr1)"
    "at b m p cr1" "length seq \<le> length (cr_buf cr1)"
    by auto
  from at_consume [OF cr1(2,3)] assms(3) have "take (length seq) (cr_buf cr1) \<noteq> seq"
    by simp
  with cr1 show ?thesis
    by (simp add: ContentReader_match_def)
qed

lemma match_any:
  assumes "at b m p cr" and "ContentReader_match R cr seq = Some (ok, cr')"
  shows "if ok then \<exists>rest. p = seq @ rest \<and> at b m rest cr' else at b m p cr'"
proof -
  from assms(2) obtain ok1 cr1 where cr1: "ContentReader_buffer R cr (length seq) = Some (ok1, cr1)"
    and m: "(if \<not> ok1 then Some (False, cr1)
          else if take (length seq) (cr_buf cr1) \<noteq> seq then Some (False, cr1)
          else Some (True, cr1\<lparr>cr_buf := drop (length seq) (cr_buf cr1)\<rparr>)) = Some (ok, cr')"
    by (auto simp: ContentReader_match_def split: option.splits)
  note b1 = buffer_any [OF assms(1) cr1]
  show ?thesis
  proof (cases "ok1 \<and> take (length seq) (cr_buf cr1) = seq")
    case True
    with b1 have at1: "at b m p cr1" and len: "length seq \<le> length (cr_buf cr1)" by auto
    from True m have "ok" and "cr' = cr1\<lparr>cr_buf := drop (length seq) (cr_buf cr1)\<rparr>"
      by auto
    with at_consume [OF at1 len] True show ?thesis
      by (metis append_take_drop_id)
  next
    case False
    with m b1 show ?thesis by (auto split: if_splits)
  qed
qed

lemma matchAny_front:
  assumes "at b m (c # rest) cr"
  shows "\<exists>cr'. ContentReader_matchAny R cr chars
       = Some (if c \<in> set chars then c else NUL, cr')
     \<and> at b m (if c \<in> set chars \<or> c = NUL then rest else c # rest) cr'"
proof -
  from buffer_ok [OF assms, of 1] obtain cr1 where
    cr1: "ContentReader_buffer R cr 1 = Some (True, cr1)" "at b m (c # rest) cr1"
    "1 \<le> length (cr_buf cr1)"
    by auto
  then obtain bs where bs: "cr_buf cr1 = c # bs"
    by (cases "cr_buf cr1") (auto simp: reader_at_def)
  from at_consume [OF cr1(2,3)] bs have "at b m rest (cr1\<lparr>cr_buf := bs\<rparr>)"
    by simp
  with cr1 bs show ?thesis
    by (auto simp: ContentReader_matchAny_def strchr_def)
qed

lemma skip_blanks_stop:
  assumes "at b m (ws @ c # rest) cr" and "set ws \<subseteq> {CHR '' '', TAB}"
    and "c \<noteq> CHR '' ''" "c \<noteq> TAB" "c \<noteq> NUL"
  shows "\<exists>cr'. skip_blanks R cr = Some cr' \<and> at b m (c # rest) cr'"
  using assms(1,2)
proof (induction ws arbitrary: cr)
  case Nil
  with matchAny_front [of b m c rest cr "[CHR '' '', TAB]"] assms(3-5) show ?case
    by (subst skip_blanks.simps) auto
next
  case (Cons w ws)
  then have w: "w \<in> set [CHR '' '', TAB]" "w \<noteq> NUL" by auto
  from Cons.prems matchAny_front [of b m w "ws @ c # rest" cr "[CHR '' '', TAB]"] w
  obtain cr1 where "ContentReader_matchAny R cr [CHR '' '', TAB] = Some (w, cr1)"
    and "at b m (ws @ c # rest) cr1"
    by auto
  with Cons w show ?case
    by (subst skip_blanks.simps) auto
qed

lemma parse_length_stop:
  assumes "at b m (ds @ c # rest) cr" and "\<forall>d \<in> set ds. is_digit d" and "\<not> is_digit c"
  shows "\<exists>cr'. parse_length R cr len
       = Some (foldl (\<lambda>l c. l * 10 + (of_char c - 48)) len ds, cr')
     \<and> at b m (if c = NUL then rest else c # rest) cr'"
  using assms(1,2)
proof (induction ds arbitrary: cr len)
  case Nil
  then have at: "at b m (c # rest) cr" by simp
  from matchAny_front [OF at, of "''0123456789''", folded is_digit_def] assms(3)
  obtain cr' where "ContentReader_matchAny R cr ''0123456789'' = Some (NUL, cr')"
    and "at b m (if c = NUL then rest else c # rest) cr'"
    by (simp only: if_False simp_thms) blast
  then show ?case
    by (subst parse_length.simps) simp
next
  case (Cons d ds)
  then have d: "d \<in> set ''0123456789''" "d \<noteq> NUL"
    unfolding is_digit_def by auto
  from Cons.prems matchAny_front [of b m d "ds @ c # rest" cr "''0123456789''"] d
  obtain cr1 where "ContentReader_matchAny R cr ''0123456789'' = Some (d, cr1)"
    and "at b m (ds @ c # rest) cr1"
    by auto
  with Cons d show ?case
    by (subst parse_length.simps) auto
qed

lemma scan_finds:
  assumes "at b m (g @ seq @ rest) cr" and "seq \<noteq> []"
    and "\<forall>i < length g. take (length seq) (drop i (g @ seq @ rest)) \<noteq> seq"
  shows "\<exists>cr'. ContentReader_scan R cr seq = Some (True, cr') \<and> at b m rest cr'"
  using assms(1,3)
proof (induction g arbitrary: cr)
  case Nil
  from buffer_ok [of b m "seq @ rest" cr "length seq"] Nil obtain cr1 where
    cr1: "ContentReader_buffer R cr (length seq) = Some (True, cr1)" "at b m (seq @ rest) cr1"
    by auto
  from match_yes [OF cr1(2)] cr1(1) show ?case
    by (subst ContentReader_scan.simps) auto
next
  case (Cons x g)
  let ?p = "x # g @ seq @ rest"
  from Cons.prems buffer_ok [of b m ?p cr "length seq"] obtain cr1 where
    cr1: "ContentReader_buffer R cr (length seq) = Some (True, cr1)" "at b m ?p cr1"
    by auto
  from Cons.prems(2) have "take (length seq) ?p \<noteq> seq"
    by (auto dest: spec [of _ 0])
  with match_no [OF cr1(2), of seq] obtain cr2 where
    cr2: "ContentReader_match R cr1 seq = Some (False, cr2)" "at b m ?p cr2"
    "length seq \<le> length (cr_buf cr2)"
    by auto
  with \<open>seq \<noteq> []\<close> have "1 \<le> length (cr_buf cr2)"
    by (cases seq) auto
  from at_consume [OF cr2(2) this] have at3: "at b m (g @ seq @ rest) (cr2\<lparr>cr_buf := tl (cr_buf cr2)\<rparr>)"
    by (simp add: drop_Suc)
  have "\<forall>i < length g. take (length seq) (drop i (g @ seq @ rest)) \<noteq> seq"
    using Cons.prems(2) by (auto dest: spec [of _ "Suc _"])
  from Cons.IH [OF at3 this] cr1(1) cr2(1) show ?case
    by (subst ContentReader_scan.simps) simp
qed

text \<open>
  The part of \<^verbatim>\<open>read\<close> after the header name: blanks, a decimal length (a NUL byte right after it is
  swallowed), the blank line, the body.
\<close>

lemma read_number:
  assumes at: "at b m (ws @ ds @ z @ CRLF2 @ t) cr"
    and ws: "set ws \<subseteq> {CHR '' '', TAB}"
    and ds: "ds \<noteq> []" "\<forall>d \<in> set ds. is_digit d" and z: "z \<in> {[], [NUL]}"
  shows "\<exists>cr1 cr2. skip_blanks R cr = Some cr1 \<and> parse_length R cr1 0 = Some (of_nat (decimal ds), cr2)
     \<and> at b m (CRLF2 @ t) cr2"
proof -
  obtain d ds' where d: "ds = d # ds'" using ds(1) by (cases ds) auto
  with ds(2) have "is_digit d" by simp
  then have dne: "d \<noteq> CHR '' ''" "d \<noteq> TAB" "d \<noteq> NUL"
    by (auto simp: is_digit_def)
  from skip_blanks_stop [of b m ws d "ds' @ z @ CRLF2 @ t" cr, OF _ ws dne] at d
  obtain cr1 where cr1: "skip_blanks R cr = Some cr1" "at b m (ds @ z @ CRLF2 @ t) cr1"
    by auto
  from z consider "z = []" | "z = [NUL]" by auto
  then obtain c u where c: "z @ CRLF2 @ t = c # u" "\<not> is_digit c"
    "(if c = NUL then u else c # u) = CRLF2 @ t"
  proof cases
    case 1
    then show ?thesis
      by (intro that [of "CHR 0x0D" "tl CRLF2 @ t"]) (simp_all add: CRLF2_def is_digit_def)
  next
    case 2
    then show ?thesis
      by (intro that [of NUL "CRLF2 @ t"]) simp_all
  qed
  have "foldl (\<lambda>l c. l * 10 + (of_char c - 48)) (0 :: size_t) ds = of_nat (decimal ds)"
    using length_loop_value [OF ds(2), of 0] by (simp add: decimal_def)
  with parse_length_stop [of b m ds c u cr1 0, OF _ ds(2) c(2)] cr1 c show ?thesis
    by auto
qed

lemma read_body_frame:
  assumes at: "at b m (ws @ ds @ z @ CRLF2 @ body @ rest) cr"
    and hdr: "set ws \<subseteq> {CHR '' '', TAB}" "ds \<noteq> []" "\<forall>d \<in> set ds. is_digit d" "z \<in> {[], [NUL]}"
    and len: "length body = decimal ds mod 2 ^ 64" and ne: "body \<noteq> []"
  shows "\<exists>cr'. read_body R cr = Some (body, cr') \<and> at b m rest cr'"
proof -
  define len where "len = (of_nat (decimal ds) :: size_t)"
  have unat_len: "unat len = length body"
    using len by (simp add: len_def unat_of_nat)
  with ne have "len \<noteq> 0" by auto
  from read_number [OF at hdr] obtain cr1 cr2 where cr1: "skip_blanks R cr = Some cr1"
    and cr2: "parse_length R cr1 0 = Some (len, cr2)" "at b m (CRLF2 @ body @ rest) cr2"
    by (auto simp: len_def)
  from match_yes [OF cr2(2)] obtain cr3 where
    cr3: "ContentReader_match R cr2 CRLF2 = Some (True, cr3)" "at b m (body @ rest) cr3"
    by auto
  from buffer_ok [OF cr3(2), of "unat len"] unat_len obtain cr4 where
    cr4: "ContentReader_buffer R cr3 (unat len) = Some (True, cr4)" "at b m (body @ rest) cr4"
    "unat len \<le> length (cr_buf cr4)"
    by auto
  from at_consume [OF cr4(2,3)] unat_len have
    "at b m rest (cr4\<lparr>cr_buf := drop (unat len) (cr_buf cr4)\<rparr>)"
    "take (unat len) (cr_buf cr4) = body"
    by auto
  with cr1 cr2(1) \<open>len \<noteq> 0\<close> cr3(1) cr4(1) show ?thesis
    by (simp add: read_body_def)
qed

text \<open>A length whose value is zero modulo the width of \<^verbatim>\<open>size_t\<close>: the blank line is left unread.\<close>

lemma read_body_zero:
  assumes at: "at b m (ws @ ds @ z @ CRLF2 @ t) cr"
    and hdr: "set ws \<subseteq> {CHR '' '', TAB}" "ds \<noteq> []" "\<forall>d \<in> set ds. is_digit d" "z \<in> {[], [NUL]}"
    and len: "decimal ds mod 2 ^ 64 = 0"
  shows "\<exists>cr'. read_body R cr = Some ([], cr') \<and> at b m (CRLF2 @ t) cr'"
proof -
  have "unat (of_nat (decimal ds) :: size_t) = 0"
    using len by (simp add: unat_of_nat)
  then have "(of_nat (decimal ds) :: size_t) = 0"
    by (simp only: unat_eq_0)
  with read_number [OF at hdr] show ?thesis
    by (auto simp: read_body_def)
qed

text \<open>In both modes a header at the front of the stream leads to the body.\<close>

lemma read_front:
  assumes at: "at b m (CONTENT_LENGTH @ p) cr"
  shows "\<exists>cr'. ContentReader_read R cr = read_body R cr' \<and> at b m p cr'"
proof (cases m)
  case kClose
  with match_yes [OF at] at show ?thesis
    by (auto simp: ContentReader_read_def reader_at_def)
next
  case kIgnore
  with scan_finds [of b m "[]" CONTENT_LENGTH p cr] at show ?thesis
    by (auto simp: ContentReader_read_def reader_at_def)
qed

text \<open>A well-formed frame at the front of the stream is delivered, in both modes.\<close>

lemma read_frame:
  assumes at: "at b m (CONTENT_LENGTH @ ws @ ds @ z @ CRLF2 @ body @ rest) cr"
    and hdr: "set ws \<subseteq> {CHR '' '', TAB}" "ds \<noteq> []" "\<forall>d \<in> set ds. is_digit d" "z \<in> {[], [NUL]}"
    and len: "length body = decimal ds mod 2 ^ 64" "body \<noteq> []"
  shows "\<exists>cr'. ContentReader_read R cr = Some (body, cr') \<and> at b m rest cr'"
proof -
  from read_front [OF at] obtain cr1 where "ContentReader_read R cr = read_body R cr1"
    and "at b m (ws @ ds @ z @ CRLF2 @ body @ rest) cr1"
    by blast
  with read_body_frame [OF _ hdr len] show ?thesis by auto
qed

lemma read_resync:
  assumes at: "at b kIgnore (g @ CONTENT_LENGTH @ ws @ ds @ z @ CRLF2 @ body @ rest) cr"
    and g: "\<forall>i < length g. take (length CONTENT_LENGTH) (drop i (g @ CONTENT_LENGTH)) \<noteq> CONTENT_LENGTH"
    and hdr: "set ws \<subseteq> {CHR '' '', TAB}" "ds \<noteq> []" "\<forall>d \<in> set ds. is_digit d" "z \<in> {[], [NUL]}"
    and len: "length body = decimal ds mod 2 ^ 64" "body \<noteq> []"
  shows "\<exists>cr'. ContentReader_read R cr = Some (body, cr') \<and> at b kIgnore rest cr'"
proof -
  let ?cl = CONTENT_LENGTH and ?p = "ws @ ds @ z @ CRLF2 @ body @ rest"
  have "\<forall>i < length g. take (length ?cl) (drop i (g @ ?cl @ ?p)) \<noteq> ?cl"
  proof (intro allI impI)
    fix i assume i: "i < length g"
    then have "take (length ?cl) (drop i ((g @ ?cl) @ ?p)) = take (length ?cl) (drop i (g @ ?cl))"
      by (simp del: append_assoc)
    with g i show "take (length ?cl) (drop i (g @ ?cl @ ?p)) \<noteq> ?cl"
      by simp
  qed
  from scan_finds [OF at _ this] obtain cr1 where
    cr1: "ContentReader_scan R cr ?cl = Some (True, cr1)" "at b kIgnore ?p cr1"
    by auto
  have "cr_on_invalid_data cr = kIgnore"
    using at by (simp add: reader_at_def)
  with read_body_frame [OF cr1(2) hdr len] cr1(1) show ?thesis
    by (simp add: ContentReader_read_def)
qed

lemma read_reject:
  assumes at: "at b kClose p cr" and "length CONTENT_LENGTH \<le> length p" and "take (length CONTENT_LENGTH) p \<noteq> CONTENT_LENGTH"
  shows "\<exists>cr' r. ContentReader_read R cr = Some ([], cr')
     \<and> cr_reader cr' = Some (r_close R r) \<and> invar r"
proof -
  from match_no [OF at, of CONTENT_LENGTH] assms(2,3) obtain cr1 where
    cr1: "ContentReader_match R cr CONTENT_LENGTH = Some (False, cr1)" "at b kClose p cr1"
    by auto
  moreover have "cr_on_invalid_data cr = kClose"
    using at by (simp add: reader_at_def)
  ultimately show ?thesis
    by (auto simp: ContentReader_read_def ContentReader_badHeader_def ContentReader_close_def
        reader_at_def)
qed

subsection \<open>What any successful call consumes\<close>

lemma matchAny_any:
  assumes "at b m p cr" and "ContentReader_matchAny R cr chars = Some (c, cr')"
  shows "\<exists>p'. at b m p' cr' \<and> (if c = NUL then p' = p \<or> p = NUL # p' else c \<in> set chars \<and> p = c # p')"
proof -
  from assms(2) obtain ok cr1 where cr1: "ContentReader_buffer R cr 1 = Some (ok, cr1)"
    by (auto simp: ContentReader_matchAny_def split: option.splits)
  note at1 = buffer_any [OF assms(1) cr1]
  show ?thesis
  proof (cases ok)
    case False
    with assms(2) cr1 at1 show ?thesis
      by (auto simp: ContentReader_matchAny_def)
  next
    case True
    with at1 obtain x xs where x: "cr_buf cr1 = x # xs" by (cases "cr_buf cr1") auto
    from at_consume [of b m p cr1 1] at1 x True have at2: "at b m (tl p) (cr1\<lparr>cr_buf := xs\<rparr>)"
      by (simp add: drop_Suc)
    have p: "p = x # tl p"
      using at1 x by (auto simp: reader_at_def)
    show ?thesis
    proof (cases "strchr chars x")
      case None
      with assms(2) cr1 at1 x True show ?thesis
        by (auto simp: ContentReader_matchAny_def)
    next
      case (Some d)
      with assms(2) cr1 x True have "c = d" "cr' = cr1\<lparr>cr_buf := xs\<rparr>"
        by (simp_all add: ContentReader_matchAny_def)
      moreover have "d = x" "d \<noteq> NUL \<longrightarrow> d \<in> set chars"
        using Some by (auto simp: strchr_Some)
      ultimately show ?thesis
        using at2 p by (intro exI [of _ "tl p"]) auto
    qed
  qed
qed

lemma skip_blanks_any:
  assumes "at b m p cr" and "skip_blanks R cr = Some cr'"
  shows "\<exists>ws z p'. p = ws @ z @ p' \<and> set ws \<subseteq> {CHR '' '', TAB} \<and> z \<in> {[], [NUL]} \<and> at b m p' cr'"
  using assms
proof (induction "length p" arbitrary: p cr rule: less_induct)
  case less
  from less.prems(2) obtain c cr1 where
    cr1: "ContentReader_matchAny R cr [CHR '' '', TAB] = Some (c, cr1)"
    and rest: "(if c \<noteq> NUL then skip_blanks R cr1 else Some cr1) = Some cr'"
    by (subst (asm) skip_blanks.simps) (auto split: option.splits)
  from matchAny_any [OF less.prems(1) cr1] obtain p1 where at1: "at b m p1 cr1"
    and p1: "if c = NUL then p1 = p \<or> p = NUL # p1 else c \<in> set [CHR '' '', TAB] \<and> p = c # p1"
    by blast
  show ?case
  proof (cases "c = NUL")
    case True
    with p1 obtain z where "z \<in> {[], [NUL]}" "p = z @ p1" by fastforce
    with at1 rest True show ?thesis
      by (intro exI [of _ "[]"] exI [of _ z] exI [of _ p1]) auto
  next
    case False
    with p1 have "length p1 < length p" by simp
    from less.hyps [OF this at1] rest False obtain ws z p' where
      "p1 = ws @ z @ p'" "set ws \<subseteq> {CHR '' '', TAB}" "z \<in> {[], [NUL]}" "at b m p' cr'"
      by auto
    moreover from False p1 have "p = c # p1" "c \<in> {CHR '' '', TAB}" by auto
    ultimately show ?thesis
      by (intro exI [of _ "c # ws"] exI [of _ z] exI [of _ p']) simp
  qed
qed

lemma parse_length_any:
  assumes "at b m p cr" and "parse_length R cr len = Some (len', cr')"
  shows "\<exists>ds z p'. p = ds @ z @ p' \<and> (\<forall>d \<in> set ds. is_digit d) \<and> z \<in> {[], [NUL]} \<and> at b m p' cr'
     \<and> len' = foldl (\<lambda>l c. l * 10 + (of_char c - 48)) len ds"
  using assms
proof (induction "length p" arbitrary: p cr len rule: less_induct)
  case less
  from less.prems(2) obtain c cr1 where
    cr1: "ContentReader_matchAny R cr ''0123456789'' = Some (c, cr1)"
    and rest: "(if c = NUL then Some (len, cr1)
                else parse_length R cr1 (len * 10 + (of_char c - 48))) = Some (len', cr')"
    by (subst (asm) parse_length.simps) (auto split: option.splits)
  from matchAny_any [OF less.prems(1) cr1] obtain p1 where at1: "at b m p1 cr1"
    and p1: "if c = NUL then p1 = p \<or> p = NUL # p1 else c \<in> set ''0123456789'' \<and> p = c # p1"
    by blast
  show ?case
  proof (cases "c = NUL")
    case True
    with p1 obtain z where "z \<in> {[], [NUL]}" "p = z @ p1" by fastforce
    with at1 rest True show ?thesis
      by (intro exI [of _ "[]"] exI [of _ z] exI [of _ p1]) auto
  next
    case False
    with p1 have p: "p = c # p1" and d: "is_digit c"
      by (simp_all add: is_digit_def)
    then have lt: "length p1 < length p" by simp
    from False rest have "parse_length R cr1 (len * 10 + (of_char c - 48)) = Some (len', cr')"
      by simp
    from less.hyps [OF lt at1 this] obtain ds z p' where
      "p1 = ds @ z @ p'" "\<forall>d \<in> set ds. is_digit d" "z \<in> {[], [NUL]}" "at b m p' cr'"
      "len' = foldl (\<lambda>l c. l * 10 + (of_char c - 48)) (len * 10 + (of_char c - 48)) ds"
      by auto
    with p d show ?thesis
      by (intro exI [of _ "c # ds"] exI [of _ z] exI [of _ p']) simp
  qed
qed

lemma scan_any:
  assumes "at b m p cr" and "ContentReader_scan R cr seq = Some (True, cr')" and "seq \<noteq> []"
  shows "\<exists>g p'. p = g @ seq @ p' \<and> at b m p' cr'"
  using assms(1,2)
proof (induction "length p" arbitrary: p cr rule: less_induct)
  case less
  from less.prems(2) obtain cr1 ok cr2 where
    cr1: "ContentReader_buffer R cr (length seq) = Some (True, cr1)"
    and cr2: "ContentReader_match R cr1 seq = Some (ok, cr2)"
    and rest: "if ok then cr' = cr2
        else ContentReader_scan R (cr2\<lparr>cr_buf := tl (cr_buf cr2)\<rparr>) seq = Some (True, cr')"
    by (subst (asm) ContentReader_scan.simps) (auto split: option.splits if_splits)
  note at1 = buffer_any [OF less.prems(1) cr1]
  note at2 = match_any [OF at1 [THEN conjunct1] cr2]
  show ?case
  proof (cases ok)
    case True
    with at2 rest show ?thesis
      by (auto intro: exI [of _ "[]"])
  next
    case False
    from at1 have "length seq \<le> length (cr_buf cr1)" by simp
    with cr2 False assms(3) have "1 \<le> length (cr_buf cr2)"
      by (cases seq) (auto simp: ContentReader_match_def ContentReader_buffer_def Let_def
            split: if_splits)
    moreover from False at2 have at2': "at b m p cr2" by simp
    ultimately have at3: "at b m (drop 1 p) (cr2\<lparr>cr_buf := tl (cr_buf cr2)\<rparr>)" and ne: "p \<noteq> []"
      using at_consume [OF at2', of 1] by (auto simp: drop_Suc reader_at_def)
    from ne have "length (drop 1 p) < length p" by (cases p) auto
    from less.hyps [OF this at3] rest False obtain g p' where "drop 1 p = g @ seq @ p'" "at b m p' cr'"
      by auto
    with ne show ?thesis
      by (intro exI [of _ "hd p # g"] exI [of _ p']) (cases p, auto)
  qed
qed

lemma read_body_any:
  assumes "at b m p cr" and "read_body R cr = Some (out, cr')" and "out \<noteq> []"
  shows "\<exists>ws z1 ds z2 rest. p = ws @ z1 @ ds @ z2 @ CRLF2 @ out @ rest
     \<and> set ws \<subseteq> {CHR '' '', TAB} \<and> z1 \<in> {[], [NUL]} \<and> z2 \<in> {[], [NUL]}
     \<and> (\<forall>d \<in> set ds. is_digit d) \<and> length out = decimal ds mod 2 ^ 64 \<and> at b m rest cr'"
proof -
  from assms(2,3) obtain cr1 len cr2 cr3 cr4 where
    cr1: "skip_blanks R cr = Some cr1" and cr2: "parse_length R cr1 0 = Some (len, cr2)"
    and cr3: "ContentReader_match R cr2 CRLF2 = Some (True, cr3)"
    and cr4: "ContentReader_buffer R cr3 (unat len) = Some (True, cr4)"
    and out: "out = take (unat len) (cr_buf cr4)"
    and cr': "cr' = cr4\<lparr>cr_buf := drop (unat len) (cr_buf cr4)\<rparr>"
    by (auto simp: read_body_def ContentReader_badHeader_def split: option.splits if_splits)
  from skip_blanks_any [OF assms(1) cr1] obtain ws z1 p1 where
    p1: "p = ws @ z1 @ p1" "set ws \<subseteq> {CHR '' '', TAB}" "z1 \<in> {[], [NUL]}" "at b m p1 cr1"
    by blast
  from parse_length_any [OF p1(4) cr2] obtain ds z2 p2 where
    p2: "p1 = ds @ z2 @ p2" "\<forall>d \<in> set ds. is_digit d" "z2 \<in> {[], [NUL]}" "at b m p2 cr2"
    "len = foldl (\<lambda>l c. l * 10 + (of_char c - 48)) 0 ds"
    by blast
  from match_any [OF p2(4) cr3] obtain p3 where p3: "p2 = CRLF2 @ p3" "at b m p3 cr3"
    by auto
  from buffer_any [OF p3(2) cr4] have p4: "at b m p3 cr4" "unat len \<le> length (cr_buf cr4)"
    by auto
  from at_consume [OF p4] out cr' have "out = take (unat len) p3" "at b m (drop (unat len) p3) cr'"
    by auto
  moreover have "unat len \<le> length p3"
    using p4 by (auto simp: reader_at_def)
  moreover have "unat len = decimal ds mod 2 ^ 64"
    using length_loop_value [OF p2(2), of 0] p2(5) by (simp add: decimal_def unat_of_nat)
  ultimately have "p3 = out @ drop (unat len) p3" "length out = decimal ds mod 2 ^ 64"
    by (metis append_take_drop_id, simp)
  with p1 p2 p3 \<open>at b m (drop (unat len) p3) cr'\<close> show ?thesis
    by (intro exI [of _ ws] exI [of _ z1] exI [of _ ds] exI [of _ z2] exI [of _ "drop (unat len) p3"])
       simp
qed

text \<open>
  Whatever \<^verbatim>\<open>read\<close> delivers was framed in the stream: a header name, blanks, a decimal length, an
  empty line, and exactly that many bytes. The two optional NUL bytes come from \<^verbatim>\<open>strchr\<close>.
\<close>

lemma read_sound:
  assumes at: "at b m p cr" and read: "ContentReader_read R cr = Some (out, cr')" and ne: "out \<noteq> []"
  shows "\<exists>g ws z1 ds z2 rest. p = g @ CONTENT_LENGTH @ ws @ z1 @ ds @ z2 @ CRLF2 @ out @ rest
     \<and> set ws \<subseteq> {CHR '' '', TAB} \<and> z1 \<in> {[], [NUL]} \<and> z2 \<in> {[], [NUL]}
     \<and> (\<forall>d \<in> set ds. is_digit d) \<and> length out = decimal ds mod 2 ^ 64
     \<and> (m = kClose \<longrightarrow> g = []) \<and> at b m rest cr'"
proof -
  have mode: "cr_on_invalid_data cr = m"
    using at by (simp add: reader_at_def)
  have "\<exists>g cr1 p1. read_body R cr1 = Some (out, cr') \<and> p = g @ CONTENT_LENGTH @ p1
     \<and> (m = kClose \<longrightarrow> g = []) \<and> at b m p1 cr1"
  proof (cases m)
    case kClose
    with read mode ne obtain cr1 where
      cr1: "ContentReader_match R cr CONTENT_LENGTH = Some (True, cr1)" "read_body R cr1 = Some (out, cr')"
      by (auto simp: ContentReader_read_def ContentReader_badHeader_def split: option.splits if_splits)
    from match_any [OF at cr1(1)] obtain p1 where "p = CONTENT_LENGTH @ p1" "at b m p1 cr1"
      by auto
    with cr1(2) show ?thesis
      by (intro exI [of _ "[]"] exI [of _ cr1] exI [of _ p1]) simp
  next
    case kIgnore
    with read mode ne obtain cr1 where
      cr1: "ContentReader_scan R cr CONTENT_LENGTH = Some (True, cr1)" "read_body R cr1 = Some (out, cr')"
      by (auto simp: ContentReader_read_def split: option.splits if_splits)
    from scan_any [OF at cr1(1)] cr1(2) kIgnore show ?thesis by auto
  qed
  then obtain g cr1 p1 where "read_body R cr1 = Some (out, cr')" "p = g @ CONTENT_LENGTH @ p1"
    "m = kClose \<longrightarrow> g = []" "at b m p1 cr1"
    by blast
  with read_body_any [of b m p1 cr1 out cr'] ne show ?thesis by blast
qed

end

subsection \<open>On a reader that never blocks, \<^verbatim>\<open>read\<close> returns\<close>

context draining_reader
begin

lemma buffer_loop_returns: "invar r \<Longrightarrow> \<exists>x. buffer_loop R n r buf = Some x"
proof (induction n arbitrary: r buf rule: less_induct)
  case (less n)
  show ?case
  proof (cases "n = 0")
    case False
    from read_returns [OF less.prems] obtain got r' where
      r': "r_read R r (min 256 n) = Some (got, r')" by blast
    show ?thesis
    proof (cases "got = []")
      case True
      with r' False have "buffer_loop R n r buf = Some (False, r', buf)"
        by (subst buffer_loop.simps) simp
      then show ?thesis by blast
    next
      case ne: False
      with False have "n - length got < n" by (cases got) auto
      from less.IH [OF this read_invar [OF less.prems r']] obtain x where
        "buffer_loop R (n - length got) r' (buf @ got) = Some x" by blast
      with r' ne False have "buffer_loop R n r buf = Some x" by (subst buffer_loop.simps) simp
      then show ?thesis by blast
    qed
  qed (auto simp: buffer_loop.simps)
qed

lemma buffer_returns: "at b m p cr \<Longrightarrow> \<exists>ok cr'. ContentReader_buffer R cr n = Some (ok, cr')"
proof -
  assume "at b m p cr"
  then obtain r where r: "cr_reader cr = Some r" "invar r" by (auto simp: reader_at_def)
  from buffer_loop_returns [OF r(2)] obtain ok r' buf' where
    "buffer_loop R (n - length (cr_buf cr)) r (cr_buf cr) = Some (ok, r', buf')"
    by (metis prod_cases3)
  with r show ?thesis
    by (auto simp: ContentReader_buffer_def Let_def)
qed

lemma match_returns: "at b m p cr \<Longrightarrow> \<exists>ok cr'. ContentReader_match R cr seq = Some (ok, cr')"
  using buffer_returns [of b m p cr "length seq"] by (auto simp: ContentReader_match_def)

lemma matchAny_returns: "at b m p cr \<Longrightarrow> \<exists>c cr'. ContentReader_matchAny R cr chars = Some (c, cr')"
  using buffer_returns [of b m p cr 1]
  by (auto simp: ContentReader_matchAny_def split: option.splits)

lemma skip_blanks_returns: "at b m p cr \<Longrightarrow> \<exists>cr'. skip_blanks R cr = Some cr'"
proof (induction "length p" arbitrary: p cr rule: less_induct)
  case less
  from matchAny_returns [OF less.prems] obtain c cr1 where
    cr1: "ContentReader_matchAny R cr [CHR '' '', TAB] = Some (c, cr1)" by blast
  from matchAny_any [OF less.prems cr1] obtain p1 where
    p1: "at b m p1 cr1" "c \<noteq> NUL \<Longrightarrow> p = c # p1"
    by metis
  then have "c \<noteq> NUL \<Longrightarrow> \<exists>cr'. skip_blanks R cr1 = Some cr'"
    using less.hyps [OF _ p1(1)] by simp
  with cr1 show ?case
    by (subst skip_blanks.simps) auto
qed

lemma parse_length_returns: "at b m p cr \<Longrightarrow> \<exists>len' cr'. parse_length R cr len = Some (len', cr')"
proof (induction "length p" arbitrary: p cr len rule: less_induct)
  case less
  from matchAny_returns [OF less.prems] obtain c cr1 where
    cr1: "ContentReader_matchAny R cr ''0123456789'' = Some (c, cr1)" by blast
  from matchAny_any [OF less.prems cr1] obtain p1 where
    p1: "at b m p1 cr1" "c \<noteq> NUL \<Longrightarrow> p = c # p1"
    by metis
  then have "c \<noteq> NUL \<Longrightarrow> \<exists>len' cr'. parse_length R cr1 (len * 10 + (of_char c - 48)) = Some (len', cr')"
    using less.hyps [OF _ p1(1)] by simp
  with cr1 show ?case
    by (subst parse_length.simps) auto
qed

lemma scan_returns:
  assumes "at b m p cr" and "seq \<noteq> []"
  shows "\<exists>ok cr'. ContentReader_scan R cr seq = Some (ok, cr')"
  using assms(1)
proof (induction "length p" arbitrary: p cr rule: less_induct)
  case less
  from buffer_returns [OF less.prems] obtain ok cr1 where
    cr1: "ContentReader_buffer R cr (length seq) = Some (ok, cr1)" by blast
  note at1 = buffer_any [OF less.prems cr1]
  from match_returns [OF at1 [THEN conjunct1]] obtain y cr2 where
    cr2: "ContentReader_match R cr1 seq = Some (y, cr2)" by blast
  have "\<exists>ok cr'. ContentReader_scan R (cr2\<lparr>cr_buf := tl (cr_buf cr2)\<rparr>) seq = Some (ok, cr')"
    if "ok" "\<not> y"
  proof -
    from that match_any [OF at1 [THEN conjunct1] cr2] have at2: "at b m p cr2" by simp
    from that at1 cr2 assms(2) have l: "1 \<le> length (cr_buf cr2)"
      by (cases seq) (auto simp: ContentReader_match_def ContentReader_buffer_def Let_def
            split: if_splits)
    from at_consume [OF at2 l] have "at b m (drop 1 p) (cr2\<lparr>cr_buf := tl (cr_buf cr2)\<rparr>)"
      by (simp add: drop_Suc)
    moreover from at2 l have "length (drop 1 p) < length p"
      by (auto simp: reader_at_def)
    ultimately show ?thesis
      by (rule less.hyps [rotated])
  qed
  with cr1 cr2 show ?case
    by (subst ContentReader_scan.simps) auto
qed

lemma read_body_returns: "at b m p cr \<Longrightarrow> \<exists>x. read_body R cr = Some x"
proof -
  assume at: "at b m p cr"
  from skip_blanks_returns [OF at] obtain cr1 where cr1: "skip_blanks R cr = Some cr1" by blast
  from skip_blanks_any [OF at cr1] obtain p1 where at1: "at b m p1 cr1" by blast
  from parse_length_returns [OF at1] obtain len cr2 where
    cr2: "parse_length R cr1 0 = Some (len, cr2)" by blast
  from parse_length_any [OF at1 cr2] obtain p2 where at2: "at b m p2 cr2" by blast
  from match_returns [OF at2] obtain y cr3 where
    cr3: "ContentReader_match R cr2 CRLF2 = Some (y, cr3)" by blast
  from match_any [OF at2 cr3] obtain p3 where at3: "at b m p3 cr3"
    by (auto split: if_splits)
  from buffer_returns [OF at3] obtain ok cr4 where
    "ContentReader_buffer R cr3 (unat len) = Some (ok, cr4)" by blast
  with cr1 cr2 cr3 show ?thesis
    by (simp add: read_body_def)
qed

lemma read_call_returns:
  assumes "at b m p cr"
  shows "\<exists>out cr'. ContentReader_read R cr = Some (out, cr')"
proof (cases m)
  case kClose
  from match_returns [OF assms] obtain y cr1 where
    cr1: "ContentReader_match R cr CONTENT_LENGTH = Some (y, cr1)" by blast
  from match_any [OF assms cr1] read_body_returns have "y \<Longrightarrow> \<exists>x. read_body R cr1 = Some x"
    by auto
  with cr1 assms kClose show ?thesis
    by (cases y) (auto simp: ContentReader_read_def reader_at_def ContentReader_badHeader_def)
next
  case kIgnore
  from scan_returns [OF assms CONTENT_LENGTH_nonempty] obtain y cr1 where
    cr1: "ContentReader_scan R cr CONTENT_LENGTH = Some (y, cr1)" by blast
  have "\<exists>x. read_body R cr1 = Some x" if y
    using scan_any [OF assms _ CONTENT_LENGTH_nonempty, of cr1] cr1 that read_body_returns by auto
  with cr1 assms kIgnore show ?thesis
    by (cases y) (auto simp: ContentReader_read_def reader_at_def)
qed

end

subsection \<open>Reader and writer over one device are a queue of messages\<close>

text \<open>
  \<open>frames_run\<close> interleaves sends through a \<^verbatim>\<open>ContentWriter\<close> and receives through a
  \<^verbatim>\<open>ContentReader\<close> on the same device; \<open>queue_run\<close> is the specification, a queue of messages that
  has no result when a message is received from an empty queue.
\<close>

datatype frame_op = Send bytes | Recv

fun frames_run ::
  "'d Reader \<Rightarrow> 'd Writer \<Rightarrow> 'd ContentReader \<Rightarrow> frame_op list \<Rightarrow> (bytes list \<times> 'd ContentReader) option"
where
  "frames_run R W cr [] = Some ([], cr)"
| "frames_run R W cr (Send m # ops) =
     (case ContentWriter_write W (cr_reader cr) m of
        Some (ok, cw) \<Rightarrow> if ok then frames_run R W (cr\<lparr>cr_reader := cw\<rparr>) ops else None
      | None \<Rightarrow> None)"
| "frames_run R W cr (Recv # ops) =
     (case ContentReader_read R cr of
        None \<Rightarrow> None
      | Some (m, cr') \<Rightarrow>
          (case frames_run R W cr' ops of
             None \<Rightarrow> None
           | Some (ms, cr'') \<Rightarrow> Some (m # ms, cr'')))"

fun queue_run :: "bytes list \<Rightarrow> frame_op list \<Rightarrow> (bytes list \<times> bytes list) option" where
  "queue_run q [] = Some ([], q)"
| "queue_run q (Send m # ops) = queue_run (q @ [m]) ops"
| "queue_run [] (Recv # ops) = None"
| "queue_run (m # q) (Recv # ops) =
     (case queue_run q ops of None \<Rightarrow> None | Some (ms, q') \<Rightarrow> Some (m # ms, q'))"

definition frame :: "bytes \<Rightarrow> bytes" where
  "frame m = header m @ m"

definition message_ok :: "bytes \<Rightarrow> bool" where
  "message_ok m \<longleftrightarrow> m \<noteq> [] \<and> length m < 2 ^ 64"

fun op_ok :: "frame_op \<Rightarrow> bool" where
  "op_ok (Send m) = message_ok m"
| "op_ok Recv = True"

text \<open>The header and the message are two writes; both have to fit the link.\<close>

fun op_fits :: "(bytes \<Rightarrow> bool) \<Rightarrow> frame_op \<Rightarrow> bool" where
  "op_fits fits (Send m) = (fits (header m) \<and> fits m)"
| "op_fits fits Recv = True"

lemma op_fits_all [simp]: "list_all (op_fits (\<lambda>_. True)) ops"
proof (induction ops)
  case (Cons op ops)
  then show ?case by (cases op) simp_all
qed simp

lemma header_split: "header m = CONTENT_LENGTH @ '' '' @ to_string (length m) @ CRLF2"
  by (simp add: header_def CONTENT_LENGTH_def)

lemma header_nonempty [simp]: "header m \<noteq> []"
  by (simp add: header_def)

lemma frame_split:
  "frame m @ rest = CONTENT_LENGTH @ '' '' @ to_string (length m) @ CRLF2 @ m @ rest"
  by (simp add: frame_def header_split)

context byte_reader
begin

lemma read_message:
  assumes "at b md (frame m @ rest) cr" and "message_ok m"
  shows "\<exists>cr'. ContentReader_read R cr = Some (m, cr') \<and> at b md rest cr'"
proof -
  from assms(1) have at: "at b md (CONTENT_LENGTH @ '' '' @ to_string (length m) @ [] @ CRLF2 @ m @ rest) cr"
    by (simp only: frame_split append_Nil)
  show ?thesis
    by (rule read_frame [OF at])
       (use assms(2) to_string_digits [of "length m"] in \<open>auto simp: message_ok_def\<close>)
qed

end

context stream_link
begin

lemma write_message:
  assumes "at True md p cr" and "message_ok m" and "fits (header m)" and "fits m"
  shows "\<exists>d. ContentWriter_write W (cr_reader cr) m = Some (True, Some d)
     \<and> at True md (p @ frame m) (cr\<lparr>cr_reader := Some d\<rparr>)"
proof -
  from assms(1) obtain d where d: "cr_reader cr = Some d" "invar d" "fst (r_isOpen R d)"
    "cr_buf cr @ contents d = p" "cr_on_invalid_data cr = md"
    by (auto simp: reader_at_def)
  from write_open [OF d(2,3), of "header m"] assms(3) obtain d1 where
    d1: "w_write W d (header m) = (True, d1)" "contents d1 = contents d @ header m" "invar d1"
    "fst (r_isOpen R d1)"
    by auto
  from write_open [OF d1(3,4), of m] assms(2,4) obtain d2 where
    d2: "w_write W d1 m = (True, d2)" "contents d2 = contents d1 @ m" "invar d2"
    "fst (r_isOpen R d2)"
    by (auto simp: message_ok_def)
  with d d1 show ?thesis
    by (auto simp: ContentWriter_write_def reader_at_def frame_def)
qed

lemma frames_refine_queue:
  assumes "at True md (concat (map frame q)) cr"
    and "list_all message_ok q" and "list_all op_ok ops" and "list_all (op_fits fits) ops"
    and "queue_run q ops = Some (outs, q')"
  shows "\<exists>cr'. frames_run R W cr ops = Some (outs, cr') \<and> at True md (concat (map frame q')) cr'"
  using assms
proof (induction q ops arbitrary: cr outs rule: queue_run.induct)
  case (1 q)
  then show ?case by simp
next
  case (2 q m ops)
  from write_message [OF "2.prems"(1), of m] "2.prems"(3,4) obtain d where
    d: "ContentWriter_write W (cr_reader cr) m = Some (True, Some d)"
    "at True md (concat (map frame (q @ [m]))) (cr\<lparr>cr_reader := Some d\<rparr>)"
    by auto
  from "2.IH" [OF d(2)] "2.prems" d(1) show ?case
    by auto
next
  case (3 ops)
  then show ?case by simp
next
  case (4 m q ops)
  from "4.prems"(5) obtain ms where ms: "queue_run q ops = Some (ms, q')" "outs = m # ms"
    by (auto split: option.splits)
  from read_message [of True md m "concat (map frame q)" cr] "4.prems" obtain cr1 where
    cr1: "ContentReader_read R cr = Some (m, cr1)" "at True md (concat (map frame q)) cr1"
    by auto
  from "4.IH" [OF cr1(2) _ _ _ ms(1)] "4.prems" cr1(1) ms(2) show ?case
    by auto
qed

end

subsection \<open>Properties\<close>

abbreviation pipe_at :: "bool \<Rightarrow> OnInvalidData \<Rightarrow> bytes \<Rightarrow> Pipe ContentReader \<Rightarrow> bool" where
  "pipe_at \<equiv> reader_at Pipe_Reader pipe_contents (\<lambda>_. True)"

abbreviation sb_at :: "bool \<Rightarrow> OnInvalidData \<Rightarrow> bytes \<Rightarrow> StringBuffer ContentReader \<Rightarrow> bool" where
  "sb_at \<equiv> reader_at StringBuffer_Reader sb_contents sb_inv"

lemma pipe_at_create: "pipe_at True md [] (ContentReader_new Pipe_create md)"
  by (simp add: reader_at_def ContentReader_new_def Pipe_create_def pipe_contents_def io_simps)

lemma sb_at_create: "sb_at True md [] (ContentReader_new StringBuffer_create md)"
  by (simp add: reader_at_def ContentReader_new_def sb_inv_create)
     (simp add: StringBuffer_create_def sb_contents_def io_simps)

text \<open>
  C2. Messages sent through a content writer into a pipe and received by a content reader from the
  same pipe behave as a first-in-first-out queue of messages, for every interleaving of sends and
  receives: each receive returns the oldest message not yet received, byte for byte, no receive
  blocks while a message is queued, and the bytes left in the stream are the frames of the messages
  still queued.
\<close>

theorem pipe_message_queue:
  assumes "list_all op_ok ops" and "queue_run [] ops = Some (outs, q)"
  shows "\<exists>cr. frames_run Pipe_Reader Pipe_Writer (ContentReader_new Pipe_create md) ops = Some (outs, cr)
     \<and> pipe_at True md (concat (map frame q)) cr"
  using pipe.frames_refine_queue [of md "[]", OF _ _ assms(1) _ assms(2)] pipe_at_create by simp

theorem pipe_message_queue_witness:
  "\<exists>cr. frames_run Pipe_Reader Pipe_Writer (ContentReader_new Pipe_create kIgnore)
      [Send ''{}'', Send ''[1]'', Recv, Send ''x'', Recv] = Some ([''{}'', ''[1]''], cr)
    \<and> pipe_at True kIgnore (frame ''x'') cr"
  using pipe_message_queue [of "[Send ''{}'', Send ''[1]'', Recv, Send ''x'', Recv]"
      "[''{}'', ''[1]'']" "[''x'']" kIgnore]
  by (simp add: message_ok_def)

text \<open>
  The same over a \<^verbatim>\<open>StringBuffer\<close>, which delivers the bytes in the chunks they were written in:
  the chunk boundaries never show in the messages.
\<close>

theorem stringbuffer_message_queue:
  assumes "list_all op_ok ops" and "queue_run [] ops = Some (outs, q)"
  shows "\<exists>cr. frames_run StringBuffer_Reader StringBuffer_Writer
          (ContentReader_new StringBuffer_create md) ops = Some (outs, cr)
     \<and> sb_at True md (concat (map frame q)) cr"
  using sb.frames_refine_queue [of md "[]", OF _ _ assms(1) _ assms(2)] sb_at_create by simp

theorem stringbuffer_message_queue_witness:
  "\<exists>cr. frames_run StringBuffer_Reader StringBuffer_Writer
       (ContentReader_new StringBuffer_create kClose) [Send ''{}'', Send ''[1]'', Recv, Recv]
       = Some ([''{}'', ''[1]''], cr)
    \<and> sb_at True kClose [] cr"
  using stringbuffer_message_queue [of "[Send ''{}'', Send ''[1]'', Recv, Recv]"
      "[''{}'', ''[1]'']" "[]" kClose]
  by (simp add: message_ok_def)

text \<open>
  C14. A non-empty message that \<^verbatim>\<open>ContentReader::read\<close> delivers stands in the stream behind a
  \<^verbatim>\<open>Content-Length:\<close> header: blanks, a decimal number whose value modulo the width of \<^verbatim>\<open>size_t\<close> is
  the length of the message, an empty line, and the message; what follows it stays in the stream.
  Only when invalid data is ignored may other bytes precede the header. (After the blanks and after
  the number one NUL byte is tolerated, because \<^verbatim>\<open>strchr\<close> finds the terminator.)
\<close>

theorem read_delivers_only_frames:
  assumes "sb_at b m p cr" and "ContentReader_read StringBuffer_Reader cr = Some (out, cr')" and "out \<noteq> []"
  shows "\<exists>g ws z1 ds z2 rest. p = g @ CONTENT_LENGTH @ ws @ z1 @ ds @ z2 @ CRLF2 @ out @ rest
     \<and> set ws \<subseteq> {CHR '' '', TAB} \<and> z1 \<in> {[], [NUL]} \<and> z2 \<in> {[], [NUL]}
     \<and> (\<forall>d \<in> set ds. is_digit d) \<and> length out = decimal ds mod 2 ^ 64
     \<and> (m = kClose \<longrightarrow> g = []) \<and> sb_at b m rest cr'"
  by (rule sb.read_sound [OF assms])

definition sb_holding :: "bytes \<Rightarrow> StringBuffer" where
  "sb_holding bs = \<lparr>sb_str = bs, sb_chunk_lengths = [length bs], sb_closed = False\<rparr>"

lemma sb_at_holding: "bs \<noteq> [] \<Longrightarrow> sb_at True md bs (ContentReader_new (sb_holding bs) md)"
  by (simp add: reader_at_def ContentReader_new_def sb_holding_def sb_contents_def sb_inv_def io_simps)

theorem read_delivers_only_frames_witness:
  "\<exists>cr' g ws z1 ds z2 rest.
      ContentReader_read StringBuffer_Reader (ContentReader_new (sb_holding (frame ''x'')) kClose)
        = Some (''x'', cr')
      \<and> frame ''x'' = g @ CONTENT_LENGTH @ ws @ z1 @ ds @ z2 @ CRLF2 @ ''x'' @ rest
      \<and> length ''x'' = decimal ds mod 2 ^ 64 \<and> g = [] \<and> sb_at True kClose rest cr'"
proof -
  have at: "sb_at True kClose (frame ''x'' @ []) (ContentReader_new (sb_holding (frame ''x'' @ [])) kClose)"
    by (rule sb_at_holding) (simp add: frame_def)
  from sb.read_message [OF at] obtain cr' where
    "ContentReader_read StringBuffer_Reader (ContentReader_new (sb_holding (frame ''x'' @ [])) kClose)
       = Some (''x'', cr')"
    by (auto simp: message_ok_def)
  from read_delivers_only_frames [OF at this] this show ?thesis
    by simp blast
qed

text \<open>
  C15. On a \<^verbatim>\<open>StringBuffer\<close>, whatever bytes it holds and in either mode, \<^verbatim>\<open>ContentReader::read\<close>
  returns: none of its four loops runs for ever.
\<close>

theorem stringbuffer_read_returns:
  assumes "sb_at b m p cr"
  shows "\<exists>out cr'. ContentReader_read StringBuffer_Reader cr = Some (out, cr')"
  by (rule sb.read_call_returns [OF assms])

theorem stringbuffer_read_returns_witness:
  "\<exists>out cr'. ContentReader_read StringBuffer_Reader (ContentReader_new StringBuffer_create kClose)
     = Some (out, cr')"
  by (rule stringbuffer_read_returns [OF sb_at_create])

text \<open>
  C16. When invalid data is ignored, \<^verbatim>\<open>read\<close> skips any bytes \<open>g\<close> that precede the first
  \<^verbatim>\<open>Content-Length:\<close> and delivers the message behind it, however many blanks follow the colon,
  whatever leading zeros or overflowing digits the length has, and with or without a NUL byte
  \<open>z\<close> after the digits.
\<close>

theorem pipe_read_resynchronises:
  assumes "pipe_at b kIgnore (g @ CONTENT_LENGTH @ ws @ ds @ z @ CRLF2 @ body @ rest) cr"
    and "\<forall>i < length g. take (length CONTENT_LENGTH) (drop i (g @ CONTENT_LENGTH)) \<noteq> CONTENT_LENGTH"
    and "set ws \<subseteq> {CHR '' '', TAB}" and "ds \<noteq> []" and "\<forall>d \<in> set ds. is_digit d"
    and "z \<in> {[], [NUL]}" and "length body = decimal ds mod 2 ^ 64" and "body \<noteq> []"
  shows "\<exists>cr'. ContentReader_read Pipe_Reader cr = Some (body, cr') \<and> pipe_at b kIgnore rest cr'"
  by (rule pipe.read_resync [OF assms])

definition pipe_holding :: "bytes \<Rightarrow> Pipe" where
  "pipe_holding bs = \<lparr>p_data = bs, p_closed = False\<rparr>"

lemma pipe_at_holding: "pipe_at True md bs (ContentReader_new (pipe_holding bs) md)"
  by (simp add: reader_at_def ContentReader_new_def pipe_holding_def pipe_contents_def io_simps)

theorem pipe_read_resynchronises_witness:
  "\<exists>cr'. ContentReader_read Pipe_Reader
      (ContentReader_new (pipe_holding (''CoCo'' @ CONTENT_LENGTH @ ''  '' @ ''18446744073709551617''
         @ [NUL] @ CRLF2 @ ''x'' @ ''rest'')) kIgnore) = Some (''x'', cr') \<and> pipe_at True kIgnore ''rest'' cr'"
proof -
  have "\<forall>i < length ''CoCo''. take (length CONTENT_LENGTH) (drop i (''CoCo'' @ CONTENT_LENGTH))
      \<noteq> CONTENT_LENGTH"
    by (simp add: CONTENT_LENGTH_def less_Suc_eq all_simps)
  then show ?thesis
    by (rule pipe_read_resynchronises [OF pipe_at_holding])
       (simp_all add: is_digit_def decimal_def digit_value_def)
qed

text \<open>
  With \<^verbatim>\<open>kClose\<close>, data that does not start with the header name makes \<^verbatim>\<open>read\<close> return the empty
  string and closes the pipe behind it.
\<close>

theorem pipe_read_closes_on_bad_header:
  assumes "pipe_at b kClose p cr" and "length CONTENT_LENGTH \<le> length p"
    and "take (length CONTENT_LENGTH) p \<noteq> CONTENT_LENGTH"
  shows "\<exists>cr'. ContentReader_read Pipe_Reader cr = Some ([], cr')
     \<and> fst (ContentReader_isOpen Pipe_Reader cr') = False"
  using pipe.read_reject [OF assms] by (auto simp: ContentReader_isOpen_def io_simps)

theorem pipe_read_closes_on_bad_header_witness:
  "\<exists>cr'. ContentReader_read Pipe_Reader
      (ContentReader_new (pipe_holding ''content-length: 2 {}'') kClose) = Some ([], cr')
     \<and> fst (ContentReader_isOpen Pipe_Reader cr') = False"
  by (intro pipe_read_closes_on_bad_header [OF pipe_at_holding]) (simp_all add: CONTENT_LENGTH_def)

text \<open>
  A message of length zero, as \<^verbatim>\<open>ContentWriter::write\<close> frames it, is not consumed completely: its
  blank line stays in the stream. With \<^verbatim>\<open>kClose\<close> the next \<^verbatim>\<open>read\<close> takes that blank line for a bad
  header and closes the pipe although a well-formed frame follows.
\<close>

theorem pipe_empty_message_poisons:
  assumes "pipe_at b kClose (frame [] @ frame m @ rest) cr"
  shows "\<exists>cr1 cr2. ContentReader_read Pipe_Reader cr = Some ([], cr1)
     \<and> pipe_at b kClose (CRLF2 @ frame m @ rest) cr1
     \<and> ContentReader_read Pipe_Reader cr1 = Some ([], cr2)
     \<and> fst (ContentReader_isOpen Pipe_Reader cr2) = False"
proof -
  let ?t = "frame m @ rest"
  from assms have "pipe_at b kClose (CONTENT_LENGTH @ '' '' @ to_string 0 @ [] @ CRLF2 @ ?t) cr"
    by (simp add: frame_split)
  from pipe.read_front [OF this] obtain cr0 where
    cr0: "ContentReader_read Pipe_Reader cr = read_body Pipe_Reader cr0"
    "pipe_at b kClose ('' '' @ to_string 0 @ [] @ CRLF2 @ ?t) cr0"
    by blast
  from pipe.read_body_zero [OF cr0(2)] to_string_digits [of 0] obtain cr1 where
    cr1: "read_body Pipe_Reader cr0 = Some ([], cr1)" "pipe_at b kClose (CRLF2 @ ?t) cr1"
    by auto
  have "take (length CONTENT_LENGTH) (CRLF2 @ ?t) \<noteq> CONTENT_LENGTH"
    by (simp add: CRLF2_def CONTENT_LENGTH_def)
  moreover have "length CONTENT_LENGTH \<le> length (CRLF2 @ ?t)"
    by (simp add: frame_split)
  ultimately obtain cr2 r where "ContentReader_read Pipe_Reader cr1 = Some ([], cr2)"
    "cr_reader cr2 = Some (r_close Pipe_Reader r)"
    using pipe.read_reject [OF cr1(2)] by blast
  with cr0(1) cr1 show ?thesis
    by (auto simp: ContentReader_isOpen_def io_simps)
qed

theorem pipe_empty_message_poisons_witness:
  "\<exists>cr1 cr2. ContentReader_read Pipe_Reader
      (ContentReader_new (pipe_holding (frame [] @ frame ''{}'' @ [])) kClose) = Some ([], cr1)
     \<and> pipe_at True kClose (CRLF2 @ frame ''{}'' @ []) cr1
     \<and> ContentReader_read Pipe_Reader cr1 = Some ([], cr2)
     \<and> fst (ContentReader_isOpen Pipe_Reader cr2) = False"
  by (rule pipe_empty_message_poisons [OF pipe_at_holding])

end
