(* ===== verification/Monitor.thy ===== *)
theory Monitor
  imports Prelude
begin

section \<open>Monitors: a mutex with one condition variable\<close>

text \<open>
  \<^verbatim>\<open>Chan\<close>, \<^verbatim>\<open>Pipe\<close> and \<^verbatim>\<open>promise\<close>/\<^verbatim>\<open>future\<close> are all built the same way: the object's data is guarded by
  a mutex that every method holds from its first to its last statement, and one method waits,
  \<^verbatim>\<open>cv.wait(lock, ready)\<close>, until a predicate of the data holds. A method body is therefore one atomic
  step, and the wait splits the waiting method into attempts. Here is that pattern once:
  \<open>act s e\<close> is a method call \<open>e\<close> that does not wait, giving the new data and whether it calls
  \<^verbatim>\<open>cv.notify_all()\<close>; \<open>body s q\<close> is what the waiting method, called with \<open>q\<close>, does after its wait.
  A thread is \<open>Asleep\<close> inside the wait, and \<open>Awake\<close> when it was notified, or woken spuriously, and
  will test the predicate again once it has the mutex.
\<close>

type_synonym tid = nat

datatype wait_state = Running | Asleep | Awake

definition notify_all :: "(tid \<Rightarrow> wait_state) \<Rightarrow> tid \<Rightarrow> wait_state" where
  "notify_all w = (\<lambda>i. if w i = Asleep then Awake else w i)"

datatype ('e, 'q, 'r) event = Act 'e | Passed tid 'q 'r | Silent

inductive mon_step ::
  "('s \<Rightarrow> bool) \<Rightarrow> ('s \<Rightarrow> 'e \<Rightarrow> 's \<times> bool) \<Rightarrow> ('s \<Rightarrow> 'q \<Rightarrow> 'r \<times> 's)
     \<Rightarrow> 's \<times> (tid \<Rightarrow> wait_state) \<Rightarrow> ('e, 'q, 'r) event \<Rightarrow> 's \<times> (tid \<Rightarrow> wait_state) \<Rightarrow> bool"
  for ready :: "'s \<Rightarrow> bool" and act :: "'s \<Rightarrow> 'e \<Rightarrow> 's \<times> bool" and body :: "'s \<Rightarrow> 'q \<Rightarrow> 'r \<times> 's"
where
  act: "act s e = (t, n) \<Longrightarrow>
    mon_step ready act body (s, w) (Act e) (t, if n then notify_all w else w)"
| pass: "w i \<noteq> Asleep \<Longrightarrow> ready s \<Longrightarrow> body s q = (r, t) \<Longrightarrow>
    mon_step ready act body (s, w) (Passed i q r) (t, w(i := Running))"
| sleep: "w i \<noteq> Asleep \<Longrightarrow> \<not> ready s \<Longrightarrow>
    mon_step ready act body (s, w) Silent (s, w(i := Asleep))"
| spurious: "w i = Asleep \<Longrightarrow>
    mon_step ready act body (s, w) Silent (s, w(i := Awake))"

inductive mon_run ::
  "('s \<Rightarrow> bool) \<Rightarrow> ('s \<Rightarrow> 'e \<Rightarrow> 's \<times> bool) \<Rightarrow> ('s \<Rightarrow> 'q \<Rightarrow> 'r \<times> 's)
     \<Rightarrow> 's \<times> (tid \<Rightarrow> wait_state) \<Rightarrow> ('e, 'q, 'r) event list \<Rightarrow> 's \<times> (tid \<Rightarrow> wait_state) \<Rightarrow> bool"
  for ready :: "'s \<Rightarrow> bool" and act :: "'s \<Rightarrow> 'e \<Rightarrow> 's \<times> bool" and body :: "'s \<Rightarrow> 'q \<Rightarrow> 'r \<times> 's"
where
  nil: "mon_run ready act body s [] s"
| step: "mon_run ready act body s es t \<Longrightarrow> mon_step ready act body t e u \<Longrightarrow>
    mon_run ready act body s (es @ [e]) u"

inductive_cases mon_step_ActE: "mon_step ready act body s (Act e) t"
inductive_cases mon_step_PassedE: "mon_step ready act body s (Passed i q r) t"

lemma notify_all_not_asleep [simp]: "notify_all w i \<noteq> Asleep"
  by (simp add: notify_all_def)

lemma mon_step_notify:
  "act s e = (t, True) \<Longrightarrow> mon_step ready act body (s, w) (Act e) (t, notify_all w)"
  using mon_step.act [of act s e t True ready body w] by simp

text \<open>A run whose first event is known.\<close>

lemma mon_run_Cons:
  assumes "mon_run ready act body t es u" and "mon_step ready act body s e t"
  shows "mon_run ready act body s (e # es) u"
  using assms
proof (induction rule: mon_run.induct)
  case (nil t)
  then show ?case using mon_run.step [OF mon_run.nil] by fastforce
next
  case (step t es u e' v)
  then show ?case using mon_run.step by fastforce
qed

subsection \<open>The contract\<close>

text \<open>Whoever makes the predicate true notifies.\<close>

locale monitor =
  fixes ready :: "'s \<Rightarrow> bool"
    and act :: "'s \<Rightarrow> 'e \<Rightarrow> 's \<times> bool"
    and body :: "'s \<Rightarrow> 'q \<Rightarrow> 'r \<times> 's"
  assumes act_notifies: "\<not> ready s \<Longrightarrow> act s e = (t, n) \<Longrightarrow> ready t \<Longrightarrow> n"
begin

lemma step_awake:
  assumes "mon_step ready act body s e t" and "ready (fst s) \<longrightarrow> (\<forall>i. snd s i \<noteq> Asleep)"
  shows "ready (fst t) \<longrightarrow> (\<forall>i. snd t i \<noteq> Asleep)"
  using assms
proof (induction rule: mon_step.induct)
  case (act s e t n w)
  then show ?case using act_notifies [of s e t n] by auto
qed auto

lemma run_awake:
  assumes "mon_run ready act body s es t" and "ready (fst s) \<longrightarrow> (\<forall>i. snd s i \<noteq> Asleep)"
  shows "ready (fst t) \<longrightarrow> (\<forall>i. snd t i \<noteq> Asleep)"
  using assms
proof (induction rule: mon_run.induct)
  case (step s es t e u)
  then show ?case using step_awake [OF step.hyps(2)] by simp
qed

text \<open>While the predicate holds nobody is asleep, and every thread that waits can pass.\<close>

lemma no_lost_wakeup:
  assumes "mon_run ready act body (s, \<lambda>_. Running) es (t, w)" and "ready t"
  shows "w i \<noteq> Asleep \<and> (\<exists>r u. mon_step ready act body (t, w) (Passed i q r) u)"
proof -
  from run_awake [OF assms(1)] assms(2) have "w i \<noteq> Asleep" by simp
  moreover obtain r u where "body t q = (r, u)" by fastforce
  ultimately show ?thesis
    using mon_step.pass [of w i ready t body q r u act] assms(2) by blast
qed

end

text \<open>A history invariant: what every call adds to two logs relates the data before and after.\<close>

lemma mon_run_history:
  assumes run: "mon_run ready act body s es t"
    and act: "\<And>s e t n. act s e = (t, n) \<Longrightarrow> ok (Act e) \<Longrightarrow> P s (Act e) t"
    and body: "\<And>s i q r t. ready s \<Longrightarrow> body s q = (r, t) \<Longrightarrow> ok (Passed i q r) \<Longrightarrow> P s (Passed i q r) t"
    and quiet: "\<And>s. ok Silent \<Longrightarrow> P s Silent s"
    and lift: "\<And>e es s t u. ok e \<Longrightarrow> Q s es t \<Longrightarrow> P t e u \<Longrightarrow> Q s (es @ [e]) u"
    and base: "Q (fst s) [] (fst s)"
    and all_ok: "list_all ok es"
  shows "Q (fst s) es (fst t)"
  using run base all_ok
proof (induction rule: mon_run.induct)
  case (step s es t e u)
  then have Q: "Q (fst s) es (fst t)" and e: "ok e" by auto
  from step.hyps(2) e have "P (fst t) e (fst u)"
    by (induction rule: mon_step.induct) (auto intro: act body quiet)
  with Q e show ?case by (auto intro: lift)
qed simp

end
