(* ===== verification/PipeSync.thy ===== *)
theory PipeSync
  imports IO Monitor
begin

section \<open>Pipes between threads: \<^verbatim>\<open>src/io.cpp\<close>\<close>

text \<open>
  The pipe as a monitor: \<^verbatim>\<open>read\<close> waits until the pipe is closed or holds data and then runs one turn
  of its loop, \<open>Pipe_read_turn\<close>, called with the number of bytes wanted and the bytes copied so far;
  \<^verbatim>\<open>write\<close> notifies only when the pipe was empty, \<^verbatim>\<open>close\<close> always.
\<close>

definition Pipe_read_ready :: "Pipe \<Rightarrow> bool" where
  "Pipe_read_ready p \<longleftrightarrow> p_closed p \<or> length (p_data p) > 0"

definition Pipe_write_notifies :: "Pipe \<Rightarrow> bytes \<Rightarrow> bool" where
  "Pipe_write_notifies p buffer \<longleftrightarrow>
     \<not> p_closed p \<and> length buffer \<noteq> 0 \<and> length (p_data p) = 0"

datatype pipe_call = PipeWrite bytes | PipeClose

fun pipe_act :: "Pipe \<Rightarrow> pipe_call \<Rightarrow> Pipe \<times> bool" where
  "pipe_act p (PipeWrite bs) = (snd (Pipe_write p bs), Pipe_write_notifies p bs)"
| "pipe_act p PipeClose = (Pipe_close p, True)"

definition pipe_turn :: "Pipe \<Rightarrow> nat \<times> bytes \<Rightarrow> pipe_wait \<times> Pipe" where
  "pipe_turn p q = Pipe_read_turn p (fst q) (snd q)"

abbreviation pipe_step where
  "pipe_step \<equiv> mon_step Pipe_read_ready pipe_act pipe_turn"

abbreviation pipe_run where
  "pipe_run \<equiv> mon_run Pipe_read_ready pipe_act pipe_turn"

interpretation pipe_mon: monitor Pipe_read_ready pipe_act pipe_turn
proof
  fix s e t n
  assume "\<not> Pipe_read_ready s" and "pipe_act s e = (t, n)" and "Pipe_read_ready t"
  then show n
    by (cases e) (auto simp: Pipe_read_ready_def Pipe_write_notifies_def Pipe_write_def split: if_splits)
qed

text \<open>The bytes written into the pipe, and the bytes the turns of the readers copied out of it.\<close>

fun wait_bytes :: "pipe_wait \<Rightarrow> bytes" where
  "wait_bytes (Returned out) = out"
| "wait_bytes (Waiting out) = out"

type_synonym pipe_event = "(pipe_call, nat \<times> bytes, pipe_wait) event"

fun pipe_written :: "pipe_event list \<Rightarrow> bytes" where
  "pipe_written [] = []"
| "pipe_written (Act (PipeWrite bs) # es) = bs @ pipe_written es"
| "pipe_written (_ # es) = pipe_written es"

fun pipe_copied :: "pipe_event list \<Rightarrow> bytes" where
  "pipe_copied [] = []"
| "pipe_copied (Passed i q r # es) = drop (length (snd q)) (wait_bytes r) @ pipe_copied es"
| "pipe_copied (_ # es) = pipe_copied es"

lemma pipe_written_append [simp]: "pipe_written (es @ fs) = pipe_written es @ pipe_written fs"
  by (induction es rule: pipe_written.induct) auto

lemma pipe_copied_append [simp]: "pipe_copied (es @ fs) = pipe_copied es @ pipe_copied fs"
  by (induction es rule: pipe_copied.induct) auto

lemma Pipe_read_turn_copies:
  assumes "Pipe_read_turn p n out = (r, p')"
  shows "p_data p = drop (length out) (wait_bytes r) @ p_data p' \<and> p_closed p' = p_closed p
     \<and> take (length out) (wait_bytes r) = out"
  using assms by (auto simp: Pipe_read_turn_def Let_def split: if_splits)

lemma pipe_run_bytes:
  assumes "pipe_run s es t" and "Act PipeClose \<notin> set es"
  shows "\<not> p_closed (fst s) \<longrightarrow>
     p_data (fst s) @ pipe_written es = pipe_copied es @ p_data (fst t) \<and> \<not> p_closed (fst t)"
proof (rule mon_run_history [OF assms(1),
      where P = "\<lambda>s e t. \<not> p_closed s \<longrightarrow>
          p_data s @ pipe_written [e] = pipe_copied [e] @ p_data t \<and> \<not> p_closed t"
        and Q = "\<lambda>s es t. \<not> p_closed s \<longrightarrow>
          p_data s @ pipe_written es = pipe_copied es @ p_data t \<and> \<not> p_closed t"
        and ok = "\<lambda>e. e \<noteq> Act PipeClose"], goal_cases)
  case (1 s e t n)
  then show ?case by (cases e) (auto simp: Pipe_write_def split: if_splits)
next
  case (2 s i q r t)
  then show ?case using Pipe_read_turn_copies [of s "fst q" "snd q" r t] by (auto simp: pipe_turn_def)
next
  case (4 e es s t u)
  then show ?case by (metis append_assoc pipe_copied_append pipe_written_append)
next
  case 6
  then show ?case using assms(2) by (auto simp: list_all_iff)
qed simp_all

subsection \<open>One read across many writes\<close>

text \<open>
  A call of \<^verbatim>\<open>read\<close> for \<open>n\<close> bytes that has copied \<open>out\<close>, with the writes \<open>ws\<close> arriving one after the
  other while it waits; the writes that come after it has returned stay in the pipe.
\<close>

fun Pipe_read_across :: "Pipe \<Rightarrow> nat \<Rightarrow> bytes \<Rightarrow> bytes list \<Rightarrow> pipe_wait \<times> Pipe" where
  "Pipe_read_across p n out [] = Pipe_read_turn p n out"
| "Pipe_read_across p n out (b # ws) =
     (case Pipe_read_turn p n out of
        (Returned out', p') \<Rightarrow> (Returned out', fold (\<lambda>b p. snd (Pipe_write p b)) (b # ws) p')
      | (Waiting out', p') \<Rightarrow> Pipe_read_across (snd (Pipe_write p' b)) n out' ws)"

lemma Pipe_write_data: "\<not> p_closed p \<Longrightarrow> snd (Pipe_write p b) = p\<lparr>p_data := p_data p @ b\<rparr>"
  by (simp add: Pipe_write_def)

lemma fold_Pipe_write: "\<not> p_closed p \<Longrightarrow>
    fold (\<lambda>b p. snd (Pipe_write p b)) ws p = p\<lparr>p_data := p_data p @ concat ws\<rparr>"
  by (induction ws arbitrary: p) (simp_all add: Pipe_write_data)

lemma Pipe_read_across_enough:
  assumes "\<not> p_closed p" and "length out < n" and "n \<le> length (out @ p_data p @ concat ws)"
  shows "Pipe_read_across p n out ws
     = (Returned (take n (out @ p_data p @ concat ws)),
        p\<lparr>p_data := drop n (out @ p_data p @ concat ws)\<rparr>)"
  using assms
proof (induction p n out ws rule: Pipe_read_across.induct)
  case (1 p n out)
  then show ?case by (auto simp: Pipe_read_turn_def Let_def min_def)
next
  case (2 p n out b ws)
  show ?case
  proof (cases "n \<le> length (out @ p_data p)")
    case True
    with "2.prems" have "Pipe_read_turn p n out
        = (Returned (out @ take (n - length out) (p_data p)),
           p\<lparr>p_data := drop (n - length out) (p_data p)\<rparr>)"
      by (auto simp: Pipe_read_turn_def Let_def min_def)
    with True "2.prems" show ?thesis
      by (simp add: fold_Pipe_write Pipe_write_data)
  next
    case False
    with "2.prems" have turn: "Pipe_read_turn p n out = (Waiting (out @ p_data p), p\<lparr>p_data := []\<rparr>)"
      by (auto simp: Pipe_read_turn_def Let_def min_def)
    from False "2.IH" [OF turn [symmetric] refl] "2.prems" turn
    show ?thesis by (simp add: Pipe_write_data)
  qed
qed

subsection \<open>Properties\<close>

text \<open>
  Pipes lose no wake-up: in every reachable state with any number of reading and writing threads,
  while the pipe holds data or is closed no reader sleeps in its wait and every reader can run its
  next turn, although \<^verbatim>\<open>write\<close> notifies only when the pipe was empty.
\<close>

theorem pipe_no_lost_wakeup:
  assumes "pipe_run (Pipe_create, \<lambda>_. Running) es (p, w)" and "Pipe_read_ready p"
  shows "w i \<noteq> Asleep \<and> (\<exists>r u. pipe_step (p, w) (Passed i (n, out) r) u)"
  by (rule pipe_mon.no_lost_wakeup [OF assms])

lemma pipe_example_run:
  "pipe_run (Pipe_create, \<lambda>_. Running) [Silent, Act (PipeWrite ''ab'')]
     (\<lparr>p_data = ''ab'', p_closed = False\<rparr>, notify_all ((\<lambda>_. Running)(1 := Asleep)))"
proof (intro mon_run_Cons [OF mon_run_Cons [OF mon_run.nil]])
  show "pipe_step (Pipe_create, \<lambda>_. Running) Silent (Pipe_create, (\<lambda>_. Running)(1 := Asleep))"
    by (rule mon_step.sleep) (simp_all add: Pipe_read_ready_def Pipe_create_def)
  show "pipe_step (Pipe_create, (\<lambda>_. Running)(1 := Asleep)) (Act (PipeWrite ''ab''))
     (\<lparr>p_data = ''ab'', p_closed = False\<rparr>, notify_all ((\<lambda>_. Running)(1 := Asleep)))"
    by (rule mon_step_notify) (simp add: Pipe_create_def Pipe_write_def Pipe_write_notifies_def)
qed

theorem pipe_no_lost_wakeup_witness:
  "\<exists>r u. pipe_step (\<lparr>p_data = ''ab'', p_closed = False\<rparr>, notify_all ((\<lambda>_. Running)(1 := Asleep)))
      (Passed 1 (4, []) r) u"
  using pipe_no_lost_wakeup [OF pipe_example_run, of 1 4 "[]"] by (simp add: Pipe_read_ready_def)

text \<open>
  C23. Until it is closed a pipe neither loses nor reorders bytes: under every interleaving of writes
  and of turns of readers, the bytes written are the bytes copied out, in that order, followed by
  the bytes still buffered.
\<close>

theorem pipe_bytes_fifo:
  assumes "pipe_run (Pipe_create, \<lambda>_. Running) es (p, w)" and "Act PipeClose \<notin> set es"
  shows "pipe_written es = pipe_copied es @ p_data p"
  using pipe_run_bytes [OF assms] by (simp add: Pipe_create_def)

theorem pipe_bytes_fifo_witness:
  "pipe_written [Silent, Act (PipeWrite ''ab'')] = pipe_copied [Silent, Act (PipeWrite ''ab'')] @ ''ab''"
  using pipe_bytes_fifo [OF pipe_example_run] by simp

text \<open>
  A \<^verbatim>\<open>read\<close> of \<open>n\<close> bytes from an open pipe returns exactly the first \<open>n\<close> bytes of the stream,
  however they are cut into writes that arrive while it waits, provided enough of them arrive; the
  rest stays in the pipe.
\<close>

theorem pipe_read_across_writes:
  assumes "\<not> p_closed p" and "0 < n" and "n \<le> length (p_data p @ concat ws)"
  shows "Pipe_read_across p n [] ws
     = (Returned (take n (p_data p @ concat ws)), p\<lparr>p_data := drop n (p_data p @ concat ws)\<rparr>)"
  using Pipe_read_across_enough [of p "[]" n ws] assms by simp

theorem pipe_read_across_writes_witness:
  "Pipe_read_across Pipe_create 3 [] [''a'', '''', ''bcd'', ''e'']
     = (Returned ''abc'', \<lparr>p_data = ''de'', p_closed = False\<rparr>)"
  using pipe_read_across_writes [of Pipe_create 3 "[''a'', '''', ''bcd'', ''e'']"]
  by (simp add: Pipe_create_def)

end
