(* ===== verification/Channel.thy ===== *)
theory Channel
  imports Monitor
begin

section \<open>Channels: \<^verbatim>\<open>src/chan.h\<close>\<close>

text \<open>
  A channel is a queue and a flag guarded by a mutex, with \<open>take\<close> waiting on the condition variable
  for an element or the end of the channel: an instance of the monitor pattern.
\<close>

record 'a Chan =
  ch_closed :: bool
  ch_queue :: "'a list"

definition Chan_new :: "'a Chan" where
  "Chan_new = \<lparr>ch_closed = False, ch_queue = []\<rparr>"

definition Chan_reset :: "'a Chan \<Rightarrow> 'a Chan" where
  "Chan_reset c = c\<lparr>ch_queue := [], ch_closed := False\<rparr>"

text \<open>The methods that may notify return whether they do.\<close>

definition Chan_close :: "'a Chan \<Rightarrow> 'a Chan \<times> bool" where
  "Chan_close c = (c\<lparr>ch_closed := True\<rparr>, True)"

definition Chan_put :: "'a Chan \<Rightarrow> 'a \<Rightarrow> 'a Chan \<times> bool" where
  "Chan_put c x =
     (let notify = length (ch_queue c) = 0 \<and> \<not> ch_closed c
      in (c\<lparr>ch_queue := ch_queue c @ [x]\<rparr>, notify))"

text \<open>The predicate \<open>take\<close> waits for, and what it does once the wait is over.\<close>

definition Chan_take_ready :: "'a Chan \<Rightarrow> bool" where
  "Chan_take_ready c \<longleftrightarrow> length (ch_queue c) > 0 \<or> ch_closed c"

definition Chan_take :: "'a Chan \<Rightarrow> 'a option \<times> 'a Chan" where
  "Chan_take c =
     (if length (ch_queue c) = 0 then (None, c)
      else (Some (hd (ch_queue c)), c\<lparr>ch_queue := tl (ch_queue c)\<rparr>))"

lemmas chan_defs = Chan_new_def Chan_reset_def Chan_close_def Chan_put_def Chan_take_ready_def
  Chan_take_def Let_def

datatype 'a chan_call = Put 'a | Close | Reset

fun chan_act :: "'a Chan \<Rightarrow> 'a chan_call \<Rightarrow> 'a Chan \<times> bool" where
  "chan_act c (Put x) = Chan_put c x"
| "chan_act c Close = Chan_close c"
| "chan_act c Reset = (Chan_reset c, False)"

definition chan_body :: "'a Chan \<Rightarrow> unit \<Rightarrow> 'a option \<times> 'a Chan" where
  "chan_body c q = Chan_take c"

abbreviation chan_step where
  "chan_step \<equiv> mon_step Chan_take_ready chan_act chan_body"

abbreviation chan_run where
  "chan_run \<equiv> mon_run Chan_take_ready chan_act chan_body"

interpretation chan: monitor Chan_take_ready chan_act chan_body
proof
  fix s :: "'a Chan" and e t n
  assume "\<not> Chan_take_ready s" and "chan_act s e = (t, n)" and "Chan_take_ready t"
  then show n by (cases e) (auto simp: chan_defs)
qed

subsection \<open>First in, first out\<close>

text \<open>The values put into and taken out of the channel by a run.\<close>

fun chan_puts :: "('a chan_call, unit, 'a option) event list \<Rightarrow> 'a list" where
  "chan_puts [] = []"
| "chan_puts (Act (Put x) # es) = x # chan_puts es"
| "chan_puts (_ # es) = chan_puts es"

fun chan_takes :: "('a chan_call, unit, 'a option) event list \<Rightarrow> 'a list" where
  "chan_takes [] = []"
| "chan_takes (Passed i q (Some x) # es) = x # chan_takes es"
| "chan_takes (_ # es) = chan_takes es"

lemma chan_puts_append [simp]: "chan_puts (es @ fs) = chan_puts es @ chan_puts fs"
  by (induction es rule: chan_puts.induct) auto

lemma chan_takes_append [simp]: "chan_takes (es @ fs) = chan_takes es @ chan_takes fs"
  by (induction es rule: chan_takes.induct) auto

lemma chan_act_queue:
  "chan_act c e = (d, n) \<Longrightarrow> e \<noteq> Reset \<Longrightarrow> ch_queue c @ chan_puts [Act e] = ch_queue d"
  by (cases e) (auto simp: chan_defs)

lemma chan_body_queue:
  "chan_body c q = (r, d) \<Longrightarrow> ch_queue c = chan_takes [Passed i q r] @ ch_queue d"
  by (auto simp: chan_body_def chan_defs split: if_splits)

lemma chan_run_queue:
  assumes "chan_run s es t" and "Act Reset \<notin> set es"
  shows "ch_queue (fst s) @ chan_puts es = chan_takes es @ ch_queue (fst t)"
proof (rule mon_run_history [OF assms(1),
      where P = "\<lambda>s e t. ch_queue s @ chan_puts [e] = chan_takes [e] @ ch_queue t"
        and Q = "\<lambda>s es t. ch_queue s @ chan_puts es = chan_takes es @ ch_queue t"
        and ok = "\<lambda>e. e \<noteq> Act Reset"], goal_cases)
  case (1 s e t n)
  then show ?case using chan_act_queue [of s e t n] by simp
next
  case (2 s i q r t)
  then show ?case using chan_body_queue [of s q r t i] by simp
next
  case (4 e es s t u)
  then show ?case by (metis append_assoc chan_puts_append chan_takes_append)
next
  case 6
  then show ?case using assms(2) by (auto simp: list_all_iff)
qed simp_all

subsection \<open>Properties\<close>

text \<open>
  C20. In every reachable state of a channel shared by any number of threads, a thread blocked in
  \<^verbatim>\<open>take\<close>'s wait has nothing to wake up for: while an element is queued or the channel is closed,
  no thread is asleep, and every thread that waits can return at once. So \<^verbatim>\<open>put\<close>'s optimisation of
  notifying only when the queue was empty and open loses no wake-up.
\<close>

theorem chan_no_lost_wakeup:
  assumes "chan_run (Chan_new, \<lambda>_. Running) es (c, w)" and "Chan_take_ready c"
  shows "w i \<noteq> Asleep \<and> (\<exists>r u. chan_step (c, w) (Passed i () r) u)"
  by (rule chan.no_lost_wakeup [OF assms])

lemma chan_example_run:
  "chan_run (Chan_new, \<lambda>_. Running) [Silent, Act (Put (7::nat))]
     (\<lparr>ch_closed = False, ch_queue = [7]\<rparr>, notify_all ((\<lambda>_. Running)(1 := Asleep)))"
proof (intro mon_run_Cons [OF mon_run_Cons [OF mon_run.nil]])
  show "chan_step (Chan_new, \<lambda>_. Running) Silent (Chan_new, (\<lambda>_. Running)(1 := Asleep))"
    by (rule mon_step.sleep) (simp_all add: chan_defs)
  show "chan_step (Chan_new, (\<lambda>_. Running)(1 := Asleep)) (Act (Put (7::nat)))
     (\<lparr>ch_closed = False, ch_queue = [7]\<rparr>, notify_all ((\<lambda>_. Running)(1 := Asleep)))"
    by (rule mon_step_notify) (simp add: chan_defs)
qed

theorem chan_no_lost_wakeup_witness:
  "notify_all ((\<lambda>_. Running)(1 := Asleep)) 1 \<noteq> Asleep
   \<and> (\<exists>r u. chan_step (\<lparr>ch_closed = False, ch_queue = [7::nat]\<rparr>, notify_all ((\<lambda>_. Running)(1 := Asleep)))
        (Passed 1 () r) u)"
  by (rule chan_no_lost_wakeup [OF chan_example_run]) (simp add: chan_defs)

text \<open>
  C21. Channels are first-in-first-out under every interleaving of threads: as long as the channel is
  not reset, the values put are the values taken so far, in the order they were taken, followed by
  the values still queued. Nothing is lost, duplicated or reordered, whether or not the channel is
  closed meanwhile.
\<close>

theorem chan_fifo:
  assumes "chan_run (Chan_new, \<lambda>_. Running) es (c, w)" and "Act Reset \<notin> set es"
  shows "chan_puts es = chan_takes es @ ch_queue c"
  using chan_run_queue [OF assms] by (simp add: Chan_new_def)

theorem chan_fifo_witness:
  "chan_puts [Silent, Act (Put 7)] = chan_takes [Silent, Act (Put 7)] @ [7 :: nat]"
  using chan_fifo [OF chan_example_run] by simp

text \<open>
  \<^verbatim>\<open>take\<close> returns no value only when the channel is closed and drained: elements queued before
  or after \<^verbatim>\<open>close\<close> are still delivered.
\<close>

theorem chan_take_none:
  assumes "chan_step (c, w) (Passed i () None) (d, w')"
  shows "ch_closed c \<and> ch_queue c = [] \<and> d = c"
  using assms by (rule mon_step_PassedE) (auto simp: chan_body_def chan_defs split: if_splits)

theorem chan_take_none_witness:
  "\<exists>c :: nat Chan. chan_step (c, \<lambda>_. Running) (Passed 0 () None) (c, (\<lambda>_. Running)(0 := Running))
     \<and> ch_closed c \<and> ch_queue c = []"
proof -
  let ?c = "\<lparr>ch_closed = True, ch_queue = []\<rparr> :: nat Chan"
  have "chan_step (?c, \<lambda>_. Running) (Passed 0 () None) (?c, (\<lambda>_. Running)(0 := Running))"
    by (rule mon_step.pass) (simp_all add: chan_body_def chan_defs)
  with chan_take_none [OF this] show ?thesis by blast
qed

end
