(* ===== verification/Future.thy ===== *)
theory Future
  imports Monitor
begin

section \<open>Promises and futures: \<^verbatim>\<open>include/dap/future.h\<close>\<close>

text \<open>
  The state shared by a promise and its futures is a value and a flag, guarded by a mutex, with
  \<open>get\<close>, \<open>wait\<close>, \<open>wait_for\<close> and \<open>wait_until\<close> waiting for the flag: an instance of the monitor
  pattern. \<open>val\<close> exists, default constructed, before it is set.
\<close>

record 'a promise_state =
  ps_val :: 'a
  ps_hasVal :: bool

definition promise_new :: "'a \<Rightarrow> 'a promise_state" where
  "promise_new dflt = \<lparr>ps_val = dflt, ps_hasVal = False\<rparr>"

definition promise_set_value :: "'a promise_state \<Rightarrow> 'a \<Rightarrow> 'a promise_state \<times> bool" where
  "promise_set_value p x = (p\<lparr>ps_val := x, ps_hasVal := True\<rparr>, True)"

text \<open>\<open>get\<close> copies the value out; it stays in the state.\<close>

definition future_get :: "'a promise_state \<Rightarrow> unit \<Rightarrow> 'a \<times> 'a promise_state" where
  "future_get p q = (ps_val p, p)"

datatype future_status = ready_status | timeout_status

text \<open>
  \<^verbatim>\<open>cv.wait_for\<close> with a predicate returns the predicate's value when it stops waiting, be it because of
  a notification or because the time is over.
\<close>

definition future_wait_for :: "'a promise_state \<Rightarrow> future_status" where
  "future_wait_for p = (if ps_hasVal p then ready_status else timeout_status)"

abbreviation future_step where
  "future_step \<equiv> mon_step ps_hasVal promise_set_value future_get"

abbreviation future_run where
  "future_run \<equiv> mon_run ps_hasVal promise_set_value future_get"

interpretation future: monitor ps_hasVal promise_set_value future_get
  by unfold_locales (simp add: promise_set_value_def)

fun sets :: "('a, unit, 'a) event list \<Rightarrow> 'a list" where
  "sets [] = []"
| "sets (Act x # es) = x # sets es"
| "sets (_ # es) = sets es"

lemma sets_append [simp]: "sets (es @ fs) = sets es @ sets fs"
  by (induction es rule: sets.induct) auto

definition promise_log :: "'a \<Rightarrow> 'a list \<Rightarrow> 'a promise_state" where
  "promise_log dflt xs = (if xs = [] then promise_new dflt else \<lparr>ps_val = last xs, ps_hasVal = True\<rparr>)"

lemma future_run_log:
  assumes "future_run (promise_new dflt, w0) es (p, w)"
  shows "p = promise_log dflt (sets es)"
proof -
  have "fst (promise_new dflt, w0) = promise_new dflt \<longrightarrow> fst (p, w) = promise_log dflt (sets es)"
  proof (rule mon_run_history [OF assms,
        where P = "\<lambda>s e t. t = (case e of Act x \<Rightarrow> \<lparr>ps_val = x, ps_hasVal = True\<rparr> | _ \<Rightarrow> s)"
          and Q = "\<lambda>s es t. s = promise_new dflt \<longrightarrow> t = promise_log dflt (sets es)"
          and ok = "\<lambda>_. True"], goal_cases)
    case (4 e es s t u)
    then show ?case by (cases e) (auto simp: promise_log_def)
  qed (simp_all add: promise_set_value_def future_get_def promise_log_def list_all_iff)
  then show ?thesis by simp
qed

subsection \<open>Properties\<close>

text \<open>
  Once a value has been set, no thread stays blocked in a future: nobody is asleep, every thread
  can return from \<^verbatim>\<open>get\<close> at once, and \<^verbatim>\<open>wait_for\<close> and \<^verbatim>\<open>wait_until\<close> report that the future is ready.
\<close>

theorem future_no_lost_wakeup:
  assumes "future_run (promise_new dflt, \<lambda>_. Running) es (p, w)" and "sets es \<noteq> []"
  shows "w i \<noteq> Asleep \<and> (\<exists>r u. future_step (p, w) (Passed i () r) u) \<and> future_wait_for p = ready_status"
proof -
  from future_run_log [OF assms(1)] assms(2) have "ps_hasVal p"
    by (simp add: promise_log_def)
  with future.no_lost_wakeup [OF assms(1), of i "()"] show ?thesis
    by (simp add: future_wait_for_def)
qed

lemma future_example_run:
  "future_run (promise_new 0, \<lambda>_. Running) [Silent, Act (5::nat)]
     (\<lparr>ps_val = 5, ps_hasVal = True\<rparr>, notify_all ((\<lambda>_. Running)(1 := Asleep)))"
proof (intro mon_run_Cons [OF mon_run_Cons [OF mon_run.nil]])
  show "future_step (promise_new 0, \<lambda>_. Running) Silent (promise_new (0::nat), (\<lambda>_. Running)(1 := Asleep))"
    by (rule mon_step.sleep) (simp_all add: promise_new_def)
  show "future_step (promise_new 0, (\<lambda>_. Running)(1 := Asleep)) (Act (5::nat))
     (\<lparr>ps_val = 5, ps_hasVal = True\<rparr>, notify_all ((\<lambda>_. Running)(1 := Asleep)))"
    by (rule mon_step_notify) (simp add: promise_set_value_def promise_new_def)
qed

theorem future_no_lost_wakeup_witness:
  "\<exists>r u. future_step (\<lparr>ps_val = 5 :: nat, ps_hasVal = True\<rparr>, notify_all ((\<lambda>_. Running)(1 := Asleep)))
     (Passed 1 () r) u"
  using future_no_lost_wakeup [OF future_example_run, of 1] by simp

text \<open>
  C22. \<^verbatim>\<open>get\<close> returns only after a value was set, and it returns the value set last; with the one
  \<^verbatim>\<open>set_value\<close> the class allows, every \<^verbatim>\<open>get\<close> on every future of the promise returns that value.
\<close>

theorem future_get_returns_set_value:
  assumes "future_run (promise_new dflt, \<lambda>_. Running) es (p, w)"
    and "future_step (p, w) (Passed i () r) u"
  shows "sets es \<noteq> [] \<and> r = last (sets es)"
  using assms(2) future_run_log [OF assms(1)]
  by (auto simp: future_get_def promise_log_def promise_new_def elim!: mon_step_PassedE split: if_splits)

theorem future_get_returns_set_value_witness:
  "sets [Silent, Act (5::nat)] \<noteq> [] \<and> 5 = last (sets [Silent, Act (5::nat)])"
proof -
  let ?w = "notify_all ((\<lambda>_. Running)(1 := Asleep))"
  have "future_step (\<lparr>ps_val = 5 :: nat, ps_hasVal = True\<rparr>, ?w) (Passed 1 () 5)
      (\<lparr>ps_val = 5, ps_hasVal = True\<rparr>, ?w(1 := Running))"
    by (rule mon_step.pass) (simp_all add: future_get_def)
  from future_get_returns_set_value [OF future_example_run this] show ?thesis .
qed

end
