(* ===== verification/ReaderWriterLock.thy ===== *)
theory ReaderWriterLock
  imports Prelude "HOL-Library.Multiset"
begin

section \<open>The reader/writer lock: \<^verbatim>\<open>src/rwmutex.h\<close>\<close>

text \<open>
  \<^verbatim>\<open>RWMutex\<close> counts readers under a mutex; a writer keeps the mutex itself from \<^verbatim>\<open>lockWriter\<close> to
  \<^verbatim>\<open>unlockWriter\<close> (\<^verbatim>\<open>lock.release()\<close>). The fields \<open>readLocks\<close> and \<open>pendingWriteLocks\<close> are the
  class's; \<open>owner\<close> is the thread that keeps the mutex between two calls. Each method body (up to a
  wait) runs under the mutex and is one step. Ghost state records who is where: \<open>readers\<close> is the
  multiset of threads that hold read locks and \<open>phase\<close> the position of a writer.
\<close>

type_synonym tid = nat

datatype phase = Out | Sleeping | Woken | Writing

record RWMutex =
  readLocks :: int
  pendingWriteLocks :: int
  owner :: "tid option"
  readers :: "tid multiset"
  phase :: "tid \<Rightarrow> phase"

definition RWMutex_new :: RWMutex where
  "RWMutex_new = \<lparr>readLocks = 0, pendingWriteLocks = 0, owner = None, readers = {#},
     phase = (\<lambda>_. Out)\<rparr>"

definition lockReader :: "tid \<Rightarrow> RWMutex \<Rightarrow> RWMutex" where
  "lockReader i s = s\<lparr>readLocks := readLocks s + 1, readers := add_mset i (readers s)\<rparr>"

definition unlockReader :: "tid \<Rightarrow> RWMutex \<Rightarrow> RWMutex \<times> bool" where
  "unlockReader i s =
     (let s' = s\<lparr>readLocks := readLocks s - 1, readers := readers s - {#i#}\<rparr>
      in (s', readLocks s' = 0 \<and> pendingWriteLocks s' > 0))"

text \<open>\<^verbatim>\<open>lockWriter\<close> up to its wait, and after a wake-up.\<close>

definition lockWriter :: "tid \<Rightarrow> RWMutex \<Rightarrow> RWMutex" where
  "lockWriter i s =
     (if readLocks s > 0
      then s\<lparr>pendingWriteLocks := pendingWriteLocks s + 1, phase := (phase s)(i := Sleeping)\<rparr>
      else s\<lparr>owner := Some i, phase := (phase s)(i := Writing)\<rparr>)"

definition lockWriter_resume :: "tid \<Rightarrow> RWMutex \<Rightarrow> RWMutex" where
  "lockWriter_resume i s =
     (if readLocks s = 0
      then s\<lparr>pendingWriteLocks := pendingWriteLocks s - 1, owner := Some i,
             phase := (phase s)(i := Writing)\<rparr>
      else s\<lparr>phase := (phase s)(i := Sleeping)\<rparr>)"

definition unlockWriter :: "tid \<Rightarrow> RWMutex \<Rightarrow> RWMutex \<times> bool" where
  "unlockWriter i s =
     (s\<lparr>owner := None, phase := (phase s)(i := Out)\<rparr>, pendingWriteLocks s > 0)"

text \<open>\<^verbatim>\<open>cv.notify_one()\<close> wakes one waiting thread, if there is one.\<close>

inductive notify_one :: "bool \<Rightarrow> RWMutex \<Rightarrow> RWMutex \<Rightarrow> bool" where
  no_notify: "notify_one False s s"
| nobody: "\<forall>i. phase s i \<noteq> Sleeping \<Longrightarrow> notify_one True s s"
| wakes: "phase s i = Sleeping \<Longrightarrow> notify_one True s (s\<lparr>phase := (phase s)(i := Woken)\<rparr>)"

inductive rw_step :: "RWMutex \<Rightarrow> RWMutex \<Rightarrow> bool" where
  lock_reader: "owner s = None \<Longrightarrow> phase s i = Out \<Longrightarrow> rw_step s (lockReader i s)"
| unlock_reader: "owner s = None \<Longrightarrow> i \<in># readers s \<Longrightarrow> unlockReader i s = (s', n) \<Longrightarrow>
    notify_one n s' t \<Longrightarrow> rw_step s t"
| lock_writer: "owner s = None \<Longrightarrow> phase s i = Out \<Longrightarrow> rw_step s (lockWriter i s)"
| spurious: "phase s i = Sleeping \<Longrightarrow> rw_step s (s\<lparr>phase := (phase s)(i := Woken)\<rparr>)"
| resume: "owner s = None \<Longrightarrow> phase s i = Woken \<Longrightarrow> rw_step s (lockWriter_resume i s)"
| unlock_writer: "phase s i = Writing \<Longrightarrow> unlockWriter i s = (s', n) \<Longrightarrow> notify_one n s' t \<Longrightarrow>
    rw_step s t"

inductive rw_reachable :: "RWMutex \<Rightarrow> bool" where
  start: "rw_reachable RWMutex_new"
| step: "rw_reachable s \<Longrightarrow> rw_step s t \<Longrightarrow> rw_reachable t"

lemmas rw_defs = lockReader_def unlockReader_def lockWriter_def lockWriter_resume_def
  unlockWriter_def Let_def

subsection \<open>The invariant\<close>

definition waiting :: "RWMutex \<Rightarrow> tid set" where
  "waiting s = {i. phase s i \<in> {Sleeping, Woken}}"

text \<open>
  The counters count what they should, the mutex is kept exactly by the writing thread, a writer
  excludes readers, and a sleeping writer never has the lock to itself without somebody being woken
  for it.
\<close>

definition rw_inv :: "RWMutex \<Rightarrow> bool" where
  "rw_inv s \<longleftrightarrow>
     readLocks s = int (size (readers s))
     \<and> finite (waiting s) \<and> pendingWriteLocks s = int (card (waiting s))
     \<and> (\<forall>i. phase s i = Writing \<longleftrightarrow> owner s = Some i)
     \<and> (owner s \<noteq> None \<longrightarrow> readers s = {#})
     \<and> (readers s = {#} \<and> (\<exists>i. phase s i = Sleeping) \<longrightarrow> owner s \<noteq> None \<or> (\<exists>j. phase s j = Woken))"

lemma waiting_cong: "phase t = phase s \<Longrightarrow> waiting t = waiting s"
  by (simp add: waiting_def)

lemma waiting_upd:
  "phase t = (phase s)(i := p) \<Longrightarrow>
     waiting t = (if p \<in> {Sleeping, Woken} then insert i (waiting s) else waiting s - {i})"
  by (auto simp: waiting_def)

lemma rw_inv_new: "rw_inv RWMutex_new"
  by (simp add: rw_inv_def RWMutex_new_def waiting_def)

lemma rw_inv_lockReader: "rw_inv s \<Longrightarrow> owner s = None \<Longrightarrow> rw_inv (lockReader i s)"
  using waiting_cong [of "lockReader i s" s]
  by (auto simp: rw_inv_def lockReader_def)

text \<open>
  The part of the invariant that survives an unlock before its notification, and what the
  notification restores.
\<close>

definition rw_inv0 :: "RWMutex \<Rightarrow> bool" where
  "rw_inv0 s \<longleftrightarrow>
     readLocks s = int (size (readers s))
     \<and> finite (waiting s) \<and> pendingWriteLocks s = int (card (waiting s))
     \<and> (\<forall>i. phase s i = Writing \<longleftrightarrow> owner s = Some i)
     \<and> (owner s \<noteq> None \<longrightarrow> readers s = {#})"

lemma rw_inv_split:
  "rw_inv s \<longleftrightarrow> rw_inv0 s
     \<and> (readers s = {#} \<and> (\<exists>i. phase s i = Sleeping) \<longrightarrow> owner s \<noteq> None \<or> (\<exists>j. phase s j = Woken))"
  by (auto simp: rw_inv_def rw_inv0_def)

lemma rw_inv_wake: "rw_inv0 s \<Longrightarrow> phase s i = Sleeping \<Longrightarrow> rw_inv (s\<lparr>phase := (phase s)(i := Woken)\<rparr>)"
proof -
  assume inv: "rw_inv0 s" and i: "phase s i = Sleeping"
  have "waiting (s\<lparr>phase := (phase s)(i := Woken)\<rparr>) = waiting s"
    using i by (auto simp: waiting_def)
  moreover have "owner s \<noteq> Some i"
    using inv i unfolding rw_inv0_def by (metis phase.distinct(9))
  ultimately show ?thesis
    using inv by (auto simp: rw_inv_def rw_inv0_def)
qed

lemma sleeping_pending: "rw_inv0 s \<Longrightarrow> phase s i = Sleeping \<Longrightarrow> pendingWriteLocks s > 0"
  by (auto simp: rw_inv0_def waiting_def card_gt_0_iff)

lemma rw_inv_notified:
  assumes "notify_one n s t" and "rw_inv0 s" and "\<not> n \<Longrightarrow> rw_inv s"
  shows "rw_inv t"
  using assms(1)
proof cases
  case no_notify
  with assms(3) show ?thesis by simp
next
  case nobody
  with assms(2) show ?thesis by (auto simp: rw_inv_split)
next
  case (wakes i)
  with rw_inv_wake [OF assms(2)] show ?thesis by simp
qed

lemma rw_inv_unlockReader:
  assumes "rw_inv s" "i \<in># readers s" "unlockReader i s = (s', n)" "notify_one n s' t"
  shows "rw_inv t"
proof (rule rw_inv_notified [OF assms(4)])
  have w: "waiting s' = waiting s"
    using assms(3) by (intro waiting_cong) (auto simp: unlockReader_def Let_def)
  from assms(2) have sz: "size (readers s) = Suc (size (readers s - {#i#}))"
    by (metis insert_DiffM size_add_mset)
  have s': "readLocks s' = readLocks s - 1" "pendingWriteLocks s' = pendingWriteLocks s"
    "owner s' = owner s" "phase s' = phase s" "readers s' = readers s - {#i#}"
    "n \<longleftrightarrow> readLocks s' = 0 \<and> pendingWriteLocks s' > 0"
    using assms(3) by (auto simp: unlockReader_def Let_def)
  have "readers s \<noteq> {#}" using assms(2) by auto
  with assms(1) w sz s' show inv0: "rw_inv0 s'"
    by (simp add: rw_inv_def rw_inv0_def)
  show "rw_inv s'" if "\<not> n"
    using inv0 that s'(6) sleeping_pending [OF inv0] by (auto simp: rw_inv_split rw_inv0_def)
qed

lemma rw_inv_lockWriter: "rw_inv s \<Longrightarrow> owner s = None \<Longrightarrow> phase s i = Out \<Longrightarrow> rw_inv (lockWriter i s)"
proof -
  assume inv: "rw_inv s" "owner s = None" "phase s i = Out"
  then have i: "i \<notin> waiting s" by (simp add: waiting_def)
  have w: "waiting (lockWriter i s) = (if readLocks s > 0 then insert i (waiting s) else waiting s - {i})"
    using waiting_upd [of "lockWriter i s" s i] by (auto simp: lockWriter_def)
  show ?thesis
    using inv i w by (auto simp: rw_inv_def lockWriter_def split: if_splits)
qed

lemma rw_inv_resume:
  assumes "rw_inv s" "owner s = None" "phase s i = Woken"
  shows "rw_inv (lockWriter_resume i s)"
proof -
  have i: "i \<in> waiting s" using assms by (simp add: waiting_def)
  have w: "waiting (lockWriter_resume i s) = (if readLocks s = 0 then waiting s - {i} else insert i (waiting s))"
    using waiting_upd [of "lockWriter_resume i s" s i] by (auto simp: lockWriter_resume_def)
  have "finite (waiting s)" using assms by (simp add: rw_inv_def)
  with i have "int (card (waiting s - {i})) = int (card (waiting s)) - 1"
    by (simp add: card_Diff_singleton card_gt_0_iff of_nat_diff)
       (metis One_nat_def Suc_leI card_gt_0_iff empty_iff of_nat_1 of_nat_diff)
  with assms i w show ?thesis
    by (auto simp: rw_inv_def lockWriter_resume_def insert_absorb split: if_splits)
qed

lemma rw_inv_unlockWriter:
  assumes "rw_inv s" "phase s i = Writing" "unlockWriter i s = (s', n)" "notify_one n s' t"
  shows "rw_inv t"
proof (rule rw_inv_notified [OF assms(4)])
  have "i \<notin> waiting s" using assms by (simp add: waiting_def)
  then have w: "waiting s' = waiting s"
    using assms(3) waiting_upd [of s' s i Out] by (auto simp: unlockWriter_def)
  show inv0: "rw_inv0 s'"
    using assms(1-3) w by (auto simp: rw_inv_def rw_inv0_def unlockWriter_def split: if_splits)
  show "rw_inv s'" if "\<not> n"
    using inv0 that assms(3) sleeping_pending [OF inv0]
    by (auto simp: rw_inv_split unlockWriter_def)
qed

lemma rw_step_inv: "rw_step s t \<Longrightarrow> rw_inv s \<Longrightarrow> rw_inv t"
proof (induction rule: rw_step.induct)
  case (spurious s i)
  then show ?case using rw_inv_wake [of s i] by (simp add: rw_inv_split)
qed (auto intro: rw_inv_lockReader rw_inv_unlockReader rw_inv_lockWriter rw_inv_resume rw_inv_unlockWriter)

lemma rw_reachable_inv: "rw_reachable s \<Longrightarrow> rw_inv s"
  by (induction rule: rw_reachable.induct) (auto intro: rw_inv_new rw_step_inv)

subsection \<open>Scoped locks\<close>

text \<open>
  \<^verbatim>\<open>RLock\<close> and \<^verbatim>\<open>WLock\<close> hold a pointer to the mutex they locked, null once moved from. Their effect
  on the mutexes is a count of held locks per mutex (\<open>lock\<close> adds one, \<open>unlock\<close> takes one away);
  both classes have the same five operations. The live guards of a program are a list.
\<close>

type_synonym 'm guard = "'m option"

record 'm guards =
  held :: "'m \<Rightarrow> int"
  live :: "'m guard list"

definition RLock_new :: "'m \<Rightarrow> 'm guards \<Rightarrow> 'm guards" where
  "RLock_new m g = \<lparr>held = (held g)(m := held g m + 1), live = live g @ [Some m]\<rparr>"

definition RLock_destroy :: "nat \<Rightarrow> 'm guards \<Rightarrow> 'm guards" where
  "RLock_destroy k g =
     \<lparr>held = (case live g ! k of None \<Rightarrow> held g | Some m \<Rightarrow> (held g)(m := held g m - 1)),
      live = take k (live g) @ drop (Suc k) (live g)\<rparr>"

definition RLock_move :: "nat \<Rightarrow> 'm guards \<Rightarrow> 'm guards" where
  "RLock_move k g = g\<lparr>live := (live g)[k := None] @ [live g ! k]\<rparr>"

definition RLock_move_assign :: "nat \<Rightarrow> nat \<Rightarrow> 'm guards \<Rightarrow> 'm guards" where
  "RLock_move_assign k l g = g\<lparr>live := (live g)[k := live g ! l, l := None]\<rparr>"

definition guards_balanced :: "'m guards \<Rightarrow> bool" where
  "guards_balanced g \<longleftrightarrow> (\<forall>m. held g m = int (count_list (live g) (Some m)))"

lemma count_list_remove:
  "k < length xs \<Longrightarrow>
     count_list xs x = count_list (take k xs @ drop (Suc k) xs) x + (if xs ! k = x then 1 else 0)"
  by (subst id_take_nth_drop [of k xs]) (simp_all add: count_list_append)

lemma count_list_upd:
  assumes "k < length xs"
  shows "int (count_list (xs[k := y]) x)
    = int (count_list xs x) - (if xs ! k = x then 1 else 0) + (if y = x then 1 else 0)"
  using assms by (subst (2) id_take_nth_drop [of k xs]) (simp_all add: upd_conv_take_nth_drop)

datatype 'm guard_op = New 'm | Move nat | Destroy nat

fun guard_op_run :: "'m guard_op \<Rightarrow> 'm guards \<Rightarrow> 'm guards option" where
  "guard_op_run (New m) g = Some (RLock_new m g)"
| "guard_op_run (Move k) g = (if k < length (live g) then Some (RLock_move k g) else None)"
| "guard_op_run (Destroy k) g = (if k < length (live g) then Some (RLock_destroy k g) else None)"

fun guard_run :: "'m guard_op list \<Rightarrow> 'm guards \<Rightarrow> 'm guards option" where
  "guard_run [] g = Some g"
| "guard_run (x # ops) g = (case guard_op_run x g of None \<Rightarrow> None | Some g' \<Rightarrow> guard_run ops g')"

lemma guards_balanced_destroy:
  assumes "guards_balanced g" and "k < length (live g)"
  shows "guards_balanced (RLock_destroy k g)"
  unfolding guards_balanced_def
proof
  fix m
  from assms(1) count_list_remove [OF assms(2), of "Some m"]
  show "held (RLock_destroy k g) m = int (count_list (live (RLock_destroy k g)) (Some m))"
    by (auto simp: guards_balanced_def RLock_destroy_def split: option.splits)
qed

lemma guard_op_balanced:
  assumes "guard_op_run x g = Some g'" and "guards_balanced g"
  shows "guards_balanced g'"
proof (cases x)
  case (New m)
  with assms show ?thesis
    by (auto simp: guards_balanced_def RLock_new_def)
next
  case (Move k)
  with assms show ?thesis
    by (auto simp: guards_balanced_def RLock_move_def count_list_upd split: if_splits)
next
  case (Destroy k)
  with assms show ?thesis
    by (auto intro: guards_balanced_destroy split: if_splits)
qed

lemma guard_run_balanced_from: "guard_run ops g = Some g' \<Longrightarrow> guards_balanced g \<Longrightarrow> guards_balanced g'"
  by (induction ops arbitrary: g) (auto intro: guard_op_balanced split: option.splits)

lemma guard_run_balanced:
  "guard_run ops \<lparr>held = (\<lambda>_. 0), live = []\<rparr> = Some g \<Longrightarrow> guards_balanced g"
  by (erule guard_run_balanced_from) (simp add: guards_balanced_def)

subsection \<open>Properties\<close>

text \<open>
  C24. Mutual exclusion: in every reachable state of the lock, under any interleaving of threads and
  spurious wake-ups, a thread between \<^verbatim>\<open>lockWriter\<close> and \<^verbatim>\<open>unlockWriter\<close> is the only writer and no read
  lock is held.
\<close>

theorem rw_mutual_exclusion:
  assumes "rw_reachable s" and "phase s i = Writing"
  shows "readers s = {#} \<and> readLocks s = 0 \<and> (\<forall>j. phase s j = Writing \<longrightarrow> j = i)"
  using rw_reachable_inv [OF assms(1)] assms(2) by (auto simp: rw_inv_def)

lemma rw_reachable_writing: "rw_reachable (lockWriter 3 RWMutex_new)"
  by (rule rw_reachable.step [OF rw_reachable.start rw_step.lock_writer])
     (simp_all add: RWMutex_new_def)

theorem rw_mutual_exclusion_witness:
  "readers (lockWriter 3 RWMutex_new) = {#} \<and> readLocks (lockWriter 3 RWMutex_new) = 0
     \<and> phase (lockWriter 3 RWMutex_new) 4 \<noteq> Writing"
proof -
  have "phase (lockWriter 3 RWMutex_new) 3 = Writing" by (simp add: lockWriter_def RWMutex_new_def)
  from rw_mutual_exclusion [OF rw_reachable_writing this] show ?thesis by auto
qed

text \<open>
  C25. No wake-up of a writer is lost: whenever no read lock is held and a writer sleeps in
  \<^verbatim>\<open>lockWriter\<close>, either a writer keeps the lock (and notifies when it unlocks), or some waiting writer
  has been woken and its next step takes the lock.
\<close>

theorem rw_no_lost_wakeup:
  assumes "rw_reachable s" and "readers s = {#}" and "phase s i = Sleeping"
  shows "owner s \<noteq> None \<or> (\<exists>j. phase s j = Woken \<and> rw_step s (lockWriter_resume j s)
     \<and> phase (lockWriter_resume j s) j = Writing)"
proof -
  note inv = rw_reachable_inv [OF assms(1)]
  have "readLocks s = 0" using inv assms(2) by (simp add: rw_inv_def)
  then have "phase (lockWriter_resume j s) j = Writing" for j
    by (simp add: lockWriter_resume_def)
  moreover have "owner s \<noteq> None \<or> (\<exists>j. phase s j = Woken)"
    using inv assms(2,3) by (auto simp: rw_inv_def)
  ultimately show ?thesis
    using rw_step.resume by (cases "owner s") auto
qed

definition rw_example :: RWMutex where
  "rw_example = \<lparr>readLocks = 0, pendingWriteLocks = 2, owner = None, readers = {#},
     phase = (\<lambda>_. Out)(4 := Woken, 5 := Sleeping)\<rparr>"

lemma rw_reachable_example: "rw_reachable rw_example"
proof -
  let ?r = "lockReader 1 RWMutex_new"
  let ?w = "lockWriter 5 (lockWriter 4 ?r)"
  have 1: "rw_reachable ?r"
    by (rule rw_reachable.step [OF rw_reachable.start rw_step.lock_reader])
       (simp_all add: RWMutex_new_def)
  have 2: "rw_reachable (lockWriter 4 ?r)"
    by (rule rw_reachable.step [OF 1 rw_step.lock_writer])
       (simp_all add: RWMutex_new_def rw_defs)
  have 3: "rw_reachable ?w"
    by (rule rw_reachable.step [OF 2 rw_step.lock_writer])
       (simp_all add: RWMutex_new_def rw_defs)
  have u: "unlockReader 1 ?w = (rw_example\<lparr>phase := (phase rw_example)(4 := Sleeping)\<rparr>, True)"
    by (simp add: RWMutex_new_def rw_defs rw_example_def fun_eq_iff)
  have n: "notify_one True (rw_example\<lparr>phase := (phase rw_example)(4 := Sleeping)\<rparr>) rw_example"
    using notify_one.wakes [of "rw_example\<lparr>phase := (phase rw_example)(4 := Sleeping)\<rparr>" 4]
    by (simp add: rw_example_def fun_upd_twist)
  show ?thesis
    by (rule rw_reachable.step [OF 3 rw_step.unlock_reader [OF _ _ u n]])
       (simp_all add: RWMutex_new_def rw_defs)
qed

theorem rw_no_lost_wakeup_witness:
  "\<exists>j. phase rw_example j = Woken \<and> rw_step rw_example (lockWriter_resume j rw_example)
     \<and> phase (lockWriter_resume j rw_example) j = Writing"
proof -
  have o: "owner rw_example = None" "readers rw_example = {#}" "phase rw_example 5 = Sleeping"
    by (simp_all add: rw_example_def)
  show ?thesis
    using rw_no_lost_wakeup [OF rw_reachable_example o(2,3)] o(1) by simp
qed

text \<open>
  The scoped locks balance: after any sequence of constructing, moving and destroying guards
  (each naming a live guard), the number of locks held on every mutex is the number of live guards
  that point to it; so when all guards are gone, no lock is held.
\<close>

theorem guard_accounting:
  assumes "guard_run ops \<lparr>held = (\<lambda>_. 0), live = []\<rparr> = Some g"
  shows "guards_balanced g \<and> (live g = [] \<longrightarrow> (\<forall>m. held g m = 0))"
  using guard_run_balanced [OF assms] by (auto simp: guards_balanced_def)

theorem guard_accounting_witness:
  "guards_balanced \<lparr>held = (\<lambda>m. if m = (7::nat) then 1 else 0), live = [None, Some 7]\<rparr>"
  using guard_accounting [of "[New (7::nat), New 8, Move 0, Destroy 1]"
      "\<lparr>held = (\<lambda>m. if m = (7::nat) then 1 else 0), live = [None, Some 7]\<rparr>"]
  by (simp add: RLock_new_def RLock_move_def RLock_destroy_def fun_eq_iff)

text \<open>
  Move-assigning to a guard that still holds a lock forgets that lock: the mutex it pointed to
  stays locked once more than there are guards pointing to it, whatever the guards do later.
\<close>

theorem move_assign_leaks:
  assumes "guards_balanced g" and "k < length (live g)" and "l < length (live g)" and "k \<noteq> l"
    and "live g ! k = Some m"
  shows "held (RLock_move_assign k l g) m = int (count_list (live (RLock_move_assign k l g)) (Some m)) + 1"
  using assms by (auto simp: guards_balanced_def RLock_move_assign_def count_list_upd)

theorem move_assign_leaks_witness:
  "held (RLock_move_assign 0 1 \<lparr>held = (\<lambda>_. 1), live = [Some False, Some True]\<rparr>) False = 1"
  using move_assign_leaks [of "\<lparr>held = (\<lambda>_. 1), live = [Some False, Some True]\<rparr>" 0 1 False]
  by (simp add: guards_balanced_def RLock_move_assign_def split: bool.splits)

end
