(* ===== verification/Values.thy ===== *)
theory Values
  imports Prelude "HOL-Library.Char_ord" "HOL-Library.List_Lexorder"
begin

section \<open>Types and values of the protocol\<close>

text \<open>
  \<^verbatim>\<open>include/dap/types.h\<close>, \<^verbatim>\<open>any.h\<close>, \<^verbatim>\<open>optional.h\<close>, \<^verbatim>\<open>variant.h\<close>, \<^verbatim>\<open>typeinfo.h\<close> and the struct macros of
  \<^verbatim>\<open>typeof.h\<close>. A C++ type that has a \<^verbatim>\<open>TypeOf\<close> specialisation is a value of \<open>dap_type\<close>; an object of such a
  type is a value of \<open>val\<close>. A \<^verbatim>\<open>double\<close> is only copied by the library, so a \<open>number\<close> is its bit
  pattern. An \<^verbatim>\<open>any\<close> is the pair of its type and its value, or nothing; an \<^verbatim>\<open>optional\<close> has the flag and
  the always-present \<^verbatim>\<open>val\<close>; an \<^verbatim>\<open>unordered_map\<close> is the list of its entries in iteration order; a
  struct is the list of its members in declaration order.
\<close>

type_synonym number = "64 word"

datatype dap_type =
    TBoolean | TInteger | TNumber | TString | TObject | TAny | TNull
  | TArray dap_type
  | TOptional dap_type
  | TVariant "dap_type list"
  | TStruct string

datatype val =
    VBoolean bool
  | VInteger int64
  | VNumber number
  | VString string
  | VObject "(string \<times> val) list"
  | VAny "(dap_type \<times> val) option"
  | VNull
  | VArray "val list"
  | VOptional bool val
  | VVariant val
  | VStruct "val list"

subsection \<open>TypeInfo names\<close>

text \<open>\<^verbatim>\<open>TypeInfo::name()\<close>; a struct's name is the second argument of its macro.\<close>

fun type_name :: "(string \<Rightarrow> string) \<Rightarrow> dap_type \<Rightarrow> string" where
  "type_name N TBoolean = ''boolean''"
| "type_name N TInteger = ''integer''"
| "type_name N TNumber = ''number''"
| "type_name N TString = ''string''"
| "type_name N TObject = ''object''"
| "type_name N TAny = ''any''"
| "type_name N TNull = ''null''"
| "type_name N (TArray t) = ''array<'' @ type_name N t @ ''>''"
| "type_name N (TOptional t) = ''optional<'' @ type_name N t @ ''>''"
| "type_name N (TVariant ts) = ''variant''"
| "type_name N (TStruct s) = N s"

subsection \<open>Struct declarations\<close>

text \<open>
  A struct declaration lists its members with their types and initialisers, after an optional base
  struct; a \<^verbatim>\<open>DAP_IMPLEMENT_STRUCT_TYPEINFO\<close> (or \<^verbatim>\<open>_EXT\<close>, with a base) lists pairs of a member and
  its name in the serialised form. Declarations are kept latest first: C++ lets a struct contain,
  or derive from, only structs that are complete, hence declared before it.
\<close>

record member =
  m_name :: string
  m_type :: dap_type
  m_init :: "val option"

record struct_decl =
  sd_name :: string
  sd_base :: "string option"
  sd_members :: "member list"

record struct_info =
  ti_struct :: string
  ti_name :: string
  ti_base :: "string option"
  ti_fields :: "(string \<times> string) list"

record env =
  e_decls :: "struct_decl list"
  e_infos :: "struct_info list"

record Field =
  fd_name :: string
  fd_offset :: nat
  fd_type :: dap_type

abbreviation mem :: "string \<Rightarrow> dap_type \<Rightarrow> member" where
  "mem n t \<equiv> \<lparr>m_name = n, m_type = t, m_init = None\<rparr>"

abbreviation mem_init :: "string \<Rightarrow> dap_type \<Rightarrow> val \<Rightarrow> member" where
  "mem_init n t v \<equiv> \<lparr>m_name = n, m_type = t, m_init = Some v\<rparr>"

fun members_of :: "struct_decl list \<Rightarrow> string \<Rightarrow> member list" where
  "members_of [] s = []"
| "members_of (d # ds) s =
     (if sd_name d = s
      then (case sd_base d of None \<Rightarrow> [] | Some b \<Rightarrow> members_of ds b) @ sd_members d
      else members_of ds s)"

text \<open>Default construction of an object of a type.\<close>

function default_of :: "struct_decl list \<Rightarrow> dap_type \<Rightarrow> val" where
  "default_of ds TBoolean = VBoolean False"
| "default_of ds TInteger = VInteger 0"
| "default_of ds TNumber = VNumber 0"
| "default_of ds TString = VString []"
| "default_of ds TObject = VObject []"
| "default_of ds TAny = VAny None"
| "default_of ds TNull = VNull"
| "default_of ds (TArray t) = VArray []"
| "default_of ds (TOptional t) = VOptional False (default_of ds t)"
| "default_of ds (TVariant ts) =
     VVariant (VAny (case ts of [] \<Rightarrow> None | t # _ \<Rightarrow> Some (t, default_of ds t)))"
| "default_of [] (TStruct s) = VStruct []"
| "default_of (d # ds) (TStruct s) =
     (if sd_name d = s
      then VStruct
        ((case sd_base d of
            None \<Rightarrow> []
          | Some b \<Rightarrow> (case default_of ds (TStruct b) of VStruct vs \<Rightarrow> vs | _ \<Rightarrow> []))
         @ map (\<lambda>m. case m_init m of Some v \<Rightarrow> v | None \<Rightarrow> default_of ds (m_type m)) (sd_members d))
      else default_of ds (TStruct s))"
  by pat_completeness auto
termination
  by (relation "measures [\<lambda>(ds, t). length ds, \<lambda>(ds, t). size t]") auto

text \<open>
  \<^verbatim>\<open>DAP_FIELD(FIELD, NAME)\<close> within the macro for struct \<open>s\<close>: the serialised name, the position of the
  member and its type. A \<open>FIELD\<close> that is no member does not compile.
\<close>

definition DAP_FIELD :: "env \<Rightarrow> string \<Rightarrow> string \<times> string \<Rightarrow> Field option" where
  "DAP_FIELD E s p =
     (case filter (\<lambda>(k, m). m_name m = fst p) (zip [0..<length (members_of (e_decls E) s)] (members_of (e_decls E) s)) of
        [] \<Rightarrow> None
      | (k, m) # _ \<Rightarrow> Some \<lparr>fd_name = snd p, fd_offset = k, fd_type = m_type m\<rparr>)"

definition info_of :: "env \<Rightarrow> string \<Rightarrow> struct_info option" where
  "info_of E s = find (\<lambda>i. ti_struct i = s) (e_infos E)"

text \<open>The list that one struct's own \<^verbatim>\<open>serializeFields\<close> and \<^verbatim>\<open>deserializeFields\<close> go through.\<close>

definition own_fields :: "env \<Rightarrow> string \<Rightarrow> Field list" where
  "own_fields E s =
     (case info_of E s of
        None \<Rightarrow> []
      | Some i \<Rightarrow> List.map_filter (DAP_FIELD E s) (ti_fields i))"

text \<open>
  The fields that the \<^verbatim>\<open>TypeInfo\<close> of a struct handles, in order. With \<^verbatim>\<open>_EXT\<close> the base's own fields come
  first: \<^verbatim>\<open>TypeOf<BASE>::serializeFields\<close> handles the fields of \<^verbatim>\<open>BASE\<close> itself, not those of a base of
  \<^verbatim>\<open>BASE\<close>.
\<close>

definition struct_fields :: "env \<Rightarrow> string \<Rightarrow> Field list" where
  "struct_fields E s =
     (case info_of E s of
        None \<Rightarrow> []
      | Some i \<Rightarrow>
          (case ti_base i of None \<Rightarrow> [] | Some b \<Rightarrow> own_fields E b) @ own_fields E s)"

subsection \<open>Observable equality of values\<close>

text \<open>
  Two objects are indistinguishable to a user of the library when they differ only in the iteration
  order of maps and in what an unset optional keeps in its \<^verbatim>\<open>val\<close>; \<open>norm\<close> forgets both.
\<close>

fun norm :: "val \<Rightarrow> val" where
  "norm (VObject ms) = VObject (sort_key fst (map (\<lambda>(k, v). (k, norm v)) ms))"
| "norm (VAny None) = VAny None"
| "norm (VAny (Some (t, v))) = VAny (Some (t, norm v))"
| "norm (VArray vs) = VArray (map norm vs)"
| "norm (VOptional b v) = (if b then VOptional True (norm v) else VOptional False VNull)"
| "norm (VVariant v) = VVariant (norm v)"
| "norm (VStruct vs) = VStruct (map norm vs)"
| "norm v = v"

subsection \<open>Insertion into a map\<close>

text \<open>\<^verbatim>\<open>(*v)[key] = val\<close> on an \<^verbatim>\<open>unordered_map\<close>: replaces the value of a present key.\<close>

fun obj_put :: "(string \<times> 'v) list \<Rightarrow> string \<Rightarrow> 'v \<Rightarrow> (string \<times> 'v) list" where
  "obj_put [] k v = [(k, v)]"
| "obj_put ((k', v') # m) k v = (if k' = k then (k, v) # m else (k', v') # obj_put m k v)"

lemma obj_put_fresh: "k \<notin> fst ` set m \<Longrightarrow> obj_put m k v = m @ [(k, v)]"
  by (induction m) auto

lemma sort_key_unique:
  assumes "set xs = set ys" and "distinct (map fst xs)" and "distinct (map fst ys)"
  shows "sort_key fst xs = sort_key fst (ys :: ('k :: linorder \<times> 'v) list)"
proof (rule map_sorted_distinct_set_unique [where f = fst])
  show "inj_on fst (set (sort_key fst xs) \<union> set (sort_key fst ys))"
    using assms by (simp add: distinct_map)
qed (use assms in \<open>auto simp: distinct_map distinct_sort\<close>)

subsection \<open>Well-typed objects\<close>

text \<open>
  \<open>of_type\<close> says that a value is an object of a type: the shape that the C++ type system guarantees.
  An \<^verbatim>\<open>any\<close> never holds an \<^verbatim>\<open>any\<close>: assigning one copies it.
\<close>

fun of_type :: "struct_decl list \<Rightarrow> dap_type \<Rightarrow> val \<Rightarrow> bool"
and of_types :: "struct_decl list \<Rightarrow> dap_type list \<Rightarrow> val list \<Rightarrow> bool"
and of_entries :: "struct_decl list \<Rightarrow> (string \<times> val) list \<Rightarrow> bool" where
  "of_type ds T (VBoolean b) = (T = TBoolean)"
| "of_type ds T (VInteger i) = (T = TInteger)"
| "of_type ds T (VNumber n) = (T = TNumber)"
| "of_type ds T (VString s) = (T = TString)"
| "of_type ds T (VObject ms) = (T = TObject \<and> distinct (map fst ms) \<and> of_entries ds ms)"
| "of_type ds T (VAny None) = (T = TAny)"
| "of_type ds T (VAny (Some (t, v))) = (T = TAny \<and> t \<noteq> TAny \<and> of_type ds t v)"
| "of_type ds T VNull = (T = TNull)"
| "of_type ds T (VArray vs) =
     (case T of TArray t \<Rightarrow> of_types ds (replicate (length vs) t) vs | _ \<Rightarrow> False)"
| "of_type ds T (VOptional b v) = (case T of TOptional t \<Rightarrow> of_type ds t v | _ \<Rightarrow> False)"
| "of_type ds T (VVariant v) = (case T of TVariant ts \<Rightarrow> of_type ds TAny v | _ \<Rightarrow> False)"
| "of_type ds T (VStruct vs) =
     (case T of TStruct s \<Rightarrow> of_types ds (map m_type (members_of ds s)) vs | _ \<Rightarrow> False)"
| "of_types ds [] vs = (vs = [])"
| "of_types ds (t # ts) [] = False"
| "of_types ds (t # ts) (v # vs) = (of_type ds t v \<and> of_types ds ts vs)"
| "of_entries ds [] = True"
| "of_entries ds ((k, v) # ms) = (of_type ds TAny v \<and> of_entries ds ms)"

lemma of_types_list_all2: "of_types ds ts vs \<longleftrightarrow> list_all2 (of_type ds) ts vs"
proof (induction ts arbitrary: vs)
  case (Cons t ts)
  then show ?case by (cases vs) auto
qed simp

lemma of_types_append:
  "of_types ds ts vs \<Longrightarrow> of_types ds us ws \<Longrightarrow> of_types ds (ts @ us) (vs @ ws)"
  by (simp add: of_types_list_all2 list_all2_appendI)

lemma of_types_replicate: "of_types ds (replicate (length vs) t) vs \<longleftrightarrow> (\<forall>v \<in> set vs. of_type ds t v)"
  by (induction vs) auto

lemma of_entries_all: "of_entries ds ms \<longleftrightarrow> (\<forall>(k, v) \<in> set ms. of_type ds TAny v)"
  by (induction ms) auto

lemma of_types_update:
  "of_types ds ts vs \<Longrightarrow> k < length vs \<Longrightarrow> of_type ds (ts ! k) v \<Longrightarrow> of_types ds ts (vs[k := v])"
  by (simp add: of_types_list_all2 list_all2_conv_all_nth nth_list_update)

lemma of_type_arrayD: "of_type ds (TArray t) v \<Longrightarrow> \<exists>vs. v = VArray vs \<and> (\<forall>u \<in> set vs. of_type ds t u)"
  by (cases v) (auto simp: of_types_replicate split: option.splits elim: of_type.elims)

lemma of_type_anyD:
  "of_type ds TAny v \<Longrightarrow> v = VAny None \<or> (\<exists>t u. v = VAny (Some (t, u)) \<and> t \<noteq> TAny \<and> of_type ds t u)"
  by (erule of_type.elims) auto

lemma of_type_optionalD: "of_type ds (TOptional t) v \<Longrightarrow> \<exists>b u. v = VOptional b u \<and> of_type ds t u"
  by (erule of_type.elims) auto

lemma of_type_variantD: "of_type ds (TVariant ts) v \<Longrightarrow> \<exists>u. v = VVariant u \<and> of_type ds TAny u"
  by (erule of_type.elims) auto

lemma of_type_structD:
  "of_type ds (TStruct s) v \<Longrightarrow> \<exists>vs. v = VStruct vs \<and> of_types ds (map m_type (members_of ds s)) vs"
  by (erule of_type.elims) auto

lemma of_type_objectD:
  "of_type ds TObject v \<Longrightarrow> \<exists>ms. v = VObject ms \<and> distinct (map fst ms) \<and> of_entries ds ms"
  by (erule of_type.elims) auto

text \<open>
  The structs that an object of a type contains directly. A \<^verbatim>\<open>vector\<close> allocates its elements, so that
  a struct may have a member that is an array of itself.
\<close>

fun parts :: "dap_type \<Rightarrow> string list" where
  "parts (TOptional t) = parts t"
| "parts (TVariant ts) = (case ts of [] \<Rightarrow> [] | t # _ \<Rightarrow> parts t)"
| "parts (TStruct s) = [s]"
| "parts _ = []"

text \<open>
  An object into which nothing was stored yet: its containers are empty and its optionals unset.
  Scalars may have any value, as members with an initialiser do.
\<close>

fun clean :: "val \<Rightarrow> bool" where
  "clean (VObject ms) = (ms = [])"
| "clean (VArray vs) = (vs = [])"
| "clean (VOptional b v) = (\<not> b \<and> clean v)"
| "clean (VStruct vs) = list_all clean vs"
| "clean _ = True"

text \<open>
  What the C++ compiler checks of the declarations: names are unique, members and bases have
  complete types, and initialisers have the type of their member. That no initialiser sets an
  optional or fills a container is a convention of \<^verbatim>\<open>protocol.h\<close>.
\<close>

fun wf_type :: "dap_type \<Rightarrow> bool" where
  "wf_type (TArray t) = wf_type t"
| "wf_type (TOptional t) = wf_type t"
| "wf_type (TVariant ts) = (ts \<noteq> [] \<and> list_all (\<lambda>t. t \<noteq> TAny \<and> wf_type t) ts)"
| "wf_type _ = True"

fun is_VString :: "val \<Rightarrow> bool" where
  "is_VString (VString _) = True"
| "is_VString _ = False"

definition decl_ok :: "struct_decl \<Rightarrow> bool" where
  "decl_ok d \<longleftrightarrow> list_all (\<lambda>m. wf_type (m_type m)
     \<and> (case m_init m of None \<Rightarrow> True | Some v \<Rightarrow> m_type m = TString \<and> is_VString v)) (sd_members d)"

definition decl_parts :: "struct_decl \<Rightarrow> string list" where
  "decl_parts d =
     (case sd_base d of None \<Rightarrow> [] | Some b \<Rightarrow> [b]) @ concat (map (\<lambda>m. parts (m_type m)) (sd_members d))"

fun wf_decls :: "struct_decl list \<Rightarrow> bool" where
  "wf_decls [] = True"
| "wf_decls (d # ds) =
     (wf_decls ds \<and> sd_name d \<notin> set (map sd_name ds) \<and> decl_ok d
      \<and> list_all (\<lambda>s. s \<in> set (map sd_name ds)) (decl_parts d))"

lemma decl_okD:
  "decl_ok d \<Longrightarrow> m \<in> set (sd_members d) \<Longrightarrow> wf_type (m_type m)
    \<and> (\<forall>v. m_init m = Some v \<longrightarrow> m_type m = TString \<and> is_VString v)"
  by (force simp: decl_ok_def list_all_iff split: option.splits)

lemma decl_partsD:
  assumes "list_all (\<lambda>s. s \<in> X) (decl_parts d)"
  shows "sd_base d = Some b \<Longrightarrow> b \<in> X" and "m \<in> set (sd_members d) \<Longrightarrow> set (parts (m_type m)) \<subseteq> X"
  using assms by (auto simp: decl_parts_def list_all_iff)

lemma members_of_prefix:
  assumes "wf_decls (pre @ ds)" and "s \<in> set (map sd_name ds)"
  shows "members_of (pre @ ds) s = members_of ds s"
  using assms by (induction pre) auto

lemma wf_decls_suffix: "wf_decls (pre @ ds) \<Longrightarrow> wf_decls ds"
  by (induction pre) auto

lemma parts_variant: "parts (TVariant (t # ts)) = parts t"
  by simp

text \<open>Default construction gives a well-typed object into which nothing was stored.\<close>

lemma default_of_ok_aux:
  assumes "wf_decls (pre @ ds)" and "wf_type T" and "set (parts T) \<subseteq> set (map sd_name ds)"
  shows "of_type (pre @ ds) T (default_of ds T) \<and> clean (default_of ds T)"
  using assms
proof (induction ds T arbitrary: pre rule: default_of.induct)
  case (10 ds ts)
  then show ?case by (cases ts) auto
next
  case (12 d ds s)
  have wf': "wf_decls ((pre @ [d]) @ ds)" using 12 by simp
  show ?case
  proof (cases "sd_name d = s")
    case False
    with 12 have "s \<in> set (map sd_name ds)" by auto
    with 12 False wf' show ?thesis using "12.IH"(3) [of "pre @ [d]"] by simp
  next
    case True
    define bs where
      "bs = (case sd_base d of None \<Rightarrow> []
             | Some b \<Rightarrow> (case default_of ds (TStruct b) of VStruct vs \<Rightarrow> vs | _ \<Rightarrow> []))"
    define os where
      "os = map (\<lambda>m. case m_init m of Some v \<Rightarrow> v | None \<Rightarrow> default_of ds (m_type m)) (sd_members d)"
    have wfd: "wf_decls (d # ds)" using 12 wf_decls_suffix by blast
    have base: "of_types (pre @ d # ds)
        (map m_type (case sd_base d of None \<Rightarrow> [] | Some b \<Rightarrow> members_of ds b)) bs \<and> list_all clean bs"
    proof (cases "sd_base d")
      case (Some b)
      with wfd have b: "b \<in> set (map sd_name ds)" using decl_partsD(1) by (auto simp del: set_map)
      then have "members_of ((pre @ [d]) @ ds) b = members_of ds b"
        using members_of_prefix [OF wf'] by blast
      moreover have "of_type ((pre @ [d]) @ ds) (TStruct b) (default_of ds (TStruct b))
          \<and> clean (default_of ds (TStruct b))"
        using "12.IH"(1) [OF True Some, of "pre @ [d]"] wf' b by simp
      ultimately show ?thesis
        using Some by (auto simp: bs_def dest!: of_type_structD)
    qed (simp add: bs_def)
    have own: "of_types (pre @ d # ds) (map m_type (sd_members d)) os \<and> list_all clean os"
    proof -
      have "of_type (pre @ d # ds) (m_type m)
              (case m_init m of Some v \<Rightarrow> v | None \<Rightarrow> default_of ds (m_type m))
          \<and> clean (case m_init m of Some v \<Rightarrow> v | None \<Rightarrow> default_of ds (m_type m))"
        if m: "m \<in> set (sd_members d)" for m
      proof (cases "m_init m")
        case None
        with m wfd show ?thesis
          using "12.IH"(2) [OF True m None, of "pre @ [d]"] wf' decl_okD [of d m] decl_partsD(2) [of _ d m]
          by auto
      next
        case (Some v)
        with m wfd have "m_type m = TString \<and> is_VString v"
          using decl_okD by auto
        with Some show ?thesis by (cases v) auto
      qed
      then show ?thesis
        by (auto simp: os_def of_types_list_all2 list_all2_conv_all_nth list_all_length)
    qed
    have "members_of (pre @ d # ds) s = (case sd_base d of None \<Rightarrow> [] | Some b \<Rightarrow> members_of ds b) @ sd_members d"
      using members_of_prefix [of pre "d # ds" s] "12.prems"(1) True by simp
    moreover have "default_of (d # ds) (TStruct s) = VStruct (bs @ os)"
      using True by (simp add: bs_def os_def)
    ultimately show ?thesis
      using of_types_append base own by auto
  qed
qed auto

lemma default_of_ok:
  assumes "wf_decls ds" and "wf_type T" and "set (parts T) \<subseteq> set (map sd_name ds)"
  shows "of_type ds T (default_of ds T)" and "clean (default_of ds T)"
  using default_of_ok_aux [of "[]" ds T] assms by simp_all

subsection \<open>Well-formed environments\<close>

text \<open>
  Every struct that a member's type mentions is declared, and the base named in an \<^verbatim>\<open>_EXT\<close> macro is
  a base of the struct, so that its members come first.
\<close>

fun mentions :: "dap_type \<Rightarrow> string list" where
  "mentions (TArray t) = mentions t"
| "mentions (TOptional t) = mentions t"
| "mentions (TVariant ts) = concat (map mentions ts)"
| "mentions (TStruct s) = [s]"
| "mentions _ = []"

definition decl_mentions :: "struct_decl \<Rightarrow> string list" where
  "decl_mentions d = concat (map (\<lambda>m. mentions (m_type m)) (sd_members d))"

definition type_ok :: "env \<Rightarrow> dap_type \<Rightarrow> bool" where
  "type_ok E T \<longleftrightarrow> wf_type T \<and> list_all (\<lambda>s. s \<in> set (map sd_name (e_decls E))) (mentions T)"

definition wf_env :: "env \<Rightarrow> bool" where
  "wf_env E \<longleftrightarrow> wf_decls (e_decls E)
     \<and> list_all (\<lambda>d. list_all (\<lambda>s. s \<in> set (map sd_name (e_decls E))) (decl_mentions d)) (e_decls E)
     \<and> list_all (\<lambda>i. case ti_base i of
            None \<Rightarrow> True
          | Some b \<Rightarrow> prefix (members_of (e_decls E) b) (members_of (e_decls E) (ti_struct i)))
         (e_infos E)"

lemma parts_mentions: "set (parts T) \<subseteq> set (mentions T)"
  by (induction T rule: parts.induct) (auto split: list.splits)

lemma default_of_type_ok:
  assumes "wf_env E" and "type_ok E T"
  shows "of_type (e_decls E) T (default_of (e_decls E) T)" and "clean (default_of (e_decls E) T)"
proof -
  have "set (parts T) \<subseteq> set (map sd_name (e_decls E))"
    using assms parts_mentions [of T] by (auto simp: type_ok_def list_all_iff)
  then show "of_type (e_decls E) T (default_of (e_decls E) T)" "clean (default_of (e_decls E) T)"
    using assms default_of_ok by (auto simp: wf_env_def type_ok_def)
qed

lemma members_of_members:
  "m \<in> set (members_of ds s) \<Longrightarrow> \<exists>d \<in> set ds. m \<in> set (sd_members d)"
proof (induction ds s rule: members_of.induct)
  case (2 d ds s)
  then show ?case by (cases "sd_base d"; cases "sd_name d = s") auto
qed simp

lemma info_of_SomeD: "info_of E s = Some i \<Longrightarrow> i \<in> set (e_infos E) \<and> ti_struct i = s"
  by (auto simp: info_of_def find_Some_iff)

lemma DAP_FIELD_SomeD:
  assumes "DAP_FIELD E s p = Some fd"
  shows "fd_offset fd < length (members_of (e_decls E) s)"
    and "fd_type fd = m_type (members_of (e_decls E) s ! fd_offset fd)"
    and "fd_name fd = snd p"
    and "m_name (members_of (e_decls E) s ! fd_offset fd) = fst p"
proof -
  let ?ms = "members_of (e_decls E) s"
  obtain k m rest where f: "filter (\<lambda>(k, m). m_name m = fst p) (zip [0..<length ?ms] ?ms) = (k, m) # rest"
    and fd: "fd = \<lparr>fd_name = snd p, fd_offset = k, fd_type = m_type m\<rparr>"
    using assms by (auto simp: DAP_FIELD_def split: list.splits)
  have "(k, m) \<in> set (filter (\<lambda>(k, m). m_name m = fst p) (zip [0..<length ?ms] ?ms))"
    by (subst f) simp
  then have "k < length ?ms \<and> m = ?ms ! k \<and> m_name m = fst p"
    by (auto simp: set_zip)
  with fd [symmetric] show "fd_offset fd < length ?ms" "fd_type fd = m_type (?ms ! fd_offset fd)"
    "fd_name fd = snd p" "m_name (?ms ! fd_offset fd) = fst p"
    by auto
qed

lemma own_fields_member:
  assumes "fd \<in> set (own_fields E s)"
  shows "fd_offset fd < length (members_of (e_decls E) s)
    \<and> fd_type fd = m_type (members_of (e_decls E) s ! fd_offset fd)"
proof -
  obtain i where "info_of E s = Some i" "fd \<in> set (List.map_filter (DAP_FIELD E s) (ti_fields i))"
    using assms by (cases "info_of E s") (auto simp: own_fields_def)
  then obtain p where "DAP_FIELD E s p = Some fd"
    by (auto simp: List.map_filter_def)
  then show ?thesis using DAP_FIELD_SomeD by blast
qed

lemma wf_decls_ok: "wf_decls ds \<Longrightarrow> d \<in> set ds \<Longrightarrow> decl_ok d"
  by (induction ds) auto

lemma wf_env_members:
  assumes "wf_env E" and "d \<in> set (e_decls E)" and "m \<in> set (sd_members d)"
  shows "type_ok E (m_type m)"
proof -
  have "wf_type (m_type m)"
    using assms wf_decls_ok decl_okD by (auto simp: wf_env_def)
  then show ?thesis
    using assms by (fastforce simp: wf_env_def type_ok_def decl_mentions_def list_all_iff)
qed

lemma struct_fields_member:
  assumes wf: "wf_env E" and fd: "fd \<in> set (struct_fields E s)"
  shows "fd_offset fd < length (members_of (e_decls E) s)
    \<and> fd_type fd = m_type (members_of (e_decls E) s ! fd_offset fd)
    \<and> type_ok E (fd_type fd)"
proof -
  let ?ms = "members_of (e_decls E)"
  obtain i where i: "info_of E s = Some i"
    using fd by (cases "info_of E s") (auto simp: struct_fields_def)
  have main: "fd_offset fd < length (?ms s) \<and> fd_type fd = m_type (?ms s ! fd_offset fd)"
  proof (cases "fd \<in> set (own_fields E s)")
    case False
    then obtain b where b: "ti_base i = Some b" "fd \<in> set (own_fields E b)"
      using fd i by (cases "ti_base i") (auto simp: struct_fields_def)
    then have "prefix (?ms b) (?ms s)"
      using wf info_of_SomeD [OF i] by (fastforce simp: wf_env_def list_all_iff)
    then show ?thesis
      using own_fields_member [OF b(2)] by (auto simp: prefix_def nth_append)
  qed (use own_fields_member in blast)
  then have "?ms s ! fd_offset fd \<in> set (?ms s)" by simp
  then obtain d where "d \<in> set (e_decls E)" "?ms s ! fd_offset fd \<in> set (sd_members d)"
    using members_of_members by blast
  then have "type_ok E (m_type (?ms s ! fd_offset fd))" using wf_env_members [OF wf] by blast
  with main show ?thesis by simp
qed

lemma struct_fields_typed:
  assumes "wf_env E" and "fd \<in> set (struct_fields E s)"
  shows "fd_offset fd < length (map m_type (members_of (e_decls E) s))
    \<and> fd_type fd = map m_type (members_of (e_decls E) s) ! fd_offset fd \<and> type_ok E (fd_type fd)"
  using struct_fields_member [OF assms] by auto

end
