(* ===== verification/ProtocolTypes.thy ===== *)
theory ProtocolTypes
  imports Values
begin

section \<open>The structs of the protocol\<close>

text \<open>
  \<^verbatim>\<open>include/dap/protocol.h\<close>: one definition per struct, with its base, its members in declaration
  order, their types and initialisers. The type aliases of the header (\<^verbatim>\<open>ChecksumAlgorithm\<close>,
  \<^verbatim>\<open>BreakpointModeApplicability\<close>, \<^verbatim>\<open>CompletionItemType\<close>, \<^verbatim>\<open>DataBreakpointAccessType\<close>,
  \<^verbatim>\<open>ExceptionBreakMode\<close>, \<^verbatim>\<open>InvalidatedAreas\<close>, \<^verbatim>\<open>SteppingGranularity\<close>) all stand for \<^verbatim>\<open>string\<close>.
\<close>

named_theorems protocol_defs \<open>the declarations of the protocol\<close>

definition Request_decl :: struct_decl where
  "Request_decl =
     \<lparr>sd_name = ''Request'', sd_base = None, sd_members = []\<rparr>"

definition Response_decl :: struct_decl where
  "Response_decl =
     \<lparr>sd_name = ''Response'', sd_base = None, sd_members = []\<rparr>"

definition Event_decl :: struct_decl where
  "Event_decl =
     \<lparr>sd_name = ''Event'', sd_base = None, sd_members = []\<rparr>"

definition AttachResponse_decl :: struct_decl where
  "AttachResponse_decl =
     \<lparr>sd_name = ''AttachResponse'', sd_base = Some ''Response'', sd_members = []\<rparr>"

definition AttachRequest_decl :: struct_decl where
  "AttachRequest_decl =
     \<lparr>sd_name = ''AttachRequest'', sd_base = Some ''Request'', sd_members =
      [mem ''restart'' (TOptional (TVariant [TArray TAny, TBoolean, TInteger, TNull, TNumber, TObject, TString]))]\<rparr>"

definition Checksum_decl :: struct_decl where
  "Checksum_decl =
     \<lparr>sd_name = ''Checksum'', sd_base = None, sd_members =
      [mem_init ''algorithm'' TString (VString ''MD5''), mem ''checksum'' TString]\<rparr>"

definition Source_decl :: struct_decl where
  "Source_decl =
     \<lparr>sd_name = ''Source'', sd_base = None, sd_members =
      [mem ''adapterData'' (TOptional (TVariant [TArray TAny, TBoolean, TInteger, TNull, TNumber, TObject, TString])),
       mem ''checksums'' (TOptional (TArray (TStruct ''Checksum''))), mem ''name'' (TOptional TString),
       mem ''origin'' (TOptional TString), mem ''path'' (TOptional TString),
       mem ''presentationHint'' (TOptional TString), mem ''sourceReference'' (TOptional TInteger),
       mem ''sources'' (TOptional (TArray (TStruct ''Source'')))]\<rparr>"

definition Breakpoint_decl :: struct_decl where
  "Breakpoint_decl =
     \<lparr>sd_name = ''Breakpoint'', sd_base = None, sd_members =
      [mem ''column'' (TOptional TInteger), mem ''endColumn'' (TOptional TInteger),
       mem ''endLine'' (TOptional TInteger), mem ''id'' (TOptional TInteger),
       mem ''instructionReference'' (TOptional TString), mem ''line'' (TOptional TInteger),
       mem ''message'' (TOptional TString), mem ''offset'' (TOptional TInteger),
       mem ''reason'' (TOptional TString), mem ''source'' (TOptional (TStruct ''Source'')),
       mem ''verified'' TBoolean]\<rparr>"

definition BreakpointEvent_decl :: struct_decl where
  "BreakpointEvent_decl =
     \<lparr>sd_name = ''BreakpointEvent'', sd_base = Some ''Event'', sd_members =
      [mem ''breakpoint'' (TStruct ''Breakpoint''), mem ''reason'' TString]\<rparr>"

definition BreakpointLocation_decl :: struct_decl where
  "BreakpointLocation_decl =
     \<lparr>sd_name = ''BreakpointLocation'', sd_base = None, sd_members =
      [mem ''column'' (TOptional TInteger), mem ''endColumn'' (TOptional TInteger),
       mem ''endLine'' (TOptional TInteger), mem ''line'' TInteger]\<rparr>"

definition BreakpointLocationsResponse_decl :: struct_decl where
  "BreakpointLocationsResponse_decl =
     \<lparr>sd_name = ''BreakpointLocationsResponse'', sd_base = Some ''Response'', sd_members =
      [mem ''breakpoints'' (TArray (TStruct ''BreakpointLocation''))]\<rparr>"

definition BreakpointLocationsRequest_decl :: struct_decl where
  "BreakpointLocationsRequest_decl =
     \<lparr>sd_name = ''BreakpointLocationsRequest'', sd_base = Some ''Request'', sd_members =
      [mem ''column'' (TOptional TInteger), mem ''endColumn'' (TOptional TInteger),
       mem ''endLine'' (TOptional TInteger), mem ''line'' TInteger, mem ''source'' (TStruct ''Source'')]\<rparr>"

definition CancelResponse_decl :: struct_decl where
  "CancelResponse_decl =
     \<lparr>sd_name = ''CancelResponse'', sd_base = Some ''Response'', sd_members = []\<rparr>"

definition CancelRequest_decl :: struct_decl where
  "CancelRequest_decl =
     \<lparr>sd_name = ''CancelRequest'', sd_base = Some ''Request'', sd_members =
      [mem ''progressId'' (TOptional TString), mem ''requestId'' (TOptional TInteger)]\<rparr>"

definition ColumnDescriptor_decl :: struct_decl where
  "ColumnDescriptor_decl =
     \<lparr>sd_name = ''ColumnDescriptor'', sd_base = None, sd_members =
      [mem ''attributeName'' TString, mem ''format'' (TOptional TString), mem ''label'' TString,
       mem ''type'' (TOptional TString), mem ''width'' (TOptional TInteger)]\<rparr>"

definition BreakpointMode_decl :: struct_decl where
  "BreakpointMode_decl =
     \<lparr>sd_name = ''BreakpointMode'', sd_base = None, sd_members =
      [mem ''appliesTo'' (TArray TString), mem ''description'' (TOptional TString),
       mem ''label'' TString, mem ''mode'' TString]\<rparr>"

definition ExceptionBreakpointsFilter_decl :: struct_decl where
  "ExceptionBreakpointsFilter_decl =
     \<lparr>sd_name = ''ExceptionBreakpointsFilter'', sd_base = None, sd_members =
      [mem ''conditionDescription'' (TOptional TString), mem ''def'' (TOptional TBoolean),
       mem ''description'' (TOptional TString), mem ''filter'' TString, mem ''label'' TString,
       mem ''supportsCondition'' (TOptional TBoolean)]\<rparr>"

definition Capabilities_decl :: struct_decl where
  "Capabilities_decl =
     \<lparr>sd_name = ''Capabilities'', sd_base = None, sd_members =
      [mem ''additionalModuleColumns'' (TOptional (TArray (TStruct ''ColumnDescriptor''))),
       mem ''breakpointModes'' (TOptional (TArray (TStruct ''BreakpointMode''))),
       mem ''completionTriggerCharacters'' (TOptional (TArray TString)),
       mem ''exceptionBreakpointFilters'' (TOptional (TArray (TStruct ''ExceptionBreakpointsFilter''))),
       mem ''supportSuspendDebuggee'' (TOptional TBoolean),
       mem ''supportTerminateDebuggee'' (TOptional TBoolean),
       mem ''supportedChecksumAlgorithms'' (TOptional (TArray TString)),
       mem ''supportsBreakpointLocationsRequest'' (TOptional TBoolean),
       mem ''supportsCancelRequest'' (TOptional TBoolean),
       mem ''supportsClipboardContext'' (TOptional TBoolean),
       mem ''supportsCompletionsRequest'' (TOptional TBoolean),
       mem ''supportsConditionalBreakpoints'' (TOptional TBoolean),
       mem ''supportsConfigurationDoneRequest'' (TOptional TBoolean),
       mem ''supportsDataBreakpoints'' (TOptional TBoolean),
       mem ''supportsDelayedStackTraceLoading'' (TOptional TBoolean),
       mem ''supportsDisassembleRequest'' (TOptional TBoolean),
       mem ''supportsEvaluateForHovers'' (TOptional TBoolean),
       mem ''supportsExceptionFilterOptions'' (TOptional TBoolean),
       mem ''supportsExceptionInfoRequest'' (TOptional TBoolean),
       mem ''supportsExceptionOptions'' (TOptional TBoolean),
       mem ''supportsFunctionBreakpoints'' (TOptional TBoolean),
       mem ''supportsGotoTargetsRequest'' (TOptional TBoolean),
       mem ''supportsHitConditionalBreakpoints'' (TOptional TBoolean),
       mem ''supportsInstructionBreakpoints'' (TOptional TBoolean),
       mem ''supportsLoadedSourcesRequest'' (TOptional TBoolean),
       mem ''supportsLogPoints'' (TOptional TBoolean),
       mem ''supportsModulesRequest'' (TOptional TBoolean),
       mem ''supportsReadMemoryRequest'' (TOptional TBoolean),
       mem ''supportsRestartFrame'' (TOptional TBoolean),
       mem ''supportsRestartRequest'' (TOptional TBoolean),
       mem ''supportsSetExpression'' (TOptional TBoolean),
       mem ''supportsSetVariable'' (TOptional TBoolean),
       mem ''supportsSingleThreadExecutionRequests'' (TOptional TBoolean),
       mem ''supportsStepBack'' (TOptional TBoolean),
       mem ''supportsStepInTargetsRequest'' (TOptional TBoolean),
       mem ''supportsSteppingGranularity'' (TOptional TBoolean),
       mem ''supportsTerminateRequest'' (TOptional TBoolean),
       mem ''supportsTerminateThreadsRequest'' (TOptional TBoolean),
       mem ''supportsValueFormattingOptions'' (TOptional TBoolean),
       mem ''supportsWriteMemoryRequest'' (TOptional TBoolean)]\<rparr>"

definition CapabilitiesEvent_decl :: struct_decl where
  "CapabilitiesEvent_decl =
     \<lparr>sd_name = ''CapabilitiesEvent'', sd_base = Some ''Event'', sd_members =
      [mem ''capabilities'' (TStruct ''Capabilities'')]\<rparr>"

definition CompletionItem_decl :: struct_decl where
  "CompletionItem_decl =
     \<lparr>sd_name = ''CompletionItem'', sd_base = None, sd_members =
      [mem ''detail'' (TOptional TString), mem ''label'' TString, mem ''length'' (TOptional TInteger),
       mem ''selectionLength'' (TOptional TInteger), mem ''selectionStart'' (TOptional TInteger),
       mem ''sortText'' (TOptional TString), mem ''start'' (TOptional TInteger),
       mem ''text'' (TOptional TString), mem ''type'' (TOptional TString)]\<rparr>"

definition CompletionsResponse_decl :: struct_decl where
  "CompletionsResponse_decl =
     \<lparr>sd_name = ''CompletionsResponse'', sd_base = Some ''Response'', sd_members =
      [mem ''targets'' (TArray (TStruct ''CompletionItem''))]\<rparr>"

definition CompletionsRequest_decl :: struct_decl where
  "CompletionsRequest_decl =
     \<lparr>sd_name = ''CompletionsRequest'', sd_base = Some ''Request'', sd_members =
      [mem ''column'' TInteger, mem ''frameId'' (TOptional TInteger),
       mem ''line'' (TOptional TInteger), mem ''text'' TString]\<rparr>"

definition ConfigurationDoneResponse_decl :: struct_decl where
  "ConfigurationDoneResponse_decl =
     \<lparr>sd_name = ''ConfigurationDoneResponse'', sd_base = Some ''Response'', sd_members = []\<rparr>"

definition ConfigurationDoneRequest_decl :: struct_decl where
  "ConfigurationDoneRequest_decl =
     \<lparr>sd_name = ''ConfigurationDoneRequest'', sd_base = Some ''Request'', sd_members = []\<rparr>"

definition ContinueResponse_decl :: struct_decl where
  "ContinueResponse_decl =
     \<lparr>sd_name = ''ContinueResponse'', sd_base = Some ''Response'', sd_members =
      [mem ''allThreadsContinued'' (TOptional TBoolean)]\<rparr>"

definition ContinueRequest_decl :: struct_decl where
  "ContinueRequest_decl =
     \<lparr>sd_name = ''ContinueRequest'', sd_base = Some ''Request'', sd_members =
      [mem ''singleThread'' (TOptional TBoolean), mem ''threadId'' TInteger]\<rparr>"

definition ContinuedEvent_decl :: struct_decl where
  "ContinuedEvent_decl =
     \<lparr>sd_name = ''ContinuedEvent'', sd_base = Some ''Event'', sd_members =
      [mem ''allThreadsContinued'' (TOptional TBoolean), mem ''threadId'' TInteger]\<rparr>"

definition DataBreakpointInfoResponse_decl :: struct_decl where
  "DataBreakpointInfoResponse_decl =
     \<lparr>sd_name = ''DataBreakpointInfoResponse'', sd_base = Some ''Response'', sd_members =
      [mem ''accessTypes'' (TOptional (TArray TString)), mem ''canPersist'' (TOptional TBoolean),
       mem ''dataId'' (TVariant [TString, TNull]), mem ''description'' TString]\<rparr>"

definition DataBreakpointInfoRequest_decl :: struct_decl where
  "DataBreakpointInfoRequest_decl =
     \<lparr>sd_name = ''DataBreakpointInfoRequest'', sd_base = Some ''Request'', sd_members =
      [mem ''frameId'' (TOptional TInteger), mem ''mode'' (TOptional TString), mem ''name'' TString,
       mem ''variablesReference'' (TOptional TInteger)]\<rparr>"

definition DisassembledInstruction_decl :: struct_decl where
  "DisassembledInstruction_decl =
     \<lparr>sd_name = ''DisassembledInstruction'', sd_base = None, sd_members =
      [mem ''address'' TString, mem ''column'' (TOptional TInteger),
       mem ''endColumn'' (TOptional TInteger), mem ''endLine'' (TOptional TInteger),
       mem ''instruction'' TString, mem ''instructionBytes'' (TOptional TString),
       mem ''line'' (TOptional TInteger), mem ''location'' (TOptional (TStruct ''Source'')),
       mem ''presentationHint'' (TOptional TString), mem ''symbol'' (TOptional TString)]\<rparr>"

definition DisassembleResponse_decl :: struct_decl where
  "DisassembleResponse_decl =
     \<lparr>sd_name = ''DisassembleResponse'', sd_base = Some ''Response'', sd_members =
      [mem ''instructions'' (TArray (TStruct ''DisassembledInstruction''))]\<rparr>"

definition DisassembleRequest_decl :: struct_decl where
  "DisassembleRequest_decl =
     \<lparr>sd_name = ''DisassembleRequest'', sd_base = Some ''Request'', sd_members =
      [mem ''instructionCount'' TInteger, mem ''instructionOffset'' (TOptional TInteger),
       mem ''memoryReference'' TString, mem ''offset'' (TOptional TInteger),
       mem ''resolveSymbols'' (TOptional TBoolean)]\<rparr>"

definition DisconnectResponse_decl :: struct_decl where
  "DisconnectResponse_decl =
     \<lparr>sd_name = ''DisconnectResponse'', sd_base = Some ''Response'', sd_members = []\<rparr>"

definition DisconnectRequest_decl :: struct_decl where
  "DisconnectRequest_decl =
     \<lparr>sd_name = ''DisconnectRequest'', sd_base = Some ''Request'', sd_members =
      [mem ''restart'' (TOptional TBoolean), mem ''suspendDebuggee'' (TOptional TBoolean),
       mem ''terminateDebuggee'' (TOptional TBoolean)]\<rparr>"

definition Message_decl :: struct_decl where
  "Message_decl =
     \<lparr>sd_name = ''Message'', sd_base = None, sd_members =
      [mem ''format'' TString, mem ''id'' TInteger, mem ''sendTelemetry'' (TOptional TBoolean),
       mem ''showUser'' (TOptional TBoolean), mem ''url'' (TOptional TString),
       mem ''urlLabel'' (TOptional TString), mem ''variables'' (TOptional TObject)]\<rparr>"

definition ErrorResponse_decl :: struct_decl where
  "ErrorResponse_decl =
     \<lparr>sd_name = ''ErrorResponse'', sd_base = Some ''Response'', sd_members =
      [mem ''error'' (TOptional (TStruct ''Message''))]\<rparr>"

definition VariablePresentationHint_decl :: struct_decl where
  "VariablePresentationHint_decl =
     \<lparr>sd_name = ''VariablePresentationHint'', sd_base = None, sd_members =
      [mem ''attributes'' (TOptional (TArray TString)), mem ''kind'' (TOptional TString),
       mem ''lazy'' (TOptional TBoolean), mem ''visibility'' (TOptional TString)]\<rparr>"

definition EvaluateResponse_decl :: struct_decl where
  "EvaluateResponse_decl =
     \<lparr>sd_name = ''EvaluateResponse'', sd_base = Some ''Response'', sd_members =
      [mem ''indexedVariables'' (TOptional TInteger), mem ''memoryReference'' (TOptional TString),
       mem ''namedVariables'' (TOptional TInteger),
       mem ''presentationHint'' (TOptional (TStruct ''VariablePresentationHint'')),
       mem ''result'' TString, mem ''type'' (TOptional TString), mem ''variablesReference'' TInteger]\<rparr>"

definition ValueFormat_decl :: struct_decl where
  "ValueFormat_decl =
     \<lparr>sd_name = ''ValueFormat'', sd_base = None, sd_members =
      [mem ''hex'' (TOptional TBoolean)]\<rparr>"

definition EvaluateRequest_decl :: struct_decl where
  "EvaluateRequest_decl =
     \<lparr>sd_name = ''EvaluateRequest'', sd_base = Some ''Request'', sd_members =
      [mem ''context'' (TOptional TString), mem ''expression'' TString,
       mem ''format'' (TOptional (TStruct ''ValueFormat'')), mem ''frameId'' (TOptional TInteger)]\<rparr>"

definition ExceptionDetails_decl :: struct_decl where
  "ExceptionDetails_decl =
     \<lparr>sd_name = ''ExceptionDetails'', sd_base = None, sd_members =
      [mem ''evaluateName'' (TOptional TString), mem ''fullTypeName'' (TOptional TString),
       mem ''innerException'' (TOptional (TArray (TStruct ''ExceptionDetails''))),
       mem ''message'' (TOptional TString), mem ''stackTrace'' (TOptional TString),
       mem ''typeName'' (TOptional TString)]\<rparr>"

definition ExceptionInfoResponse_decl :: struct_decl where
  "ExceptionInfoResponse_decl =
     \<lparr>sd_name = ''ExceptionInfoResponse'', sd_base = Some ''Response'', sd_members =
      [mem_init ''breakMode'' TString (VString ''never''), mem ''description'' (TOptional TString),
       mem ''details'' (TOptional (TStruct ''ExceptionDetails'')), mem ''exceptionId'' TString]\<rparr>"

definition ExceptionInfoRequest_decl :: struct_decl where
  "ExceptionInfoRequest_decl =
     \<lparr>sd_name = ''ExceptionInfoRequest'', sd_base = Some ''Request'', sd_members =
      [mem ''threadId'' TInteger]\<rparr>"

definition ExitedEvent_decl :: struct_decl where
  "ExitedEvent_decl =
     \<lparr>sd_name = ''ExitedEvent'', sd_base = Some ''Event'', sd_members =
      [mem ''exitCode'' TInteger]\<rparr>"

definition GotoResponse_decl :: struct_decl where
  "GotoResponse_decl =
     \<lparr>sd_name = ''GotoResponse'', sd_base = Some ''Response'', sd_members = []\<rparr>"

definition GotoRequest_decl :: struct_decl where
  "GotoRequest_decl =
     \<lparr>sd_name = ''GotoRequest'', sd_base = Some ''Request'', sd_members =
      [mem ''targetId'' TInteger, mem ''threadId'' TInteger]\<rparr>"

definition GotoTarget_decl :: struct_decl where
  "GotoTarget_decl =
     \<lparr>sd_name = ''GotoTarget'', sd_base = None, sd_members =
      [mem ''column'' (TOptional TInteger), mem ''endColumn'' (TOptional TInteger),
       mem ''endLine'' (TOptional TInteger), mem ''id'' TInteger,
       mem ''instructionPointerReference'' (TOptional TString), mem ''label'' TString,
       mem ''line'' TInteger]\<rparr>"

definition GotoTargetsResponse_decl :: struct_decl where
  "GotoTargetsResponse_decl =
     \<lparr>sd_name = ''GotoTargetsResponse'', sd_base = Some ''Response'', sd_members =
      [mem ''targets'' (TArray (TStruct ''GotoTarget''))]\<rparr>"

definition GotoTargetsRequest_decl :: struct_decl where
  "GotoTargetsRequest_decl =
     \<lparr>sd_name = ''GotoTargetsRequest'', sd_base = Some ''Request'', sd_members =
      [mem ''column'' (TOptional TInteger), mem ''line'' TInteger, mem ''source'' (TStruct ''Source'')]\<rparr>"

definition InitializeResponse_decl :: struct_decl where
  "InitializeResponse_decl =
     \<lparr>sd_name = ''InitializeResponse'', sd_base = Some ''Response'', sd_members =
      [mem ''additionalModuleColumns'' (TOptional (TArray (TStruct ''ColumnDescriptor''))),
       mem ''breakpointModes'' (TOptional (TArray (TStruct ''BreakpointMode''))),
       mem ''completionTriggerCharacters'' (TOptional (TArray TString)),
       mem ''exceptionBreakpointFilters'' (TOptional (TArray (TStruct ''ExceptionBreakpointsFilter''))),
       mem ''supportSuspendDebuggee'' (TOptional TBoolean),
       mem ''supportTerminateDebuggee'' (TOptional TBoolean),
       mem ''supportedChecksumAlgorithms'' (TOptional (TArray TString)),
       mem ''supportsBreakpointLocationsRequest'' (TOptional TBoolean),
       mem ''supportsCancelRequest'' (TOptional TBoolean),
       mem ''supportsClipboardContext'' (TOptional TBoolean),
       mem ''supportsCompletionsRequest'' (TOptional TBoolean),
       mem ''supportsConditionalBreakpoints'' (TOptional TBoolean),
       mem ''supportsConfigurationDoneRequest'' (TOptional TBoolean),
       mem ''supportsDataBreakpoints'' (TOptional TBoolean),
       mem ''supportsDelayedStackTraceLoading'' (TOptional TBoolean),
       mem ''supportsDisassembleRequest'' (TOptional TBoolean),
       mem ''supportsEvaluateForHovers'' (TOptional TBoolean),
       mem ''supportsExceptionFilterOptions'' (TOptional TBoolean),
       mem ''supportsExceptionInfoRequest'' (TOptional TBoolean),
       mem ''supportsExceptionOptions'' (TOptional TBoolean),
       mem ''supportsFunctionBreakpoints'' (TOptional TBoolean),
       mem ''supportsGotoTargetsRequest'' (TOptional TBoolean),
       mem ''supportsHitConditionalBreakpoints'' (TOptional TBoolean),
       mem ''supportsInstructionBreakpoints'' (TOptional TBoolean),
       mem ''supportsLoadedSourcesRequest'' (TOptional TBoolean),
       mem ''supportsLogPoints'' (TOptional TBoolean),
       mem ''supportsModulesRequest'' (TOptional TBoolean),
       mem ''supportsReadMemoryRequest'' (TOptional TBoolean),
       mem ''supportsRestartFrame'' (TOptional TBoolean),
       mem ''supportsRestartRequest'' (TOptional TBoolean),
       mem ''supportsSetExpression'' (TOptional TBoolean),
       mem ''supportsSetVariable'' (TOptional TBoolean),
       mem ''supportsSingleThreadExecutionRequests'' (TOptional TBoolean),
       mem ''supportsStepBack'' (TOptional TBoolean),
       mem ''supportsStepInTargetsRequest'' (TOptional TBoolean),
       mem ''supportsSteppingGranularity'' (TOptional TBoolean),
       mem ''supportsTerminateRequest'' (TOptional TBoolean),
       mem ''supportsTerminateThreadsRequest'' (TOptional TBoolean),
       mem ''supportsValueFormattingOptions'' (TOptional TBoolean),
       mem ''supportsWriteMemoryRequest'' (TOptional TBoolean)]\<rparr>"

definition InitializeRequest_decl :: struct_decl where
  "InitializeRequest_decl =
     \<lparr>sd_name = ''InitializeRequest'', sd_base = Some ''Request'', sd_members =
      [mem ''adapterID'' TString, mem ''clientID'' (TOptional TString),
       mem ''clientName'' (TOptional TString), mem ''columnsStartAt1'' (TOptional TBoolean),
       mem ''linesStartAt1'' (TOptional TBoolean), mem ''locale'' (TOptional TString),
       mem ''pathFormat'' (TOptional TString),
       mem ''supportsArgsCanBeInterpretedByShell'' (TOptional TBoolean),
       mem ''supportsInvalidatedEvent'' (TOptional TBoolean),
       mem ''supportsMemoryEvent'' (TOptional TBoolean),
       mem ''supportsMemoryReferences'' (TOptional TBoolean),
       mem ''supportsProgressReporting'' (TOptional TBoolean),
       mem ''supportsRunInTerminalRequest'' (TOptional TBoolean),
       mem ''supportsStartDebuggingRequest'' (TOptional TBoolean),
       mem ''supportsVariablePaging'' (TOptional TBoolean),
       mem ''supportsVariableType'' (TOptional TBoolean)]\<rparr>"

definition InitializedEvent_decl :: struct_decl where
  "InitializedEvent_decl =
     \<lparr>sd_name = ''InitializedEvent'', sd_base = Some ''Event'', sd_members = []\<rparr>"

definition InvalidatedEvent_decl :: struct_decl where
  "InvalidatedEvent_decl =
     \<lparr>sd_name = ''InvalidatedEvent'', sd_base = Some ''Event'', sd_members =
      [mem ''areas'' (TOptional (TArray TString)), mem ''stackFrameId'' (TOptional TInteger),
       mem ''threadId'' (TOptional TInteger)]\<rparr>"

definition LaunchResponse_decl :: struct_decl where
  "LaunchResponse_decl =
     \<lparr>sd_name = ''LaunchResponse'', sd_base = Some ''Response'', sd_members = []\<rparr>"

definition LaunchRequest_decl :: struct_decl where
  "LaunchRequest_decl =
     \<lparr>sd_name = ''LaunchRequest'', sd_base = Some ''Request'', sd_members =
      [mem ''restart'' (TOptional (TVariant [TArray TAny, TBoolean, TInteger, TNull, TNumber, TObject, TString])),
       mem ''noDebug'' (TOptional TBoolean)]\<rparr>"

definition LoadedSourceEvent_decl :: struct_decl where
  "LoadedSourceEvent_decl =
     \<lparr>sd_name = ''LoadedSourceEvent'', sd_base = Some ''Event'', sd_members =
      [mem_init ''reason'' TString (VString ''new''), mem ''source'' (TStruct ''Source'')]\<rparr>"

definition LoadedSourcesResponse_decl :: struct_decl where
  "LoadedSourcesResponse_decl =
     \<lparr>sd_name = ''LoadedSourcesResponse'', sd_base = Some ''Response'', sd_members =
      [mem ''sources'' (TArray (TStruct ''Source''))]\<rparr>"

definition LoadedSourcesRequest_decl :: struct_decl where
  "LoadedSourcesRequest_decl =
     \<lparr>sd_name = ''LoadedSourcesRequest'', sd_base = Some ''Request'', sd_members = []\<rparr>"

definition MemoryEvent_decl :: struct_decl where
  "MemoryEvent_decl =
     \<lparr>sd_name = ''MemoryEvent'', sd_base = Some ''Event'', sd_members =
      [mem ''count'' TInteger, mem ''memoryReference'' TString, mem ''offset'' TInteger]\<rparr>"

definition Module_decl :: struct_decl where
  "Module_decl =
     \<lparr>sd_name = ''Module'', sd_base = None, sd_members =
      [mem ''addressRange'' (TOptional TString), mem ''dateTimeStamp'' (TOptional TString),
       mem ''id'' (TVariant [TInteger, TString]), mem ''isOptimized'' (TOptional TBoolean),
       mem ''isUserCode'' (TOptional TBoolean), mem ''name'' TString, mem ''path'' (TOptional TString),
       mem ''symbolFilePath'' (TOptional TString), mem ''symbolStatus'' (TOptional TString),
       mem ''version'' (TOptional TString)]\<rparr>"

definition ModuleEvent_decl :: struct_decl where
  "ModuleEvent_decl =
     \<lparr>sd_name = ''ModuleEvent'', sd_base = Some ''Event'', sd_members =
      [mem ''module'' (TStruct ''Module''), mem_init ''reason'' TString (VString ''new'')]\<rparr>"

definition ModulesResponse_decl :: struct_decl where
  "ModulesResponse_decl =
     \<lparr>sd_name = ''ModulesResponse'', sd_base = Some ''Response'', sd_members =
      [mem ''modules'' (TArray (TStruct ''Module'')), mem ''totalModules'' (TOptional TInteger)]\<rparr>"

definition ModulesRequest_decl :: struct_decl where
  "ModulesRequest_decl =
     \<lparr>sd_name = ''ModulesRequest'', sd_base = Some ''Request'', sd_members =
      [mem ''moduleCount'' (TOptional TInteger), mem ''startModule'' (TOptional TInteger)]\<rparr>"

definition NextResponse_decl :: struct_decl where
  "NextResponse_decl =
     \<lparr>sd_name = ''NextResponse'', sd_base = Some ''Response'', sd_members = []\<rparr>"

definition NextRequest_decl :: struct_decl where
  "NextRequest_decl =
     \<lparr>sd_name = ''NextRequest'', sd_base = Some ''Request'', sd_members =
      [mem ''granularity'' (TOptional TString), mem ''singleThread'' (TOptional TBoolean),
       mem ''threadId'' TInteger]\<rparr>"

definition OutputEvent_decl :: struct_decl where
  "OutputEvent_decl =
     \<lparr>sd_name = ''OutputEvent'', sd_base = Some ''Event'', sd_members =
      [mem ''category'' (TOptional TString), mem ''column'' (TOptional TInteger),
       mem ''data'' (TOptional (TVariant [TArray TAny, TBoolean, TInteger, TNull, TNumber, TObject, TString])),
       mem ''group'' (TOptional TString), mem ''line'' (TOptional TInteger), mem ''output'' TString,
       mem ''source'' (TOptional (TStruct ''Source'')), mem ''variablesReference'' (TOptional TInteger)]\<rparr>"

definition PauseResponse_decl :: struct_decl where
  "PauseResponse_decl =
     \<lparr>sd_name = ''PauseResponse'', sd_base = Some ''Response'', sd_members = []\<rparr>"

definition PauseRequest_decl :: struct_decl where
  "PauseRequest_decl =
     \<lparr>sd_name = ''PauseRequest'', sd_base = Some ''Request'', sd_members =
      [mem ''threadId'' TInteger]\<rparr>"

definition ProcessEvent_decl :: struct_decl where
  "ProcessEvent_decl =
     \<lparr>sd_name = ''ProcessEvent'', sd_base = Some ''Event'', sd_members =
      [mem ''isLocalProcess'' (TOptional TBoolean), mem ''name'' TString,
       mem ''pointerSize'' (TOptional TInteger), mem ''startMethod'' (TOptional TString),
       mem ''systemProcessId'' (TOptional TInteger)]\<rparr>"

definition ProgressEndEvent_decl :: struct_decl where
  "ProgressEndEvent_decl =
     \<lparr>sd_name = ''ProgressEndEvent'', sd_base = Some ''Event'', sd_members =
      [mem ''message'' (TOptional TString), mem ''progressId'' TString]\<rparr>"

definition ProgressStartEvent_decl :: struct_decl where
  "ProgressStartEvent_decl =
     \<lparr>sd_name = ''ProgressStartEvent'', sd_base = Some ''Event'', sd_members =
      [mem ''cancellable'' (TOptional TBoolean), mem ''message'' (TOptional TString),
       mem ''percentage'' (TOptional TNumber), mem ''progressId'' TString,
       mem ''requestId'' (TOptional TInteger), mem ''title'' TString]\<rparr>"

definition ProgressUpdateEvent_decl :: struct_decl where
  "ProgressUpdateEvent_decl =
     \<lparr>sd_name = ''ProgressUpdateEvent'', sd_base = Some ''Event'', sd_members =
      [mem ''message'' (TOptional TString), mem ''percentage'' (TOptional TNumber),
       mem ''progressId'' TString]\<rparr>"

definition ReadMemoryResponse_decl :: struct_decl where
  "ReadMemoryResponse_decl =
     \<lparr>sd_name = ''ReadMemoryResponse'', sd_base = Some ''Response'', sd_members =
      [mem ''address'' TString, mem ''data'' (TOptional TString),
       mem ''unreadableBytes'' (TOptional TInteger)]\<rparr>"

definition ReadMemoryRequest_decl :: struct_decl where
  "ReadMemoryRequest_decl =
     \<lparr>sd_name = ''ReadMemoryRequest'', sd_base = Some ''Request'', sd_members =
      [mem ''count'' TInteger, mem ''memoryReference'' TString, mem ''offset'' (TOptional TInteger)]\<rparr>"

definition RestartFrameResponse_decl :: struct_decl where
  "RestartFrameResponse_decl =
     \<lparr>sd_name = ''RestartFrameResponse'', sd_base = Some ''Response'', sd_members = []\<rparr>"

definition RestartFrameRequest_decl :: struct_decl where
  "RestartFrameRequest_decl =
     \<lparr>sd_name = ''RestartFrameRequest'', sd_base = Some ''Request'', sd_members =
      [mem ''frameId'' TInteger]\<rparr>"

definition RestartResponse_decl :: struct_decl where
  "RestartResponse_decl =
     \<lparr>sd_name = ''RestartResponse'', sd_base = Some ''Response'', sd_members = []\<rparr>"

definition RestartRequest_decl :: struct_decl where
  "RestartRequest_decl =
     \<lparr>sd_name = ''RestartRequest'', sd_base = Some ''Request'', sd_members =
      [mem ''arguments'' (TOptional TObject)]\<rparr>"

definition ReverseContinueResponse_decl :: struct_decl where
  "ReverseContinueResponse_decl =
     \<lparr>sd_name = ''ReverseContinueResponse'', sd_base = Some ''Response'', sd_members = []\<rparr>"

definition ReverseContinueRequest_decl :: struct_decl where
  "ReverseContinueRequest_decl =
     \<lparr>sd_name = ''ReverseContinueRequest'', sd_base = Some ''Request'', sd_members =
      [mem ''singleThread'' (TOptional TBoolean), mem ''threadId'' TInteger]\<rparr>"

definition RunInTerminalResponse_decl :: struct_decl where
  "RunInTerminalResponse_decl =
     \<lparr>sd_name = ''RunInTerminalResponse'', sd_base = Some ''Response'', sd_members =
      [mem ''processId'' (TOptional TInteger), mem ''shellProcessId'' (TOptional TInteger)]\<rparr>"

definition RunInTerminalRequest_decl :: struct_decl where
  "RunInTerminalRequest_decl =
     \<lparr>sd_name = ''RunInTerminalRequest'', sd_base = Some ''Request'', sd_members =
      [mem ''args'' (TArray TString), mem ''argsCanBeInterpretedByShell'' (TOptional TBoolean),
       mem ''cwd'' TString, mem ''env'' (TOptional TObject), mem ''kind'' (TOptional TString),
       mem ''title'' (TOptional TString)]\<rparr>"

definition Scope_decl :: struct_decl where
  "Scope_decl =
     \<lparr>sd_name = ''Scope'', sd_base = None, sd_members =
      [mem ''column'' (TOptional TInteger), mem ''endColumn'' (TOptional TInteger),
       mem ''endLine'' (TOptional TInteger), mem ''expensive'' TBoolean,
       mem ''indexedVariables'' (TOptional TInteger), mem ''line'' (TOptional TInteger),
       mem ''name'' TString, mem ''namedVariables'' (TOptional TInteger),
       mem ''presentationHint'' (TOptional TString), mem ''source'' (TOptional (TStruct ''Source'')),
       mem ''variablesReference'' TInteger]\<rparr>"

definition ScopesResponse_decl :: struct_decl where
  "ScopesResponse_decl =
     \<lparr>sd_name = ''ScopesResponse'', sd_base = Some ''Response'', sd_members =
      [mem ''scopes'' (TArray (TStruct ''Scope''))]\<rparr>"

definition ScopesRequest_decl :: struct_decl where
  "ScopesRequest_decl =
     \<lparr>sd_name = ''ScopesRequest'', sd_base = Some ''Request'', sd_members =
      [mem ''frameId'' TInteger]\<rparr>"

definition SetBreakpointsResponse_decl :: struct_decl where
  "SetBreakpointsResponse_decl =
     \<lparr>sd_name = ''SetBreakpointsResponse'', sd_base = Some ''Response'', sd_members =
      [mem ''breakpoints'' (TArray (TStruct ''Breakpoint''))]\<rparr>"

definition SourceBreakpoint_decl :: struct_decl where
  "SourceBreakpoint_decl =
     \<lparr>sd_name = ''SourceBreakpoint'', sd_base = None, sd_members =
      [mem ''column'' (TOptional TInteger), mem ''condition'' (TOptional TString),
       mem ''hitCondition'' (TOptional TString), mem ''line'' TInteger,
       mem ''logMessage'' (TOptional TString), mem ''mode'' (TOptional TString)]\<rparr>"

definition SetBreakpointsRequest_decl :: struct_decl where
  "SetBreakpointsRequest_decl =
     \<lparr>sd_name = ''SetBreakpointsRequest'', sd_base = Some ''Request'', sd_members =
      [mem ''breakpoints'' (TOptional (TArray (TStruct ''SourceBreakpoint''))),
       mem ''lines'' (TOptional (TArray TInteger)), mem ''source'' (TStruct ''Source''),
       mem ''sourceModified'' (TOptional TBoolean)]\<rparr>"

definition SetDataBreakpointsResponse_decl :: struct_decl where
  "SetDataBreakpointsResponse_decl =
     \<lparr>sd_name = ''SetDataBreakpointsResponse'', sd_base = Some ''Response'', sd_members =
      [mem ''breakpoints'' (TArray (TStruct ''Breakpoint''))]\<rparr>"

definition DataBreakpoint_decl :: struct_decl where
  "DataBreakpoint_decl =
     \<lparr>sd_name = ''DataBreakpoint'', sd_base = None, sd_members =
      [mem ''accessType'' (TOptional TString), mem ''condition'' (TOptional TString),
       mem ''dataId'' TString, mem ''hitCondition'' (TOptional TString)]\<rparr>"

definition SetDataBreakpointsRequest_decl :: struct_decl where
  "SetDataBreakpointsRequest_decl =
     \<lparr>sd_name = ''SetDataBreakpointsRequest'', sd_base = Some ''Request'', sd_members =
      [mem ''breakpoints'' (TArray (TStruct ''DataBreakpoint''))]\<rparr>"

definition SetExceptionBreakpointsResponse_decl :: struct_decl where
  "SetExceptionBreakpointsResponse_decl =
     \<lparr>sd_name = ''SetExceptionBreakpointsResponse'', sd_base = Some ''Response'', sd_members =
      [mem ''breakpoints'' (TOptional (TArray (TStruct ''Breakpoint'')))]\<rparr>"

definition ExceptionPathSegment_decl :: struct_decl where
  "ExceptionPathSegment_decl =
     \<lparr>sd_name = ''ExceptionPathSegment'', sd_base = None, sd_members =
      [mem ''names'' (TArray TString), mem ''negate'' (TOptional TBoolean)]\<rparr>"

definition ExceptionOptions_decl :: struct_decl where
  "ExceptionOptions_decl =
     \<lparr>sd_name = ''ExceptionOptions'', sd_base = None, sd_members =
      [mem_init ''breakMode'' TString (VString ''never''),
       mem ''path'' (TOptional (TArray (TStruct ''ExceptionPathSegment'')))]\<rparr>"

definition ExceptionFilterOptions_decl :: struct_decl where
  "ExceptionFilterOptions_decl =
     \<lparr>sd_name = ''ExceptionFilterOptions'', sd_base = None, sd_members =
      [mem ''condition'' (TOptional TString), mem ''filterId'' TString, mem ''mode'' (TOptional TString)]\<rparr>"

definition SetExceptionBreakpointsRequest_decl :: struct_decl where
  "SetExceptionBreakpointsRequest_decl =
     \<lparr>sd_name = ''SetExceptionBreakpointsRequest'', sd_base = Some ''Request'', sd_members =
      [mem ''exceptionOptions'' (TOptional (TArray (TStruct ''ExceptionOptions''))),
       mem ''filterOptions'' (TOptional (TArray (TStruct ''ExceptionFilterOptions''))),
       mem ''filters'' (TArray TString)]\<rparr>"

definition SetExpressionResponse_decl :: struct_decl where
  "SetExpressionResponse_decl =
     \<lparr>sd_name = ''SetExpressionResponse'', sd_base = Some ''Response'', sd_members =
      [mem ''indexedVariables'' (TOptional TInteger), mem ''memoryReference'' (TOptional TString),
       mem ''namedVariables'' (TOptional TInteger),
       mem ''presentationHint'' (TOptional (TStruct ''VariablePresentationHint'')),
       mem ''type'' (TOptional TString), mem ''value'' TString,
       mem ''variablesReference'' (TOptional TInteger)]\<rparr>"

definition SetExpressionRequest_decl :: struct_decl where
  "SetExpressionRequest_decl =
     \<lparr>sd_name = ''SetExpressionRequest'', sd_base = Some ''Request'', sd_members =
      [mem ''expression'' TString, mem ''format'' (TOptional (TStruct ''ValueFormat'')),
       mem ''frameId'' (TOptional TInteger), mem ''value'' TString]\<rparr>"

definition SetFunctionBreakpointsResponse_decl :: struct_decl where
  "SetFunctionBreakpointsResponse_decl =
     \<lparr>sd_name = ''SetFunctionBreakpointsResponse'', sd_base = Some ''Response'', sd_members =
      [mem ''breakpoints'' (TArray (TStruct ''Breakpoint''))]\<rparr>"

definition FunctionBreakpoint_decl :: struct_decl where
  "FunctionBreakpoint_decl =
     \<lparr>sd_name = ''FunctionBreakpoint'', sd_base = None, sd_members =
      [mem ''condition'' (TOptional TString), mem ''hitCondition'' (TOptional TString),
       mem ''name'' TString]\<rparr>"

definition SetFunctionBreakpointsRequest_decl :: struct_decl where
  "SetFunctionBreakpointsRequest_decl =
     \<lparr>sd_name = ''SetFunctionBreakpointsRequest'', sd_base = Some ''Request'', sd_members =
      [mem ''breakpoints'' (TArray (TStruct ''FunctionBreakpoint''))]\<rparr>"

definition SetInstructionBreakpointsResponse_decl :: struct_decl where
  "SetInstructionBreakpointsResponse_decl =
     \<lparr>sd_name = ''SetInstructionBreakpointsResponse'', sd_base = Some ''Response'', sd_members =
      [mem ''breakpoints'' (TArray (TStruct ''Breakpoint''))]\<rparr>"

definition InstructionBreakpoint_decl :: struct_decl where
  "InstructionBreakpoint_decl =
     \<lparr>sd_name = ''InstructionBreakpoint'', sd_base = None, sd_members =
      [mem ''condition'' (TOptional TString), mem ''hitCondition'' (TOptional TString),
       mem ''instructionReference'' TString, mem ''mode'' (TOptional TString),
       mem ''offset'' (TOptional TInteger)]\<rparr>"

definition SetInstructionBreakpointsRequest_decl :: struct_decl where
  "SetInstructionBreakpointsRequest_decl =
     \<lparr>sd_name = ''SetInstructionBreakpointsRequest'', sd_base = Some ''Request'', sd_members =
      [mem ''breakpoints'' (TArray (TStruct ''InstructionBreakpoint''))]\<rparr>"

definition SetVariableResponse_decl :: struct_decl where
  "SetVariableResponse_decl =
     \<lparr>sd_name = ''SetVariableResponse'', sd_base = Some ''Response'', sd_members =
      [mem ''indexedVariables'' (TOptional TInteger), mem ''memoryReference'' (TOptional TString),
       mem ''namedVariables'' (TOptional TInteger), mem ''type'' (TOptional TString),
       mem ''value'' TString, mem ''variablesReference'' (TOptional TInteger)]\<rparr>"

definition SetVariableRequest_decl :: struct_decl where
  "SetVariableRequest_decl =
     \<lparr>sd_name = ''SetVariableRequest'', sd_base = Some ''Request'', sd_members =
      [mem ''format'' (TOptional (TStruct ''ValueFormat'')), mem ''name'' TString,
       mem ''value'' TString, mem ''variablesReference'' TInteger]\<rparr>"

definition SourceResponse_decl :: struct_decl where
  "SourceResponse_decl =
     \<lparr>sd_name = ''SourceResponse'', sd_base = Some ''Response'', sd_members =
      [mem ''content'' TString, mem ''mimeType'' (TOptional TString)]\<rparr>"

definition SourceRequest_decl :: struct_decl where
  "SourceRequest_decl =
     \<lparr>sd_name = ''SourceRequest'', sd_base = Some ''Request'', sd_members =
      [mem ''source'' (TOptional (TStruct ''Source'')), mem ''sourceReference'' TInteger]\<rparr>"

definition StackFrame_decl :: struct_decl where
  "StackFrame_decl =
     \<lparr>sd_name = ''StackFrame'', sd_base = None, sd_members =
      [mem ''canRestart'' (TOptional TBoolean), mem ''column'' TInteger,
       mem ''endColumn'' (TOptional TInteger), mem ''endLine'' (TOptional TInteger),
       mem ''id'' TInteger, mem ''instructionPointerReference'' (TOptional TString),
       mem ''line'' TInteger, mem ''moduleId'' (TOptional (TVariant [TInteger, TString])),
       mem ''name'' TString, mem ''presentationHint'' (TOptional TString),
       mem ''source'' (TOptional (TStruct ''Source''))]\<rparr>"

definition StackTraceResponse_decl :: struct_decl where
  "StackTraceResponse_decl =
     \<lparr>sd_name = ''StackTraceResponse'', sd_base = Some ''Response'', sd_members =
      [mem ''stackFrames'' (TArray (TStruct ''StackFrame'')), mem ''totalFrames'' (TOptional TInteger)]\<rparr>"

definition StackFrameFormat_decl :: struct_decl where
  "StackFrameFormat_decl =
     \<lparr>sd_name = ''StackFrameFormat'', sd_base = Some ''ValueFormat'', sd_members =
      [mem ''includeAll'' (TOptional TBoolean), mem ''line'' (TOptional TBoolean),
       mem ''module'' (TOptional TBoolean), mem ''parameterNames'' (TOptional TBoolean),
       mem ''parameterTypes'' (TOptional TBoolean), mem ''parameterValues'' (TOptional TBoolean),
       mem ''parameters'' (TOptional TBoolean)]\<rparr>"

definition StackTraceRequest_decl :: struct_decl where
  "StackTraceRequest_decl =
     \<lparr>sd_name = ''StackTraceRequest'', sd_base = Some ''Request'', sd_members =
      [mem ''format'' (TOptional (TStruct ''StackFrameFormat'')), mem ''levels'' (TOptional TInteger),
       mem ''startFrame'' (TOptional TInteger), mem ''threadId'' TInteger]\<rparr>"

definition StartDebuggingResponse_decl :: struct_decl where
  "StartDebuggingResponse_decl =
     \<lparr>sd_name = ''StartDebuggingResponse'', sd_base = Some ''Response'', sd_members = []\<rparr>"

definition StartDebuggingRequest_decl :: struct_decl where
  "StartDebuggingRequest_decl =
     \<lparr>sd_name = ''StartDebuggingRequest'', sd_base = Some ''Request'', sd_members =
      [mem ''configuration'' TObject, mem_init ''request'' TString (VString ''launch'')]\<rparr>"

definition StepBackResponse_decl :: struct_decl where
  "StepBackResponse_decl =
     \<lparr>sd_name = ''StepBackResponse'', sd_base = Some ''Response'', sd_members = []\<rparr>"

definition StepBackRequest_decl :: struct_decl where
  "StepBackRequest_decl =
     \<lparr>sd_name = ''StepBackRequest'', sd_base = Some ''Request'', sd_members =
      [mem ''granularity'' (TOptional TString), mem ''singleThread'' (TOptional TBoolean),
       mem ''threadId'' TInteger]\<rparr>"

definition StepInResponse_decl :: struct_decl where
  "StepInResponse_decl =
     \<lparr>sd_name = ''StepInResponse'', sd_base = Some ''Response'', sd_members = []\<rparr>"

definition StepInRequest_decl :: struct_decl where
  "StepInRequest_decl =
     \<lparr>sd_name = ''StepInRequest'', sd_base = Some ''Request'', sd_members =
      [mem ''granularity'' (TOptional TString), mem ''singleThread'' (TOptional TBoolean),
       mem ''targetId'' (TOptional TInteger), mem ''threadId'' TInteger]\<rparr>"

definition StepInTarget_decl :: struct_decl where
  "StepInTarget_decl =
     \<lparr>sd_name = ''StepInTarget'', sd_base = None, sd_members =
      [mem ''column'' (TOptional TInteger), mem ''endColumn'' (TOptional TInteger),
       mem ''endLine'' (TOptional TInteger), mem ''id'' TInteger, mem ''label'' TString,
       mem ''line'' (TOptional TInteger)]\<rparr>"

definition StepInTargetsResponse_decl :: struct_decl where
  "StepInTargetsResponse_decl =
     \<lparr>sd_name = ''StepInTargetsResponse'', sd_base = Some ''Response'', sd_members =
      [mem ''targets'' (TArray (TStruct ''StepInTarget''))]\<rparr>"

definition StepInTargetsRequest_decl :: struct_decl where
  "StepInTargetsRequest_decl =
     \<lparr>sd_name = ''StepInTargetsRequest'', sd_base = Some ''Request'', sd_members =
      [mem ''frameId'' TInteger]\<rparr>"

definition StepOutResponse_decl :: struct_decl where
  "StepOutResponse_decl =
     \<lparr>sd_name = ''StepOutResponse'', sd_base = Some ''Response'', sd_members = []\<rparr>"

definition StepOutRequest_decl :: struct_decl where
  "StepOutRequest_decl =
     \<lparr>sd_name = ''StepOutRequest'', sd_base = Some ''Request'', sd_members =
      [mem ''granularity'' (TOptional TString), mem ''singleThread'' (TOptional TBoolean),
       mem ''threadId'' TInteger]\<rparr>"

definition StoppedEvent_decl :: struct_decl where
  "StoppedEvent_decl =
     \<lparr>sd_name = ''StoppedEvent'', sd_base = Some ''Event'', sd_members =
      [mem ''allThreadsStopped'' (TOptional TBoolean), mem ''description'' (TOptional TString),
       mem ''hitBreakpointIds'' (TOptional (TArray TInteger)),
       mem ''preserveFocusHint'' (TOptional TBoolean), mem ''reason'' TString,
       mem ''text'' (TOptional TString), mem ''threadId'' (TOptional TInteger)]\<rparr>"

definition TerminateResponse_decl :: struct_decl where
  "TerminateResponse_decl =
     \<lparr>sd_name = ''TerminateResponse'', sd_base = Some ''Response'', sd_members = []\<rparr>"

definition TerminateRequest_decl :: struct_decl where
  "TerminateRequest_decl =
     \<lparr>sd_name = ''TerminateRequest'', sd_base = Some ''Request'', sd_members =
      [mem ''restart'' (TOptional TBoolean)]\<rparr>"

definition TerminateThreadsResponse_decl :: struct_decl where
  "TerminateThreadsResponse_decl =
     \<lparr>sd_name = ''TerminateThreadsResponse'', sd_base = Some ''Response'', sd_members = []\<rparr>"

definition TerminateThreadsRequest_decl :: struct_decl where
  "TerminateThreadsRequest_decl =
     \<lparr>sd_name = ''TerminateThreadsRequest'', sd_base = Some ''Request'', sd_members =
      [mem ''threadIds'' (TOptional (TArray TInteger))]\<rparr>"

definition TerminatedEvent_decl :: struct_decl where
  "TerminatedEvent_decl =
     \<lparr>sd_name = ''TerminatedEvent'', sd_base = Some ''Event'', sd_members =
      [mem ''restart'' (TOptional (TVariant [TArray TAny, TBoolean, TInteger, TNull, TNumber, TObject, TString]))]\<rparr>"

definition ThreadEvent_decl :: struct_decl where
  "ThreadEvent_decl =
     \<lparr>sd_name = ''ThreadEvent'', sd_base = Some ''Event'', sd_members =
      [mem ''reason'' TString, mem ''threadId'' TInteger]\<rparr>"

definition Thread_decl :: struct_decl where
  "Thread_decl =
     \<lparr>sd_name = ''Thread'', sd_base = None, sd_members =
      [mem ''id'' TInteger, mem ''name'' TString]\<rparr>"

definition ThreadsResponse_decl :: struct_decl where
  "ThreadsResponse_decl =
     \<lparr>sd_name = ''ThreadsResponse'', sd_base = Some ''Response'', sd_members =
      [mem ''threads'' (TArray (TStruct ''Thread''))]\<rparr>"

definition ThreadsRequest_decl :: struct_decl where
  "ThreadsRequest_decl =
     \<lparr>sd_name = ''ThreadsRequest'', sd_base = Some ''Request'', sd_members = []\<rparr>"

definition Variable_decl :: struct_decl where
  "Variable_decl =
     \<lparr>sd_name = ''Variable'', sd_base = None, sd_members =
      [mem ''evaluateName'' (TOptional TString), mem ''indexedVariables'' (TOptional TInteger),
       mem ''memoryReference'' (TOptional TString), mem ''name'' TString,
       mem ''namedVariables'' (TOptional TInteger),
       mem ''presentationHint'' (TOptional (TStruct ''VariablePresentationHint'')),
       mem ''type'' (TOptional TString), mem ''value'' TString, mem ''variablesReference'' TInteger]\<rparr>"

definition VariablesResponse_decl :: struct_decl where
  "VariablesResponse_decl =
     \<lparr>sd_name = ''VariablesResponse'', sd_base = Some ''Response'', sd_members =
      [mem ''variables'' (TArray (TStruct ''Variable''))]\<rparr>"

definition VariablesRequest_decl :: struct_decl where
  "VariablesRequest_decl =
     \<lparr>sd_name = ''VariablesRequest'', sd_base = Some ''Request'', sd_members =
      [mem ''count'' (TOptional TInteger), mem ''filter'' (TOptional TString),
       mem ''format'' (TOptional (TStruct ''ValueFormat'')), mem ''start'' (TOptional TInteger),
       mem ''variablesReference'' TInteger]\<rparr>"

definition WriteMemoryResponse_decl :: struct_decl where
  "WriteMemoryResponse_decl =
     \<lparr>sd_name = ''WriteMemoryResponse'', sd_base = Some ''Response'', sd_members =
      [mem ''bytesWritten'' (TOptional TInteger), mem ''offset'' (TOptional TInteger)]\<rparr>"

definition WriteMemoryRequest_decl :: struct_decl where
  "WriteMemoryRequest_decl =
     \<lparr>sd_name = ''WriteMemoryRequest'', sd_base = Some ''Request'', sd_members =
      [mem ''allowPartial'' (TOptional TBoolean), mem ''data'' TString,
       mem ''memoryReference'' TString, mem ''offset'' (TOptional TInteger)]\<rparr>"

text \<open>All declarations, the latest first.\<close>

definition protocol_decls :: "struct_decl list" where
  "protocol_decls = rev
     [Request_decl, Response_decl, Event_decl, AttachResponse_decl, AttachRequest_decl, Checksum_decl,
      Source_decl, Breakpoint_decl, BreakpointEvent_decl, BreakpointLocation_decl,
      BreakpointLocationsResponse_decl, BreakpointLocationsRequest_decl, CancelResponse_decl,
      CancelRequest_decl, ColumnDescriptor_decl, BreakpointMode_decl, ExceptionBreakpointsFilter_decl,
      Capabilities_decl, CapabilitiesEvent_decl, CompletionItem_decl, CompletionsResponse_decl,
      CompletionsRequest_decl, ConfigurationDoneResponse_decl, ConfigurationDoneRequest_decl,
      ContinueResponse_decl, ContinueRequest_decl, ContinuedEvent_decl,
      DataBreakpointInfoResponse_decl, DataBreakpointInfoRequest_decl, DisassembledInstruction_decl,
      DisassembleResponse_decl, DisassembleRequest_decl, DisconnectResponse_decl,
      DisconnectRequest_decl, Message_decl, ErrorResponse_decl, VariablePresentationHint_decl,
      EvaluateResponse_decl, ValueFormat_decl, EvaluateRequest_decl, ExceptionDetails_decl,
      ExceptionInfoResponse_decl, ExceptionInfoRequest_decl, ExitedEvent_decl, GotoResponse_decl,
      GotoRequest_decl, GotoTarget_decl, GotoTargetsResponse_decl, GotoTargetsRequest_decl,
      InitializeResponse_decl, InitializeRequest_decl, InitializedEvent_decl, InvalidatedEvent_decl,
      LaunchResponse_decl, LaunchRequest_decl, LoadedSourceEvent_decl, LoadedSourcesResponse_decl,
      LoadedSourcesRequest_decl, MemoryEvent_decl, Module_decl, ModuleEvent_decl, ModulesResponse_decl,
      ModulesRequest_decl, NextResponse_decl, NextRequest_decl, OutputEvent_decl, PauseResponse_decl,
      PauseRequest_decl, ProcessEvent_decl, ProgressEndEvent_decl, ProgressStartEvent_decl,
      ProgressUpdateEvent_decl, ReadMemoryResponse_decl, ReadMemoryRequest_decl,
      RestartFrameResponse_decl, RestartFrameRequest_decl, RestartResponse_decl, RestartRequest_decl,
      ReverseContinueResponse_decl, ReverseContinueRequest_decl, RunInTerminalResponse_decl,
      RunInTerminalRequest_decl, Scope_decl, ScopesResponse_decl, ScopesRequest_decl,
      SetBreakpointsResponse_decl, SourceBreakpoint_decl, SetBreakpointsRequest_decl,
      SetDataBreakpointsResponse_decl, DataBreakpoint_decl, SetDataBreakpointsRequest_decl,
      SetExceptionBreakpointsResponse_decl, ExceptionPathSegment_decl, ExceptionOptions_decl,
      ExceptionFilterOptions_decl, SetExceptionBreakpointsRequest_decl, SetExpressionResponse_decl,
      SetExpressionRequest_decl, SetFunctionBreakpointsResponse_decl, FunctionBreakpoint_decl,
      SetFunctionBreakpointsRequest_decl, SetInstructionBreakpointsResponse_decl,
      InstructionBreakpoint_decl, SetInstructionBreakpointsRequest_decl, SetVariableResponse_decl,
      SetVariableRequest_decl, SourceResponse_decl, SourceRequest_decl, StackFrame_decl,
      StackTraceResponse_decl, StackFrameFormat_decl, StackTraceRequest_decl,
      StartDebuggingResponse_decl, StartDebuggingRequest_decl, StepBackResponse_decl,
      StepBackRequest_decl, StepInResponse_decl, StepInRequest_decl, StepInTarget_decl,
      StepInTargetsResponse_decl, StepInTargetsRequest_decl, StepOutResponse_decl, StepOutRequest_decl,
      StoppedEvent_decl, TerminateResponse_decl, TerminateRequest_decl, TerminateThreadsResponse_decl,
      TerminateThreadsRequest_decl, TerminatedEvent_decl, ThreadEvent_decl, Thread_decl,
      ThreadsResponse_decl, ThreadsRequest_decl, Variable_decl, VariablesResponse_decl,
      VariablesRequest_decl, WriteMemoryResponse_decl, WriteMemoryRequest_decl]"

text \<open>The \<^verbatim>\<open>using Response = ...\<close> of every request.\<close>

definition response_of :: "(string \<times> string) list" where
  "response_of =
     [(''AttachRequest'', ''AttachResponse''),
      (''BreakpointLocationsRequest'', ''BreakpointLocationsResponse''),
      (''CancelRequest'', ''CancelResponse''), (''CompletionsRequest'', ''CompletionsResponse''),
      (''ConfigurationDoneRequest'', ''ConfigurationDoneResponse''),
      (''ContinueRequest'', ''ContinueResponse''),
      (''DataBreakpointInfoRequest'', ''DataBreakpointInfoResponse''),
      (''DisassembleRequest'', ''DisassembleResponse''),
      (''DisconnectRequest'', ''DisconnectResponse''), (''EvaluateRequest'', ''EvaluateResponse''),
      (''ExceptionInfoRequest'', ''ExceptionInfoResponse''), (''GotoRequest'', ''GotoResponse''),
      (''GotoTargetsRequest'', ''GotoTargetsResponse''),
      (''InitializeRequest'', ''InitializeResponse''), (''LaunchRequest'', ''LaunchResponse''),
      (''LoadedSourcesRequest'', ''LoadedSourcesResponse''), (''ModulesRequest'', ''ModulesResponse''),
      (''NextRequest'', ''NextResponse''), (''PauseRequest'', ''PauseResponse''),
      (''ReadMemoryRequest'', ''ReadMemoryResponse''),
      (''RestartFrameRequest'', ''RestartFrameResponse''), (''RestartRequest'', ''RestartResponse''),
      (''ReverseContinueRequest'', ''ReverseContinueResponse''),
      (''RunInTerminalRequest'', ''RunInTerminalResponse''), (''ScopesRequest'', ''ScopesResponse''),
      (''SetBreakpointsRequest'', ''SetBreakpointsResponse''),
      (''SetDataBreakpointsRequest'', ''SetDataBreakpointsResponse''),
      (''SetExceptionBreakpointsRequest'', ''SetExceptionBreakpointsResponse''),
      (''SetExpressionRequest'', ''SetExpressionResponse''),
      (''SetFunctionBreakpointsRequest'', ''SetFunctionBreakpointsResponse''),
      (''SetInstructionBreakpointsRequest'', ''SetInstructionBreakpointsResponse''),
      (''SetVariableRequest'', ''SetVariableResponse''), (''SourceRequest'', ''SourceResponse''),
      (''StackTraceRequest'', ''StackTraceResponse''),
      (''StartDebuggingRequest'', ''StartDebuggingResponse''),
      (''StepBackRequest'', ''StepBackResponse''), (''StepInRequest'', ''StepInResponse''),
      (''StepInTargetsRequest'', ''StepInTargetsResponse''), (''StepOutRequest'', ''StepOutResponse''),
      (''TerminateRequest'', ''TerminateResponse''),
      (''TerminateThreadsRequest'', ''TerminateThreadsResponse''),
      (''ThreadsRequest'', ''ThreadsResponse''), (''VariablesRequest'', ''VariablesResponse''),
      (''WriteMemoryRequest'', ''WriteMemoryResponse'')]"

lemmas protocol_decl_defs [protocol_defs] =
  protocol_decls_def
  Request_decl_def
  Response_decl_def
  Event_decl_def
  AttachResponse_decl_def
  AttachRequest_decl_def
  Checksum_decl_def
  Source_decl_def
  Breakpoint_decl_def
  BreakpointEvent_decl_def
  BreakpointLocation_decl_def
  BreakpointLocationsResponse_decl_def
  BreakpointLocationsRequest_decl_def
  CancelResponse_decl_def
  CancelRequest_decl_def
  ColumnDescriptor_decl_def
  BreakpointMode_decl_def
  ExceptionBreakpointsFilter_decl_def
  Capabilities_decl_def
  CapabilitiesEvent_decl_def
  CompletionItem_decl_def
  CompletionsResponse_decl_def
  CompletionsRequest_decl_def
  ConfigurationDoneResponse_decl_def
  ConfigurationDoneRequest_decl_def
  ContinueResponse_decl_def
  ContinueRequest_decl_def
  ContinuedEvent_decl_def
  DataBreakpointInfoResponse_decl_def
  DataBreakpointInfoRequest_decl_def
  DisassembledInstruction_decl_def
  DisassembleResponse_decl_def
  DisassembleRequest_decl_def
  DisconnectResponse_decl_def
  DisconnectRequest_decl_def
  Message_decl_def
  ErrorResponse_decl_def
  VariablePresentationHint_decl_def
  EvaluateResponse_decl_def
  ValueFormat_decl_def
  EvaluateRequest_decl_def
  ExceptionDetails_decl_def
  ExceptionInfoResponse_decl_def
  ExceptionInfoRequest_decl_def
  ExitedEvent_decl_def
  GotoResponse_decl_def
  GotoRequest_decl_def
  GotoTarget_decl_def
  GotoTargetsResponse_decl_def
  GotoTargetsRequest_decl_def
  InitializeResponse_decl_def
  InitializeRequest_decl_def
  InitializedEvent_decl_def
  InvalidatedEvent_decl_def
  LaunchResponse_decl_def
  LaunchRequest_decl_def
  LoadedSourceEvent_decl_def
  LoadedSourcesResponse_decl_def
  LoadedSourcesRequest_decl_def
  MemoryEvent_decl_def
  Module_decl_def
  ModuleEvent_decl_def
  ModulesResponse_decl_def
  ModulesRequest_decl_def
  NextResponse_decl_def
  NextRequest_decl_def
  OutputEvent_decl_def
  PauseResponse_decl_def
  PauseRequest_decl_def
  ProcessEvent_decl_def
  ProgressEndEvent_decl_def
  ProgressStartEvent_decl_def
  ProgressUpdateEvent_decl_def
  ReadMemoryResponse_decl_def
  ReadMemoryRequest_decl_def
  RestartFrameResponse_decl_def
  RestartFrameRequest_decl_def
  RestartResponse_decl_def
  RestartRequest_decl_def
  ReverseContinueResponse_decl_def
  ReverseContinueRequest_decl_def
  RunInTerminalResponse_decl_def
  RunInTerminalRequest_decl_def
  Scope_decl_def
  ScopesResponse_decl_def
  ScopesRequest_decl_def
  SetBreakpointsResponse_decl_def
  SourceBreakpoint_decl_def
  SetBreakpointsRequest_decl_def
  SetDataBreakpointsResponse_decl_def
  DataBreakpoint_decl_def
  SetDataBreakpointsRequest_decl_def
  SetExceptionBreakpointsResponse_decl_def
  ExceptionPathSegment_decl_def
  ExceptionOptions_decl_def
  ExceptionFilterOptions_decl_def
  SetExceptionBreakpointsRequest_decl_def
  SetExpressionResponse_decl_def
  SetExpressionRequest_decl_def
  SetFunctionBreakpointsResponse_decl_def
  FunctionBreakpoint_decl_def
  SetFunctionBreakpointsRequest_decl_def
  SetInstructionBreakpointsResponse_decl_def
  InstructionBreakpoint_decl_def
  SetInstructionBreakpointsRequest_decl_def
  SetVariableResponse_decl_def
  SetVariableRequest_decl_def
  SourceResponse_decl_def
  SourceRequest_decl_def
  StackFrame_decl_def
  StackTraceResponse_decl_def
  StackFrameFormat_decl_def
  StackTraceRequest_decl_def
  StartDebuggingResponse_decl_def
  StartDebuggingRequest_decl_def
  StepBackResponse_decl_def
  StepBackRequest_decl_def
  StepInResponse_decl_def
  StepInRequest_decl_def
  StepInTarget_decl_def
  StepInTargetsResponse_decl_def
  StepInTargetsRequest_decl_def
  StepOutResponse_decl_def
  StepOutRequest_decl_def
  StoppedEvent_decl_def
  TerminateResponse_decl_def
  TerminateRequest_decl_def
  TerminateThreadsResponse_decl_def
  TerminateThreadsRequest_decl_def
  TerminatedEvent_decl_def
  ThreadEvent_decl_def
  Thread_decl_def
  ThreadsResponse_decl_def
  ThreadsRequest_decl_def
  Variable_decl_def
  VariablesResponse_decl_def
  VariablesRequest_decl_def
  WriteMemoryResponse_decl_def
  WriteMemoryRequest_decl_def

end
