(* ===== verification/ProtocolInfo.thy ===== *)
theory ProtocolInfo
  imports ProtocolTypes
begin

section \<open>The type information of the protocol\<close>

text \<open>
  \<^verbatim>\<open>src/protocol_types.cpp\<close>, \<^verbatim>\<open>protocol_events.cpp\<close>, \<^verbatim>\<open>protocol_requests.cpp\<close> and \<^verbatim>\<open>protocol_response.cpp\<close>:
  one definition per \<^verbatim>\<open>DAP_IMPLEMENT_STRUCT_TYPEINFO\<close>, with the name of the message and the pairs of
  a member and its name in the serialised form.
\<close>

subsection \<open>Types\<close>

definition Checksum_info :: struct_info where
  "Checksum_info =
     \<lparr>ti_struct = ''Checksum'', ti_name = '''', ti_base = None, ti_fields =
      [(''algorithm'', ''algorithm''), (''checksum'', ''checksum'')]\<rparr>"

definition Source_info :: struct_info where
  "Source_info =
     \<lparr>ti_struct = ''Source'', ti_name = '''', ti_base = None, ti_fields =
      [(''adapterData'', ''adapterData''), (''checksums'', ''checksums''), (''name'', ''name''),
       (''origin'', ''origin''), (''path'', ''path''), (''presentationHint'', ''presentationHint''),
       (''sourceReference'', ''sourceReference''), (''sources'', ''sources'')]\<rparr>"

definition Breakpoint_info :: struct_info where
  "Breakpoint_info =
     \<lparr>ti_struct = ''Breakpoint'', ti_name = '''', ti_base = None, ti_fields =
      [(''column'', ''column''), (''endColumn'', ''endColumn''), (''endLine'', ''endLine''),
       (''id'', ''id''), (''instructionReference'', ''instructionReference''), (''line'', ''line''),
       (''message'', ''message''), (''offset'', ''offset''), (''reason'', ''reason''),
       (''source'', ''source''), (''verified'', ''verified'')]\<rparr>"

definition BreakpointLocation_info :: struct_info where
  "BreakpointLocation_info =
     \<lparr>ti_struct = ''BreakpointLocation'', ti_name = '''', ti_base = None, ti_fields =
      [(''column'', ''column''), (''endColumn'', ''endColumn''), (''endLine'', ''endLine''),
       (''line'', ''line'')]\<rparr>"

definition ColumnDescriptor_info :: struct_info where
  "ColumnDescriptor_info =
     \<lparr>ti_struct = ''ColumnDescriptor'', ti_name = '''', ti_base = None, ti_fields =
      [(''attributeName'', ''attributeName''), (''format'', ''format''), (''label'', ''label''),
       (''type'', ''type''), (''width'', ''width'')]\<rparr>"

definition BreakpointMode_info :: struct_info where
  "BreakpointMode_info =
     \<lparr>ti_struct = ''BreakpointMode'', ti_name = '''', ti_base = None, ti_fields =
      [(''appliesTo'', ''appliesTo''), (''description'', ''description''), (''label'', ''label''),
       (''mode'', ''mode'')]\<rparr>"

definition ExceptionBreakpointsFilter_info :: struct_info where
  "ExceptionBreakpointsFilter_info =
     \<lparr>ti_struct = ''ExceptionBreakpointsFilter'', ti_name = '''', ti_base = None, ti_fields =
      [(''conditionDescription'', ''conditionDescription''), (''def'', ''default''),
       (''description'', ''description''), (''filter'', ''filter''), (''label'', ''label''),
       (''supportsCondition'', ''supportsCondition'')]\<rparr>"

definition Capabilities_info :: struct_info where
  "Capabilities_info =
     \<lparr>ti_struct = ''Capabilities'', ti_name = '''', ti_base = None, ti_fields =
      [(''additionalModuleColumns'', ''additionalModuleColumns''),
       (''breakpointModes'', ''breakpointModes''),
       (''completionTriggerCharacters'', ''completionTriggerCharacters''),
       (''exceptionBreakpointFilters'', ''exceptionBreakpointFilters''),
       (''supportSuspendDebuggee'', ''supportSuspendDebuggee''),
       (''supportTerminateDebuggee'', ''supportTerminateDebuggee''),
       (''supportedChecksumAlgorithms'', ''supportedChecksumAlgorithms''),
       (''supportsBreakpointLocationsRequest'', ''supportsBreakpointLocationsRequest''),
       (''supportsCancelRequest'', ''supportsCancelRequest''),
       (''supportsClipboardContext'', ''supportsClipboardContext''),
       (''supportsCompletionsRequest'', ''supportsCompletionsRequest''),
       (''supportsConditionalBreakpoints'', ''supportsConditionalBreakpoints''),
       (''supportsConfigurationDoneRequest'', ''supportsConfigurationDoneRequest''),
       (''supportsDataBreakpoints'', ''supportsDataBreakpoints''),
       (''supportsDelayedStackTraceLoading'', ''supportsDelayedStackTraceLoading''),
       (''supportsDisassembleRequest'', ''supportsDisassembleRequest''),
       (''supportsEvaluateForHovers'', ''supportsEvaluateForHovers''),
       (''supportsExceptionFilterOptions'', ''supportsExceptionFilterOptions''),
       (''supportsExceptionInfoRequest'', ''supportsExceptionInfoRequest''),
       (''supportsExceptionOptions'', ''supportsExceptionOptions''),
       (''supportsFunctionBreakpoints'', ''supportsFunctionBreakpoints''),
       (''supportsGotoTargetsRequest'', ''supportsGotoTargetsRequest''),
       (''supportsHitConditionalBreakpoints'', ''supportsHitConditionalBreakpoints''),
       (''supportsInstructionBreakpoints'', ''supportsInstructionBreakpoints''),
       (''supportsLoadedSourcesRequest'', ''supportsLoadedSourcesRequest''),
       (''supportsLogPoints'', ''supportsLogPoints''),
       (''supportsModulesRequest'', ''supportsModulesRequest''),
       (''supportsReadMemoryRequest'', ''supportsReadMemoryRequest''),
       (''supportsRestartFrame'', ''supportsRestartFrame''),
       (''supportsRestartRequest'', ''supportsRestartRequest''),
       (''supportsSetExpression'', ''supportsSetExpression''),
       (''supportsSetVariable'', ''supportsSetVariable''),
       (''supportsSingleThreadExecutionRequests'', ''supportsSingleThreadExecutionRequests''),
       (''supportsStepBack'', ''supportsStepBack''),
       (''supportsStepInTargetsRequest'', ''supportsStepInTargetsRequest''),
       (''supportsSteppingGranularity'', ''supportsSteppingGranularity''),
       (''supportsTerminateRequest'', ''supportsTerminateRequest''),
       (''supportsTerminateThreadsRequest'', ''supportsTerminateThreadsRequest''),
       (''supportsValueFormattingOptions'', ''supportsValueFormattingOptions''),
       (''supportsWriteMemoryRequest'', ''supportsWriteMemoryRequest'')]\<rparr>"

definition CompletionItem_info :: struct_info where
  "CompletionItem_info =
     \<lparr>ti_struct = ''CompletionItem'', ti_name = '''', ti_base = None, ti_fields =
      [(''detail'', ''detail''), (''label'', ''label''), (''length'', ''length''),
       (''selectionLength'', ''selectionLength''), (''selectionStart'', ''selectionStart''),
       (''sortText'', ''sortText''), (''start'', ''start''), (''text'', ''text''), (''type'', ''type'')]\<rparr>"

definition DisassembledInstruction_info :: struct_info where
  "DisassembledInstruction_info =
     \<lparr>ti_struct = ''DisassembledInstruction'', ti_name = '''', ti_base = None, ti_fields =
      [(''address'', ''address''), (''column'', ''column''), (''endColumn'', ''endColumn''),
       (''endLine'', ''endLine''), (''instruction'', ''instruction''),
       (''instructionBytes'', ''instructionBytes''), (''line'', ''line''),
       (''location'', ''location''), (''presentationHint'', ''presentationHint''),
       (''symbol'', ''symbol'')]\<rparr>"

definition Message_info :: struct_info where
  "Message_info =
     \<lparr>ti_struct = ''Message'', ti_name = '''', ti_base = None, ti_fields =
      [(''format'', ''format''), (''id'', ''id''), (''sendTelemetry'', ''sendTelemetry''),
       (''showUser'', ''showUser''), (''url'', ''url''), (''urlLabel'', ''urlLabel''),
       (''variables'', ''variables'')]\<rparr>"

definition VariablePresentationHint_info :: struct_info where
  "VariablePresentationHint_info =
     \<lparr>ti_struct = ''VariablePresentationHint'', ti_name = '''', ti_base = None, ti_fields =
      [(''attributes'', ''attributes''), (''kind'', ''kind''), (''lazy'', ''lazy''),
       (''visibility'', ''visibility'')]\<rparr>"

definition ValueFormat_info :: struct_info where
  "ValueFormat_info =
     \<lparr>ti_struct = ''ValueFormat'', ti_name = '''', ti_base = None, ti_fields =
      [(''hex'', ''hex'')]\<rparr>"

definition ExceptionDetails_info :: struct_info where
  "ExceptionDetails_info =
     \<lparr>ti_struct = ''ExceptionDetails'', ti_name = '''', ti_base = None, ti_fields =
      [(''evaluateName'', ''evaluateName''), (''fullTypeName'', ''fullTypeName''),
       (''innerException'', ''innerException''), (''message'', ''message''),
       (''stackTrace'', ''stackTrace''), (''typeName'', ''typeName'')]\<rparr>"

definition GotoTarget_info :: struct_info where
  "GotoTarget_info =
     \<lparr>ti_struct = ''GotoTarget'', ti_name = '''', ti_base = None, ti_fields =
      [(''column'', ''column''), (''endColumn'', ''endColumn''), (''endLine'', ''endLine''),
       (''id'', ''id''), (''instructionPointerReference'', ''instructionPointerReference''),
       (''label'', ''label''), (''line'', ''line'')]\<rparr>"

definition Module_info :: struct_info where
  "Module_info =
     \<lparr>ti_struct = ''Module'', ti_name = '''', ti_base = None, ti_fields =
      [(''addressRange'', ''addressRange''), (''dateTimeStamp'', ''dateTimeStamp''), (''id'', ''id''),
       (''isOptimized'', ''isOptimized''), (''isUserCode'', ''isUserCode''), (''name'', ''name''),
       (''path'', ''path''), (''symbolFilePath'', ''symbolFilePath''),
       (''symbolStatus'', ''symbolStatus''), (''version'', ''version'')]\<rparr>"

definition Scope_info :: struct_info where
  "Scope_info =
     \<lparr>ti_struct = ''Scope'', ti_name = '''', ti_base = None, ti_fields =
      [(''column'', ''column''), (''endColumn'', ''endColumn''), (''endLine'', ''endLine''),
       (''expensive'', ''expensive''), (''indexedVariables'', ''indexedVariables''),
       (''line'', ''line''), (''name'', ''name''), (''namedVariables'', ''namedVariables''),
       (''presentationHint'', ''presentationHint''), (''source'', ''source''),
       (''variablesReference'', ''variablesReference'')]\<rparr>"

definition SourceBreakpoint_info :: struct_info where
  "SourceBreakpoint_info =
     \<lparr>ti_struct = ''SourceBreakpoint'', ti_name = '''', ti_base = None, ti_fields =
      [(''column'', ''column''), (''condition'', ''condition''), (''hitCondition'', ''hitCondition''),
       (''line'', ''line''), (''logMessage'', ''logMessage''), (''mode'', ''mode'')]\<rparr>"

definition DataBreakpoint_info :: struct_info where
  "DataBreakpoint_info =
     \<lparr>ti_struct = ''DataBreakpoint'', ti_name = '''', ti_base = None, ti_fields =
      [(''accessType'', ''accessType''), (''condition'', ''condition''), (''dataId'', ''dataId''),
       (''hitCondition'', ''hitCondition'')]\<rparr>"

definition ExceptionPathSegment_info :: struct_info where
  "ExceptionPathSegment_info =
     \<lparr>ti_struct = ''ExceptionPathSegment'', ti_name = '''', ti_base = None, ti_fields =
      [(''names'', ''names''), (''negate'', ''negate'')]\<rparr>"

definition ExceptionOptions_info :: struct_info where
  "ExceptionOptions_info =
     \<lparr>ti_struct = ''ExceptionOptions'', ti_name = '''', ti_base = None, ti_fields =
      [(''breakMode'', ''breakMode''), (''path'', ''path'')]\<rparr>"

definition ExceptionFilterOptions_info :: struct_info where
  "ExceptionFilterOptions_info =
     \<lparr>ti_struct = ''ExceptionFilterOptions'', ti_name = '''', ti_base = None, ti_fields =
      [(''condition'', ''condition''), (''filterId'', ''filterId''), (''mode'', ''mode'')]\<rparr>"

definition FunctionBreakpoint_info :: struct_info where
  "FunctionBreakpoint_info =
     \<lparr>ti_struct = ''FunctionBreakpoint'', ti_name = '''', ti_base = None, ti_fields =
      [(''condition'', ''condition''), (''hitCondition'', ''hitCondition''), (''name'', ''name'')]\<rparr>"

definition InstructionBreakpoint_info :: struct_info where
  "InstructionBreakpoint_info =
     \<lparr>ti_struct = ''InstructionBreakpoint'', ti_name = '''', ti_base = None, ti_fields =
      [(''condition'', ''condition''), (''hitCondition'', ''hitCondition''),
       (''instructionReference'', ''instructionReference''), (''mode'', ''mode''),
       (''offset'', ''offset'')]\<rparr>"

definition StackFrame_info :: struct_info where
  "StackFrame_info =
     \<lparr>ti_struct = ''StackFrame'', ti_name = '''', ti_base = None, ti_fields =
      [(''canRestart'', ''canRestart''), (''column'', ''column''), (''endColumn'', ''endColumn''),
       (''endLine'', ''endLine''), (''id'', ''id''),
       (''instructionPointerReference'', ''instructionPointerReference''), (''line'', ''line''),
       (''moduleId'', ''moduleId''), (''name'', ''name''),
       (''presentationHint'', ''presentationHint''), (''source'', ''source'')]\<rparr>"

definition StackFrameFormat_info :: struct_info where
  "StackFrameFormat_info =
     \<lparr>ti_struct = ''StackFrameFormat'', ti_name = '''', ti_base = None, ti_fields =
      [(''includeAll'', ''includeAll''), (''line'', ''line''), (''module'', ''module''),
       (''parameterNames'', ''parameterNames''), (''parameterTypes'', ''parameterTypes''),
       (''parameterValues'', ''parameterValues''), (''parameters'', ''parameters'')]\<rparr>"

definition StepInTarget_info :: struct_info where
  "StepInTarget_info =
     \<lparr>ti_struct = ''StepInTarget'', ti_name = '''', ti_base = None, ti_fields =
      [(''column'', ''column''), (''endColumn'', ''endColumn''), (''endLine'', ''endLine''),
       (''id'', ''id''), (''label'', ''label''), (''line'', ''line'')]\<rparr>"

definition Thread_info :: struct_info where
  "Thread_info =
     \<lparr>ti_struct = ''Thread'', ti_name = '''', ti_base = None, ti_fields =
      [(''id'', ''id''), (''name'', ''name'')]\<rparr>"

definition Variable_info :: struct_info where
  "Variable_info =
     \<lparr>ti_struct = ''Variable'', ti_name = '''', ti_base = None, ti_fields =
      [(''evaluateName'', ''evaluateName''), (''indexedVariables'', ''indexedVariables''),
       (''memoryReference'', ''memoryReference''), (''name'', ''name''),
       (''namedVariables'', ''namedVariables''), (''presentationHint'', ''presentationHint''),
       (''type'', ''type''), (''value'', ''value''), (''variablesReference'', ''variablesReference'')]\<rparr>"

definition protocol_types_infos :: "struct_info list" where
  "protocol_types_infos =
     [Checksum_info, Source_info, Breakpoint_info, BreakpointLocation_info, ColumnDescriptor_info,
      BreakpointMode_info, ExceptionBreakpointsFilter_info, Capabilities_info, CompletionItem_info,
      DisassembledInstruction_info, Message_info, VariablePresentationHint_info, ValueFormat_info,
      ExceptionDetails_info, GotoTarget_info, Module_info, Scope_info, SourceBreakpoint_info,
      DataBreakpoint_info, ExceptionPathSegment_info, ExceptionOptions_info,
      ExceptionFilterOptions_info, FunctionBreakpoint_info, InstructionBreakpoint_info,
      StackFrame_info, StackFrameFormat_info, StepInTarget_info, Thread_info, Variable_info]"

subsection \<open>Events\<close>

definition BreakpointEvent_info :: struct_info where
  "BreakpointEvent_info =
     \<lparr>ti_struct = ''BreakpointEvent'', ti_name = ''breakpoint'', ti_base = None, ti_fields =
      [(''breakpoint'', ''breakpoint''), (''reason'', ''reason'')]\<rparr>"

definition CapabilitiesEvent_info :: struct_info where
  "CapabilitiesEvent_info =
     \<lparr>ti_struct = ''CapabilitiesEvent'', ti_name = ''capabilities'', ti_base = None, ti_fields =
      [(''capabilities'', ''capabilities'')]\<rparr>"

definition ContinuedEvent_info :: struct_info where
  "ContinuedEvent_info =
     \<lparr>ti_struct = ''ContinuedEvent'', ti_name = ''continued'', ti_base = None, ti_fields =
      [(''allThreadsContinued'', ''allThreadsContinued''), (''threadId'', ''threadId'')]\<rparr>"

definition ExitedEvent_info :: struct_info where
  "ExitedEvent_info =
     \<lparr>ti_struct = ''ExitedEvent'', ti_name = ''exited'', ti_base = None, ti_fields =
      [(''exitCode'', ''exitCode'')]\<rparr>"

definition InitializedEvent_info :: struct_info where
  "InitializedEvent_info =
     \<lparr>ti_struct = ''InitializedEvent'', ti_name = ''initialized'', ti_base = None, ti_fields = []\<rparr>"

definition InvalidatedEvent_info :: struct_info where
  "InvalidatedEvent_info =
     \<lparr>ti_struct = ''InvalidatedEvent'', ti_name = ''invalidated'', ti_base = None, ti_fields =
      [(''areas'', ''areas''), (''stackFrameId'', ''stackFrameId''), (''threadId'', ''threadId'')]\<rparr>"

definition LoadedSourceEvent_info :: struct_info where
  "LoadedSourceEvent_info =
     \<lparr>ti_struct = ''LoadedSourceEvent'', ti_name = ''loadedSource'', ti_base = None, ti_fields =
      [(''reason'', ''reason''), (''source'', ''source'')]\<rparr>"

definition MemoryEvent_info :: struct_info where
  "MemoryEvent_info =
     \<lparr>ti_struct = ''MemoryEvent'', ti_name = ''memory'', ti_base = None, ti_fields =
      [(''count'', ''count''), (''memoryReference'', ''memoryReference''), (''offset'', ''offset'')]\<rparr>"

definition ModuleEvent_info :: struct_info where
  "ModuleEvent_info =
     \<lparr>ti_struct = ''ModuleEvent'', ti_name = ''module'', ti_base = None, ti_fields =
      [(''module'', ''module''), (''reason'', ''reason'')]\<rparr>"

definition OutputEvent_info :: struct_info where
  "OutputEvent_info =
     \<lparr>ti_struct = ''OutputEvent'', ti_name = ''output'', ti_base = None, ti_fields =
      [(''category'', ''category''), (''column'', ''column''), (''data'', ''data''),
       (''group'', ''group''), (''line'', ''line''), (''output'', ''output''),
       (''source'', ''source''), (''variablesReference'', ''variablesReference'')]\<rparr>"

definition ProcessEvent_info :: struct_info where
  "ProcessEvent_info =
     \<lparr>ti_struct = ''ProcessEvent'', ti_name = ''process'', ti_base = None, ti_fields =
      [(''isLocalProcess'', ''isLocalProcess''), (''name'', ''name''),
       (''pointerSize'', ''pointerSize''), (''startMethod'', ''startMethod''),
       (''systemProcessId'', ''systemProcessId'')]\<rparr>"

definition ProgressEndEvent_info :: struct_info where
  "ProgressEndEvent_info =
     \<lparr>ti_struct = ''ProgressEndEvent'', ti_name = ''progressEnd'', ti_base = None, ti_fields =
      [(''message'', ''message''), (''progressId'', ''progressId'')]\<rparr>"

definition ProgressStartEvent_info :: struct_info where
  "ProgressStartEvent_info =
     \<lparr>ti_struct = ''ProgressStartEvent'', ti_name = ''progressStart'', ti_base = None, ti_fields =
      [(''cancellable'', ''cancellable''), (''message'', ''message''),
       (''percentage'', ''percentage''), (''progressId'', ''progressId''),
       (''requestId'', ''requestId''), (''title'', ''title'')]\<rparr>"

definition ProgressUpdateEvent_info :: struct_info where
  "ProgressUpdateEvent_info =
     \<lparr>ti_struct = ''ProgressUpdateEvent'', ti_name = ''progressUpdate'', ti_base = None, ti_fields =
      [(''message'', ''message''), (''percentage'', ''percentage''), (''progressId'', ''progressId'')]\<rparr>"

definition StoppedEvent_info :: struct_info where
  "StoppedEvent_info =
     \<lparr>ti_struct = ''StoppedEvent'', ti_name = ''stopped'', ti_base = None, ti_fields =
      [(''allThreadsStopped'', ''allThreadsStopped''), (''description'', ''description''),
       (''hitBreakpointIds'', ''hitBreakpointIds''), (''preserveFocusHint'', ''preserveFocusHint''),
       (''reason'', ''reason''), (''text'', ''text''), (''threadId'', ''threadId'')]\<rparr>"

definition TerminatedEvent_info :: struct_info where
  "TerminatedEvent_info =
     \<lparr>ti_struct = ''TerminatedEvent'', ti_name = ''terminated'', ti_base = None, ti_fields =
      [(''restart'', ''restart'')]\<rparr>"

definition ThreadEvent_info :: struct_info where
  "ThreadEvent_info =
     \<lparr>ti_struct = ''ThreadEvent'', ti_name = ''thread'', ti_base = None, ti_fields =
      [(''reason'', ''reason''), (''threadId'', ''threadId'')]\<rparr>"

definition protocol_events_infos :: "struct_info list" where
  "protocol_events_infos =
     [BreakpointEvent_info, CapabilitiesEvent_info, ContinuedEvent_info, ExitedEvent_info,
      InitializedEvent_info, InvalidatedEvent_info, LoadedSourceEvent_info, MemoryEvent_info,
      ModuleEvent_info, OutputEvent_info, ProcessEvent_info, ProgressEndEvent_info,
      ProgressStartEvent_info, ProgressUpdateEvent_info, StoppedEvent_info, TerminatedEvent_info,
      ThreadEvent_info]"

subsection \<open>Requests\<close>

definition AttachRequest_info :: struct_info where
  "AttachRequest_info =
     \<lparr>ti_struct = ''AttachRequest'', ti_name = ''attach'', ti_base = None, ti_fields =
      [(''restart'', ''__restart'')]\<rparr>"

definition BreakpointLocationsRequest_info :: struct_info where
  "BreakpointLocationsRequest_info =
     \<lparr>ti_struct = ''BreakpointLocationsRequest'', ti_name = ''breakpointLocations'', ti_base = None, ti_fields =
      [(''column'', ''column''), (''endColumn'', ''endColumn''), (''endLine'', ''endLine''),
       (''line'', ''line''), (''source'', ''source'')]\<rparr>"

definition CancelRequest_info :: struct_info where
  "CancelRequest_info =
     \<lparr>ti_struct = ''CancelRequest'', ti_name = ''cancel'', ti_base = None, ti_fields =
      [(''progressId'', ''progressId''), (''requestId'', ''requestId'')]\<rparr>"

definition CompletionsRequest_info :: struct_info where
  "CompletionsRequest_info =
     \<lparr>ti_struct = ''CompletionsRequest'', ti_name = ''completions'', ti_base = None, ti_fields =
      [(''column'', ''column''), (''frameId'', ''frameId''), (''line'', ''line''), (''text'', ''text'')]\<rparr>"

definition ConfigurationDoneRequest_info :: struct_info where
  "ConfigurationDoneRequest_info =
     \<lparr>ti_struct = ''ConfigurationDoneRequest'', ti_name = ''configurationDone'', ti_base = None, ti_fields = []\<rparr>"

definition ContinueRequest_info :: struct_info where
  "ContinueRequest_info =
     \<lparr>ti_struct = ''ContinueRequest'', ti_name = ''continue'', ti_base = None, ti_fields =
      [(''singleThread'', ''singleThread''), (''threadId'', ''threadId'')]\<rparr>"

definition DataBreakpointInfoRequest_info :: struct_info where
  "DataBreakpointInfoRequest_info =
     \<lparr>ti_struct = ''DataBreakpointInfoRequest'', ti_name = ''dataBreakpointInfo'', ti_base = None, ti_fields =
      [(''frameId'', ''frameId''), (''mode'', ''mode''), (''name'', ''name''),
       (''variablesReference'', ''variablesReference'')]\<rparr>"

definition DisassembleRequest_info :: struct_info where
  "DisassembleRequest_info =
     \<lparr>ti_struct = ''DisassembleRequest'', ti_name = ''disassemble'', ti_base = None, ti_fields =
      [(''instructionCount'', ''instructionCount''), (''instructionOffset'', ''instructionOffset''),
       (''memoryReference'', ''memoryReference''), (''offset'', ''offset''),
       (''resolveSymbols'', ''resolveSymbols'')]\<rparr>"

definition DisconnectRequest_info :: struct_info where
  "DisconnectRequest_info =
     \<lparr>ti_struct = ''DisconnectRequest'', ti_name = ''disconnect'', ti_base = None, ti_fields =
      [(''restart'', ''restart''), (''suspendDebuggee'', ''suspendDebuggee''),
       (''terminateDebuggee'', ''terminateDebuggee'')]\<rparr>"

definition EvaluateRequest_info :: struct_info where
  "EvaluateRequest_info =
     \<lparr>ti_struct = ''EvaluateRequest'', ti_name = ''evaluate'', ti_base = None, ti_fields =
      [(''context'', ''context''), (''expression'', ''expression''), (''format'', ''format''),
       (''frameId'', ''frameId'')]\<rparr>"

definition ExceptionInfoRequest_info :: struct_info where
  "ExceptionInfoRequest_info =
     \<lparr>ti_struct = ''ExceptionInfoRequest'', ti_name = ''exceptionInfo'', ti_base = None, ti_fields =
      [(''threadId'', ''threadId'')]\<rparr>"

definition GotoRequest_info :: struct_info where
  "GotoRequest_info =
     \<lparr>ti_struct = ''GotoRequest'', ti_name = ''goto'', ti_base = None, ti_fields =
      [(''targetId'', ''targetId''), (''threadId'', ''threadId'')]\<rparr>"

definition GotoTargetsRequest_info :: struct_info where
  "GotoTargetsRequest_info =
     \<lparr>ti_struct = ''GotoTargetsRequest'', ti_name = ''gotoTargets'', ti_base = None, ti_fields =
      [(''column'', ''column''), (''line'', ''line''), (''source'', ''source'')]\<rparr>"

definition InitializeRequest_info :: struct_info where
  "InitializeRequest_info =
     \<lparr>ti_struct = ''InitializeRequest'', ti_name = ''initialize'', ti_base = None, ti_fields =
      [(''adapterID'', ''adapterID''), (''clientID'', ''clientID''), (''clientName'', ''clientName''),
       (''columnsStartAt1'', ''columnsStartAt1''), (''linesStartAt1'', ''linesStartAt1''),
       (''locale'', ''locale''), (''pathFormat'', ''pathFormat''),
       (''supportsArgsCanBeInterpretedByShell'', ''supportsArgsCanBeInterpretedByShell''),
       (''supportsInvalidatedEvent'', ''supportsInvalidatedEvent''),
       (''supportsMemoryEvent'', ''supportsMemoryEvent''),
       (''supportsMemoryReferences'', ''supportsMemoryReferences''),
       (''supportsProgressReporting'', ''supportsProgressReporting''),
       (''supportsRunInTerminalRequest'', ''supportsRunInTerminalRequest''),
       (''supportsStartDebuggingRequest'', ''supportsStartDebuggingRequest''),
       (''supportsVariablePaging'', ''supportsVariablePaging''),
       (''supportsVariableType'', ''supportsVariableType'')]\<rparr>"

definition LaunchRequest_info :: struct_info where
  "LaunchRequest_info =
     \<lparr>ti_struct = ''LaunchRequest'', ti_name = ''launch'', ti_base = None, ti_fields =
      [(''restart'', ''__restart''), (''noDebug'', ''noDebug'')]\<rparr>"

definition LoadedSourcesRequest_info :: struct_info where
  "LoadedSourcesRequest_info =
     \<lparr>ti_struct = ''LoadedSourcesRequest'', ti_name = ''loadedSources'', ti_base = None, ti_fields = []\<rparr>"

definition ModulesRequest_info :: struct_info where
  "ModulesRequest_info =
     \<lparr>ti_struct = ''ModulesRequest'', ti_name = ''modules'', ti_base = None, ti_fields =
      [(''moduleCount'', ''moduleCount''), (''startModule'', ''startModule'')]\<rparr>"

definition NextRequest_info :: struct_info where
  "NextRequest_info =
     \<lparr>ti_struct = ''NextRequest'', ti_name = ''next'', ti_base = None, ti_fields =
      [(''granularity'', ''granularity''), (''singleThread'', ''singleThread''),
       (''threadId'', ''threadId'')]\<rparr>"

definition PauseRequest_info :: struct_info where
  "PauseRequest_info =
     \<lparr>ti_struct = ''PauseRequest'', ti_name = ''pause'', ti_base = None, ti_fields =
      [(''threadId'', ''threadId'')]\<rparr>"

definition ReadMemoryRequest_info :: struct_info where
  "ReadMemoryRequest_info =
     \<lparr>ti_struct = ''ReadMemoryRequest'', ti_name = ''readMemory'', ti_base = None, ti_fields =
      [(''count'', ''count''), (''memoryReference'', ''memoryReference''), (''offset'', ''offset'')]\<rparr>"

definition RestartFrameRequest_info :: struct_info where
  "RestartFrameRequest_info =
     \<lparr>ti_struct = ''RestartFrameRequest'', ti_name = ''restartFrame'', ti_base = None, ti_fields =
      [(''frameId'', ''frameId'')]\<rparr>"

definition RestartRequest_info :: struct_info where
  "RestartRequest_info =
     \<lparr>ti_struct = ''RestartRequest'', ti_name = ''restart'', ti_base = None, ti_fields =
      [(''arguments'', ''arguments'')]\<rparr>"

definition ReverseContinueRequest_info :: struct_info where
  "ReverseContinueRequest_info =
     \<lparr>ti_struct = ''ReverseContinueRequest'', ti_name = ''reverseContinue'', ti_base = None, ti_fields =
      [(''singleThread'', ''singleThread''), (''threadId'', ''threadId'')]\<rparr>"

definition RunInTerminalRequest_info :: struct_info where
  "RunInTerminalRequest_info =
     \<lparr>ti_struct = ''RunInTerminalRequest'', ti_name = ''runInTerminal'', ti_base = None, ti_fields =
      [(''args'', ''args''), (''argsCanBeInterpretedByShell'', ''argsCanBeInterpretedByShell''),
       (''cwd'', ''cwd''), (''env'', ''env''), (''kind'', ''kind''), (''title'', ''title'')]\<rparr>"

definition ScopesRequest_info :: struct_info where
  "ScopesRequest_info =
     \<lparr>ti_struct = ''ScopesRequest'', ti_name = ''scopes'', ti_base = None, ti_fields =
      [(''frameId'', ''frameId'')]\<rparr>"

definition SetBreakpointsRequest_info :: struct_info where
  "SetBreakpointsRequest_info =
     \<lparr>ti_struct = ''SetBreakpointsRequest'', ti_name = ''setBreakpoints'', ti_base = None, ti_fields =
      [(''breakpoints'', ''breakpoints''), (''lines'', ''lines''), (''source'', ''source''),
       (''sourceModified'', ''sourceModified'')]\<rparr>"

definition SetDataBreakpointsRequest_info :: struct_info where
  "SetDataBreakpointsRequest_info =
     \<lparr>ti_struct = ''SetDataBreakpointsRequest'', ti_name = ''setDataBreakpoints'', ti_base = None, ti_fields =
      [(''breakpoints'', ''breakpoints'')]\<rparr>"

definition SetExceptionBreakpointsRequest_info :: struct_info where
  "SetExceptionBreakpointsRequest_info =
     \<lparr>ti_struct = ''SetExceptionBreakpointsRequest'', ti_name = ''setExceptionBreakpoints'', ti_base = None, ti_fields =
      [(''exceptionOptions'', ''exceptionOptions''), (''filterOptions'', ''filterOptions''),
       (''filters'', ''filters'')]\<rparr>"

definition SetExpressionRequest_info :: struct_info where
  "SetExpressionRequest_info =
     \<lparr>ti_struct = ''SetExpressionRequest'', ti_name = ''setExpression'', ti_base = None, ti_fields =
      [(''expression'', ''expression''), (''format'', ''format''), (''frameId'', ''frameId''),
       (''value'', ''value'')]\<rparr>"

definition SetFunctionBreakpointsRequest_info :: struct_info where
  "SetFunctionBreakpointsRequest_info =
     \<lparr>ti_struct = ''SetFunctionBreakpointsRequest'', ti_name = ''setFunctionBreakpoints'', ti_base = None, ti_fields =
      [(''breakpoints'', ''breakpoints'')]\<rparr>"

definition SetInstructionBreakpointsRequest_info :: struct_info where
  "SetInstructionBreakpointsRequest_info =
     \<lparr>ti_struct = ''SetInstructionBreakpointsRequest'', ti_name = ''setInstructionBreakpoints'', ti_base = None, ti_fields =
      [(''breakpoints'', ''breakpoints'')]\<rparr>"

definition SetVariableRequest_info :: struct_info where
  "SetVariableRequest_info =
     \<lparr>ti_struct = ''SetVariableRequest'', ti_name = ''setVariable'', ti_base = None, ti_fields =
      [(''format'', ''format''), (''name'', ''name''), (''value'', ''value''),
       (''variablesReference'', ''variablesReference'')]\<rparr>"

definition SourceRequest_info :: struct_info where
  "SourceRequest_info =
     \<lparr>ti_struct = ''SourceRequest'', ti_name = ''source'', ti_base = None, ti_fields =
      [(''source'', ''source''), (''sourceReference'', ''sourceReference'')]\<rparr>"

definition StackTraceRequest_info :: struct_info where
  "StackTraceRequest_info =
     \<lparr>ti_struct = ''StackTraceRequest'', ti_name = ''stackTrace'', ti_base = None, ti_fields =
      [(''format'', ''format''), (''levels'', ''levels''), (''startFrame'', ''startFrame''),
       (''threadId'', ''threadId'')]\<rparr>"

definition StartDebuggingRequest_info :: struct_info where
  "StartDebuggingRequest_info =
     \<lparr>ti_struct = ''StartDebuggingRequest'', ti_name = ''startDebugging'', ti_base = None, ti_fields =
      [(''configuration'', ''configuration''), (''request'', ''request'')]\<rparr>"

definition StepBackRequest_info :: struct_info where
  "StepBackRequest_info =
     \<lparr>ti_struct = ''StepBackRequest'', ti_name = ''stepBack'', ti_base = None, ti_fields =
      [(''granularity'', ''granularity''), (''singleThread'', ''singleThread''),
       (''threadId'', ''threadId'')]\<rparr>"

definition StepInRequest_info :: struct_info where
  "StepInRequest_info =
     \<lparr>ti_struct = ''StepInRequest'', ti_name = ''stepIn'', ti_base = None, ti_fields =
      [(''granularity'', ''granularity''), (''singleThread'', ''singleThread''),
       (''targetId'', ''targetId''), (''threadId'', ''threadId'')]\<rparr>"

definition StepInTargetsRequest_info :: struct_info where
  "StepInTargetsRequest_info =
     \<lparr>ti_struct = ''StepInTargetsRequest'', ti_name = ''stepInTargets'', ti_base = None, ti_fields =
      [(''frameId'', ''frameId'')]\<rparr>"

definition StepOutRequest_info :: struct_info where
  "StepOutRequest_info =
     \<lparr>ti_struct = ''StepOutRequest'', ti_name = ''stepOut'', ti_base = None, ti_fields =
      [(''granularity'', ''granularity''), (''singleThread'', ''singleThread''),
       (''threadId'', ''threadId'')]\<rparr>"

definition TerminateRequest_info :: struct_info where
  "TerminateRequest_info =
     \<lparr>ti_struct = ''TerminateRequest'', ti_name = ''terminate'', ti_base = None, ti_fields =
      [(''restart'', ''restart'')]\<rparr>"

definition TerminateThreadsRequest_info :: struct_info where
  "TerminateThreadsRequest_info =
     \<lparr>ti_struct = ''TerminateThreadsRequest'', ti_name = ''terminateThreads'', ti_base = None, ti_fields =
      [(''threadIds'', ''threadIds'')]\<rparr>"

definition ThreadsRequest_info :: struct_info where
  "ThreadsRequest_info =
     \<lparr>ti_struct = ''ThreadsRequest'', ti_name = ''threads'', ti_base = None, ti_fields = []\<rparr>"

definition VariablesRequest_info :: struct_info where
  "VariablesRequest_info =
     \<lparr>ti_struct = ''VariablesRequest'', ti_name = ''variables'', ti_base = None, ti_fields =
      [(''count'', ''count''), (''filter'', ''filter''), (''format'', ''format''),
       (''start'', ''start''), (''variablesReference'', ''variablesReference'')]\<rparr>"

definition WriteMemoryRequest_info :: struct_info where
  "WriteMemoryRequest_info =
     \<lparr>ti_struct = ''WriteMemoryRequest'', ti_name = ''writeMemory'', ti_base = None, ti_fields =
      [(''allowPartial'', ''allowPartial''), (''data'', ''data''),
       (''memoryReference'', ''memoryReference''), (''offset'', ''offset'')]\<rparr>"

definition protocol_requests_infos :: "struct_info list" where
  "protocol_requests_infos =
     [AttachRequest_info, BreakpointLocationsRequest_info, CancelRequest_info, CompletionsRequest_info,
      ConfigurationDoneRequest_info, ContinueRequest_info, DataBreakpointInfoRequest_info,
      DisassembleRequest_info, DisconnectRequest_info, EvaluateRequest_info, ExceptionInfoRequest_info,
      GotoRequest_info, GotoTargetsRequest_info, InitializeRequest_info, LaunchRequest_info,
      LoadedSourcesRequest_info, ModulesRequest_info, NextRequest_info, PauseRequest_info,
      ReadMemoryRequest_info, RestartFrameRequest_info, RestartRequest_info,
      ReverseContinueRequest_info, RunInTerminalRequest_info, ScopesRequest_info,
      SetBreakpointsRequest_info, SetDataBreakpointsRequest_info, SetExceptionBreakpointsRequest_info,
      SetExpressionRequest_info, SetFunctionBreakpointsRequest_info,
      SetInstructionBreakpointsRequest_info, SetVariableRequest_info, SourceRequest_info,
      StackTraceRequest_info, StartDebuggingRequest_info, StepBackRequest_info, StepInRequest_info,
      StepInTargetsRequest_info, StepOutRequest_info, TerminateRequest_info,
      TerminateThreadsRequest_info, ThreadsRequest_info, VariablesRequest_info, WriteMemoryRequest_info]"

subsection \<open>Responses\<close>

definition AttachResponse_info :: struct_info where
  "AttachResponse_info =
     \<lparr>ti_struct = ''AttachResponse'', ti_name = '''', ti_base = None, ti_fields = []\<rparr>"

definition BreakpointLocationsResponse_info :: struct_info where
  "BreakpointLocationsResponse_info =
     \<lparr>ti_struct = ''BreakpointLocationsResponse'', ti_name = '''', ti_base = None, ti_fields =
      [(''breakpoints'', ''breakpoints'')]\<rparr>"

definition CancelResponse_info :: struct_info where
  "CancelResponse_info =
     \<lparr>ti_struct = ''CancelResponse'', ti_name = '''', ti_base = None, ti_fields = []\<rparr>"

definition CompletionsResponse_info :: struct_info where
  "CompletionsResponse_info =
     \<lparr>ti_struct = ''CompletionsResponse'', ti_name = '''', ti_base = None, ti_fields =
      [(''targets'', ''targets'')]\<rparr>"

definition ConfigurationDoneResponse_info :: struct_info where
  "ConfigurationDoneResponse_info =
     \<lparr>ti_struct = ''ConfigurationDoneResponse'', ti_name = '''', ti_base = None, ti_fields = []\<rparr>"

definition ContinueResponse_info :: struct_info where
  "ContinueResponse_info =
     \<lparr>ti_struct = ''ContinueResponse'', ti_name = '''', ti_base = None, ti_fields =
      [(''allThreadsContinued'', ''allThreadsContinued'')]\<rparr>"

definition DataBreakpointInfoResponse_info :: struct_info where
  "DataBreakpointInfoResponse_info =
     \<lparr>ti_struct = ''DataBreakpointInfoResponse'', ti_name = '''', ti_base = None, ti_fields =
      [(''accessTypes'', ''accessTypes''), (''canPersist'', ''canPersist''), (''dataId'', ''dataId''),
       (''description'', ''description'')]\<rparr>"

definition DisassembleResponse_info :: struct_info where
  "DisassembleResponse_info =
     \<lparr>ti_struct = ''DisassembleResponse'', ti_name = '''', ti_base = None, ti_fields =
      [(''instructions'', ''instructions'')]\<rparr>"

definition DisconnectResponse_info :: struct_info where
  "DisconnectResponse_info =
     \<lparr>ti_struct = ''DisconnectResponse'', ti_name = '''', ti_base = None, ti_fields = []\<rparr>"

definition ErrorResponse_info :: struct_info where
  "ErrorResponse_info =
     \<lparr>ti_struct = ''ErrorResponse'', ti_name = '''', ti_base = None, ti_fields =
      [(''error'', ''error'')]\<rparr>"

definition EvaluateResponse_info :: struct_info where
  "EvaluateResponse_info =
     \<lparr>ti_struct = ''EvaluateResponse'', ti_name = '''', ti_base = None, ti_fields =
      [(''indexedVariables'', ''indexedVariables''), (''memoryReference'', ''memoryReference''),
       (''namedVariables'', ''namedVariables''), (''presentationHint'', ''presentationHint''),
       (''result'', ''result''), (''type'', ''type''), (''variablesReference'', ''variablesReference'')]\<rparr>"

definition ExceptionInfoResponse_info :: struct_info where
  "ExceptionInfoResponse_info =
     \<lparr>ti_struct = ''ExceptionInfoResponse'', ti_name = '''', ti_base = None, ti_fields =
      [(''breakMode'', ''breakMode''), (''description'', ''description''), (''details'', ''details''),
       (''exceptionId'', ''exceptionId'')]\<rparr>"

definition GotoResponse_info :: struct_info where
  "GotoResponse_info =
     \<lparr>ti_struct = ''GotoResponse'', ti_name = '''', ti_base = None, ti_fields = []\<rparr>"

definition GotoTargetsResponse_info :: struct_info where
  "GotoTargetsResponse_info =
     \<lparr>ti_struct = ''GotoTargetsResponse'', ti_name = '''', ti_base = None, ti_fields =
      [(''targets'', ''targets'')]\<rparr>"

definition InitializeResponse_info :: struct_info where
  "InitializeResponse_info =
     \<lparr>ti_struct = ''InitializeResponse'', ti_name = '''', ti_base = None, ti_fields =
      [(''additionalModuleColumns'', ''additionalModuleColumns''),
       (''breakpointModes'', ''breakpointModes''),
       (''completionTriggerCharacters'', ''completionTriggerCharacters''),
       (''exceptionBreakpointFilters'', ''exceptionBreakpointFilters''),
       (''supportSuspendDebuggee'', ''supportSuspendDebuggee''),
       (''supportTerminateDebuggee'', ''supportTerminateDebuggee''),
       (''supportedChecksumAlgorithms'', ''supportedChecksumAlgorithms''),
       (''supportsBreakpointLocationsRequest'', ''supportsBreakpointLocationsRequest''),
       (''supportsCancelRequest'', ''supportsCancelRequest''),
       (''supportsClipboardContext'', ''supportsClipboardContext''),
       (''supportsCompletionsRequest'', ''supportsCompletionsRequest''),
       (''supportsConditionalBreakpoints'', ''supportsConditionalBreakpoints''),
       (''supportsConfigurationDoneRequest'', ''supportsConfigurationDoneRequest''),
       (''supportsDataBreakpoints'', ''supportsDataBreakpoints''),
       (''supportsDelayedStackTraceLoading'', ''supportsDelayedStackTraceLoading''),
       (''supportsDisassembleRequest'', ''supportsDisassembleRequest''),
       (''supportsEvaluateForHovers'', ''supportsEvaluateForHovers''),
       (''supportsExceptionFilterOptions'', ''supportsExceptionFilterOptions''),
       (''supportsExceptionInfoRequest'', ''supportsExceptionInfoRequest''),
       (''supportsExceptionOptions'', ''supportsExceptionOptions''),
       (''supportsFunctionBreakpoints'', ''supportsFunctionBreakpoints''),
       (''supportsGotoTargetsRequest'', ''supportsGotoTargetsRequest''),
       (''supportsHitConditionalBreakpoints'', ''supportsHitConditionalBreakpoints''),
       (''supportsInstructionBreakpoints'', ''supportsInstructionBreakpoints''),
       (''supportsLoadedSourcesRequest'', ''supportsLoadedSourcesRequest''),
       (''supportsLogPoints'', ''supportsLogPoints''),
       (''supportsModulesRequest'', ''supportsModulesRequest''),
       (''supportsReadMemoryRequest'', ''supportsReadMemoryRequest''),
       (''supportsRestartFrame'', ''supportsRestartFrame''),
       (''supportsRestartRequest'', ''supportsRestartRequest''),
       (''supportsSetExpression'', ''supportsSetExpression''),
       (''supportsSetVariable'', ''supportsSetVariable''),
       (''supportsSingleThreadExecutionRequests'', ''supportsSingleThreadExecutionRequests''),
       (''supportsStepBack'', ''supportsStepBack''),
       (''supportsStepInTargetsRequest'', ''supportsStepInTargetsRequest''),
       (''supportsSteppingGranularity'', ''supportsSteppingGranularity''),
       (''supportsTerminateRequest'', ''supportsTerminateRequest''),
       (''supportsTerminateThreadsRequest'', ''supportsTerminateThreadsRequest''),
       (''supportsValueFormattingOptions'', ''supportsValueFormattingOptions''),
       (''supportsWriteMemoryRequest'', ''supportsWriteMemoryRequest'')]\<rparr>"

definition LaunchResponse_info :: struct_info where
  "LaunchResponse_info =
     \<lparr>ti_struct = ''LaunchResponse'', ti_name = '''', ti_base = None, ti_fields = []\<rparr>"

definition LoadedSourcesResponse_info :: struct_info where
  "LoadedSourcesResponse_info =
     \<lparr>ti_struct = ''LoadedSourcesResponse'', ti_name = '''', ti_base = None, ti_fields =
      [(''sources'', ''sources'')]\<rparr>"

definition ModulesResponse_info :: struct_info where
  "ModulesResponse_info =
     \<lparr>ti_struct = ''ModulesResponse'', ti_name = '''', ti_base = None, ti_fields =
      [(''modules'', ''modules''), (''totalModules'', ''totalModules'')]\<rparr>"

definition NextResponse_info :: struct_info where
  "NextResponse_info =
     \<lparr>ti_struct = ''NextResponse'', ti_name = '''', ti_base = None, ti_fields = []\<rparr>"

definition PauseResponse_info :: struct_info where
  "PauseResponse_info =
     \<lparr>ti_struct = ''PauseResponse'', ti_name = '''', ti_base = None, ti_fields = []\<rparr>"

definition ReadMemoryResponse_info :: struct_info where
  "ReadMemoryResponse_info =
     \<lparr>ti_struct = ''ReadMemoryResponse'', ti_name = '''', ti_base = None, ti_fields =
      [(''address'', ''address''), (''data'', ''data''), (''unreadableBytes'', ''unreadableBytes'')]\<rparr>"

definition RestartFrameResponse_info :: struct_info where
  "RestartFrameResponse_info =
     \<lparr>ti_struct = ''RestartFrameResponse'', ti_name = '''', ti_base = None, ti_fields = []\<rparr>"

definition RestartResponse_info :: struct_info where
  "RestartResponse_info =
     \<lparr>ti_struct = ''RestartResponse'', ti_name = '''', ti_base = None, ti_fields = []\<rparr>"

definition ReverseContinueResponse_info :: struct_info where
  "ReverseContinueResponse_info =
     \<lparr>ti_struct = ''ReverseContinueResponse'', ti_name = '''', ti_base = None, ti_fields = []\<rparr>"

definition RunInTerminalResponse_info :: struct_info where
  "RunInTerminalResponse_info =
     \<lparr>ti_struct = ''RunInTerminalResponse'', ti_name = '''', ti_base = None, ti_fields =
      [(''processId'', ''processId''), (''shellProcessId'', ''shellProcessId'')]\<rparr>"

definition ScopesResponse_info :: struct_info where
  "ScopesResponse_info =
     \<lparr>ti_struct = ''ScopesResponse'', ti_name = '''', ti_base = None, ti_fields =
      [(''scopes'', ''scopes'')]\<rparr>"

definition SetBreakpointsResponse_info :: struct_info where
  "SetBreakpointsResponse_info =
     \<lparr>ti_struct = ''SetBreakpointsResponse'', ti_name = '''', ti_base = None, ti_fields =
      [(''breakpoints'', ''breakpoints'')]\<rparr>"

definition SetDataBreakpointsResponse_info :: struct_info where
  "SetDataBreakpointsResponse_info =
     \<lparr>ti_struct = ''SetDataBreakpointsResponse'', ti_name = '''', ti_base = None, ti_fields =
      [(''breakpoints'', ''breakpoints'')]\<rparr>"

definition SetExceptionBreakpointsResponse_info :: struct_info where
  "SetExceptionBreakpointsResponse_info =
     \<lparr>ti_struct = ''SetExceptionBreakpointsResponse'', ti_name = '''', ti_base = None, ti_fields =
      [(''breakpoints'', ''breakpoints'')]\<rparr>"

definition SetExpressionResponse_info :: struct_info where
  "SetExpressionResponse_info =
     \<lparr>ti_struct = ''SetExpressionResponse'', ti_name = '''', ti_base = None, ti_fields =
      [(''indexedVariables'', ''indexedVariables''), (''memoryReference'', ''memoryReference''),
       (''namedVariables'', ''namedVariables''), (''presentationHint'', ''presentationHint''),
       (''type'', ''type''), (''value'', ''value''), (''variablesReference'', ''variablesReference'')]\<rparr>"

definition SetFunctionBreakpointsResponse_info :: struct_info where
  "SetFunctionBreakpointsResponse_info =
     \<lparr>ti_struct = ''SetFunctionBreakpointsResponse'', ti_name = '''', ti_base = None, ti_fields =
      [(''breakpoints'', ''breakpoints'')]\<rparr>"

definition SetInstructionBreakpointsResponse_info :: struct_info where
  "SetInstructionBreakpointsResponse_info =
     \<lparr>ti_struct = ''SetInstructionBreakpointsResponse'', ti_name = '''', ti_base = None, ti_fields =
      [(''breakpoints'', ''breakpoints'')]\<rparr>"

definition SetVariableResponse_info :: struct_info where
  "SetVariableResponse_info =
     \<lparr>ti_struct = ''SetVariableResponse'', ti_name = '''', ti_base = None, ti_fields =
      [(''indexedVariables'', ''indexedVariables''), (''memoryReference'', ''memoryReference''),
       (''namedVariables'', ''namedVariables''), (''type'', ''type''), (''value'', ''value''),
       (''variablesReference'', ''variablesReference'')]\<rparr>"

definition SourceResponse_info :: struct_info where
  "SourceResponse_info =
     \<lparr>ti_struct = ''SourceResponse'', ti_name = '''', ti_base = None, ti_fields =
      [(''content'', ''content''), (''mimeType'', ''mimeType'')]\<rparr>"

definition StackTraceResponse_info :: struct_info where
  "StackTraceResponse_info =
     \<lparr>ti_struct = ''StackTraceResponse'', ti_name = '''', ti_base = None, ti_fields =
      [(''stackFrames'', ''stackFrames''), (''totalFrames'', ''totalFrames'')]\<rparr>"

definition StartDebuggingResponse_info :: struct_info where
  "StartDebuggingResponse_info =
     \<lparr>ti_struct = ''StartDebuggingResponse'', ti_name = '''', ti_base = None, ti_fields = []\<rparr>"

definition StepBackResponse_info :: struct_info where
  "StepBackResponse_info =
     \<lparr>ti_struct = ''StepBackResponse'', ti_name = '''', ti_base = None, ti_fields = []\<rparr>"

definition StepInResponse_info :: struct_info where
  "StepInResponse_info =
     \<lparr>ti_struct = ''StepInResponse'', ti_name = '''', ti_base = None, ti_fields = []\<rparr>"

definition StepInTargetsResponse_info :: struct_info where
  "StepInTargetsResponse_info =
     \<lparr>ti_struct = ''StepInTargetsResponse'', ti_name = '''', ti_base = None, ti_fields =
      [(''targets'', ''targets'')]\<rparr>"

definition StepOutResponse_info :: struct_info where
  "StepOutResponse_info =
     \<lparr>ti_struct = ''StepOutResponse'', ti_name = '''', ti_base = None, ti_fields = []\<rparr>"

definition TerminateResponse_info :: struct_info where
  "TerminateResponse_info =
     \<lparr>ti_struct = ''TerminateResponse'', ti_name = '''', ti_base = None, ti_fields = []\<rparr>"

definition TerminateThreadsResponse_info :: struct_info where
  "TerminateThreadsResponse_info =
     \<lparr>ti_struct = ''TerminateThreadsResponse'', ti_name = '''', ti_base = None, ti_fields = []\<rparr>"

definition ThreadsResponse_info :: struct_info where
  "ThreadsResponse_info =
     \<lparr>ti_struct = ''ThreadsResponse'', ti_name = '''', ti_base = None, ti_fields =
      [(''threads'', ''threads'')]\<rparr>"

definition VariablesResponse_info :: struct_info where
  "VariablesResponse_info =
     \<lparr>ti_struct = ''VariablesResponse'', ti_name = '''', ti_base = None, ti_fields =
      [(''variables'', ''variables'')]\<rparr>"

definition WriteMemoryResponse_info :: struct_info where
  "WriteMemoryResponse_info =
     \<lparr>ti_struct = ''WriteMemoryResponse'', ti_name = '''', ti_base = None, ti_fields =
      [(''bytesWritten'', ''bytesWritten''), (''offset'', ''offset'')]\<rparr>"

definition protocol_response_infos :: "struct_info list" where
  "protocol_response_infos =
     [AttachResponse_info, BreakpointLocationsResponse_info, CancelResponse_info,
      CompletionsResponse_info, ConfigurationDoneResponse_info, ContinueResponse_info,
      DataBreakpointInfoResponse_info, DisassembleResponse_info, DisconnectResponse_info,
      ErrorResponse_info, EvaluateResponse_info, ExceptionInfoResponse_info, GotoResponse_info,
      GotoTargetsResponse_info, InitializeResponse_info, LaunchResponse_info,
      LoadedSourcesResponse_info, ModulesResponse_info, NextResponse_info, PauseResponse_info,
      ReadMemoryResponse_info, RestartFrameResponse_info, RestartResponse_info,
      ReverseContinueResponse_info, RunInTerminalResponse_info, ScopesResponse_info,
      SetBreakpointsResponse_info, SetDataBreakpointsResponse_info,
      SetExceptionBreakpointsResponse_info, SetExpressionResponse_info,
      SetFunctionBreakpointsResponse_info, SetInstructionBreakpointsResponse_info,
      SetVariableResponse_info, SourceResponse_info, StackTraceResponse_info,
      StartDebuggingResponse_info, StepBackResponse_info, StepInResponse_info,
      StepInTargetsResponse_info, StepOutResponse_info, TerminateResponse_info,
      TerminateThreadsResponse_info, ThreadsResponse_info, VariablesResponse_info,
      WriteMemoryResponse_info]"

lemmas protocol_info_defs [protocol_defs] =
  protocol_types_infos_def
  protocol_events_infos_def
  protocol_requests_infos_def
  protocol_response_infos_def
  Checksum_info_def
  Source_info_def
  Breakpoint_info_def
  BreakpointLocation_info_def
  ColumnDescriptor_info_def
  BreakpointMode_info_def
  ExceptionBreakpointsFilter_info_def
  Capabilities_info_def
  CompletionItem_info_def
  DisassembledInstruction_info_def
  Message_info_def
  VariablePresentationHint_info_def
  ValueFormat_info_def
  ExceptionDetails_info_def
  GotoTarget_info_def
  Module_info_def
  Scope_info_def
  SourceBreakpoint_info_def
  DataBreakpoint_info_def
  ExceptionPathSegment_info_def
  ExceptionOptions_info_def
  ExceptionFilterOptions_info_def
  FunctionBreakpoint_info_def
  InstructionBreakpoint_info_def
  StackFrame_info_def
  StackFrameFormat_info_def
  StepInTarget_info_def
  Thread_info_def
  Variable_info_def
  BreakpointEvent_info_def
  CapabilitiesEvent_info_def
  ContinuedEvent_info_def
  ExitedEvent_info_def
  InitializedEvent_info_def
  InvalidatedEvent_info_def
  LoadedSourceEvent_info_def
  MemoryEvent_info_def
  ModuleEvent_info_def
  OutputEvent_info_def
  ProcessEvent_info_def
  ProgressEndEvent_info_def
  ProgressStartEvent_info_def
  ProgressUpdateEvent_info_def
  StoppedEvent_info_def
  TerminatedEvent_info_def
  ThreadEvent_info_def
  AttachRequest_info_def
  BreakpointLocationsRequest_info_def
  CancelRequest_info_def
  CompletionsRequest_info_def
  ConfigurationDoneRequest_info_def
  ContinueRequest_info_def
  DataBreakpointInfoRequest_info_def
  DisassembleRequest_info_def
  DisconnectRequest_info_def
  EvaluateRequest_info_def
  ExceptionInfoRequest_info_def
  GotoRequest_info_def
  GotoTargetsRequest_info_def
  InitializeRequest_info_def
  LaunchRequest_info_def
  LoadedSourcesRequest_info_def
  ModulesRequest_info_def
  NextRequest_info_def
  PauseRequest_info_def
  ReadMemoryRequest_info_def
  RestartFrameRequest_info_def
  RestartRequest_info_def
  ReverseContinueRequest_info_def
  RunInTerminalRequest_info_def
  ScopesRequest_info_def
  SetBreakpointsRequest_info_def
  SetDataBreakpointsRequest_info_def
  SetExceptionBreakpointsRequest_info_def
  SetExpressionRequest_info_def
  SetFunctionBreakpointsRequest_info_def
  SetInstructionBreakpointsRequest_info_def
  SetVariableRequest_info_def
  SourceRequest_info_def
  StackTraceRequest_info_def
  StartDebuggingRequest_info_def
  StepBackRequest_info_def
  StepInRequest_info_def
  StepInTargetsRequest_info_def
  StepOutRequest_info_def
  TerminateRequest_info_def
  TerminateThreadsRequest_info_def
  ThreadsRequest_info_def
  VariablesRequest_info_def
  WriteMemoryRequest_info_def
  AttachResponse_info_def
  BreakpointLocationsResponse_info_def
  CancelResponse_info_def
  CompletionsResponse_info_def
  ConfigurationDoneResponse_info_def
  ContinueResponse_info_def
  DataBreakpointInfoResponse_info_def
  DisassembleResponse_info_def
  DisconnectResponse_info_def
  ErrorResponse_info_def
  EvaluateResponse_info_def
  ExceptionInfoResponse_info_def
  GotoResponse_info_def
  GotoTargetsResponse_info_def
  InitializeResponse_info_def
  LaunchResponse_info_def
  LoadedSourcesResponse_info_def
  ModulesResponse_info_def
  NextResponse_info_def
  PauseResponse_info_def
  ReadMemoryResponse_info_def
  RestartFrameResponse_info_def
  RestartResponse_info_def
  ReverseContinueResponse_info_def
  RunInTerminalResponse_info_def
  ScopesResponse_info_def
  SetBreakpointsResponse_info_def
  SetDataBreakpointsResponse_info_def
  SetExceptionBreakpointsResponse_info_def
  SetExpressionResponse_info_def
  SetFunctionBreakpointsResponse_info_def
  SetInstructionBreakpointsResponse_info_def
  SetVariableResponse_info_def
  SourceResponse_info_def
  StackTraceResponse_info_def
  StartDebuggingResponse_info_def
  StepBackResponse_info_def
  StepInResponse_info_def
  StepInTargetsResponse_info_def
  StepOutResponse_info_def
  TerminateResponse_info_def
  TerminateThreadsResponse_info_def
  ThreadsResponse_info_def
  VariablesResponse_info_def
  WriteMemoryResponse_info_def

end
