(* ===== verification/Serialization.thy ===== *)
theory Serialization
  imports Values
begin

section \<open>Serialisation of values\<close>

text \<open>
  The templates of \<^verbatim>\<open>include/dap/serialization.h\<close>, the \<^verbatim>\<open>TypeInfo\<close> methods that the macros of \<^verbatim>\<open>typeof.h\<close>
  generate, and the recursion that the three JSON back ends share with them. The classes
  \<^verbatim>\<open>Deserializer\<close> and \<^verbatim>\<open>Serializer\<close> are abstract; a back end is a record of what its virtual methods
  do with a document node of type \<^typ>\<open>'j\<close>. A \<^verbatim>\<open>Deserializer*\<close> is a node, or \<^term>\<open>None\<close> for
  \<^verbatim>\<open>NullDeserializer::instance\<close>; a \<^verbatim>\<open>Serializer*\<close> is the current content of the node that it writes
  and the flag \<^verbatim>\<open>removed\<close>.
\<close>

subsection \<open>Back ends\<close>

text \<open>
  \<open>any_case\<close> is what \<^verbatim>\<open>deserialize(any*)\<close> finds in a node: a scalar to assign, an object or an array
  to decode, or none of the kinds it tests for. In \<open>d_items\<close> and \<open>d_count\<close> the value \<^term>\<open>None\<close> stands
  for an assertion failure of the JSON library.
\<close>

datatype any_case = AnyScalar dap_type val | AnyObject | AnyArray | AnyNothing

record 'j Deserializer =
  d_boolean :: "'j \<Rightarrow> bool option"
  d_integer :: "'j \<Rightarrow> int64 option"
  d_number :: "'j \<Rightarrow> number option"
  d_string :: "'j \<Rightarrow> string option"
  d_items :: "'j \<Rightarrow> (string \<times> 'j) list option"
  d_any :: "'j \<Rightarrow> any_case"
  d_count :: "'j \<Rightarrow> nat option"
  d_array :: "'j \<Rightarrow> 'j list option"
  d_field :: "'j \<Rightarrow> string \<Rightarrow> 'j option option"

record 'j Serializer =
  s_new :: "'j"
  s_boolean :: "bool \<Rightarrow> 'j"
  s_integer :: "int64 \<Rightarrow> 'j"
  s_number :: "number \<Rightarrow> 'j"
  s_string :: "string \<Rightarrow> 'j"
  s_open_object :: "'j \<Rightarrow> 'j"
  s_begin_object :: "'j \<Rightarrow> 'j"
  s_begin_array :: "'j \<Rightarrow> nat \<Rightarrow> 'j"
  s_member :: "'j \<Rightarrow> string \<Rightarrow> 'j"
  s_set_member :: "'j \<Rightarrow> string \<Rightarrow> 'j \<Rightarrow> 'j"
  s_elem :: "'j \<Rightarrow> nat \<Rightarrow> 'j"
  s_set_elem :: "'j \<Rightarrow> nat \<Rightarrow> 'j \<Rightarrow> 'j"
  s_erase :: "'j \<Rightarrow> string \<Rightarrow> 'j"

subsection \<open>Deserialisation\<close>

text \<open>\<^verbatim>\<open>vec->resize(n)\<close>: keeps the elements that fit and default-constructs the rest.\<close>

definition resize :: "val \<Rightarrow> nat \<Rightarrow> val list \<Rightarrow> val list" where
  "resize x n vs = take n vs @ replicate (n - length vs) x"

definition scalar :: "('a \<Rightarrow> val) \<Rightarrow> 'a option \<Rightarrow> val \<Rightarrow> bool \<times> val" where
  "scalar C r v = (case r of None \<Rightarrow> (False, v) | Some x \<Rightarrow> (True, C x))"

text \<open>
  \<open>deser D E f T d v\<close> is \<^verbatim>\<open>TypeOf<T>::type()->deserialize(d, &v)\<close>: the returned flag and the object that
  the call leaves behind, whether it succeeds or not. The fuel \<open>f\<close> bounds the depth of the document;
  \<^term>\<open>None\<close> stands for a call that does not return, because the fuel ran out or because the library
  stops the program.
\<close>

function deser :: "'j Deserializer \<Rightarrow> env \<Rightarrow> nat \<Rightarrow> dap_type \<Rightarrow> 'j option \<Rightarrow> val \<Rightarrow> (bool \<times> val) option"
and deser_array :: "'j Deserializer \<Rightarrow> env \<Rightarrow> nat \<Rightarrow> dap_type \<Rightarrow> 'j \<Rightarrow> val list \<Rightarrow> (bool \<times> val list) option"
and deser_elems :: "'j Deserializer \<Rightarrow> env \<Rightarrow> nat \<Rightarrow> dap_type \<Rightarrow> 'j list \<Rightarrow> val list \<Rightarrow> (bool \<times> val list) option"
and deser_object :: "'j Deserializer \<Rightarrow> env \<Rightarrow> nat \<Rightarrow> 'j \<Rightarrow> (string \<times> val) list \<Rightarrow> (bool \<times> (string \<times> val) list) option"
and deser_items :: "'j Deserializer \<Rightarrow> env \<Rightarrow> nat \<Rightarrow> (string \<times> 'j) list \<Rightarrow> (string \<times> val) list \<Rightarrow> (bool \<times> (string \<times> val) list) option"
and deser_fields :: "'j Deserializer \<Rightarrow> env \<Rightarrow> nat \<Rightarrow> Field list \<Rightarrow> 'j option \<Rightarrow> val list \<Rightarrow> (bool \<times> val list) option"
where
  "deser D E f TBoolean d v = Some (scalar VBoolean (Option.bind d (d_boolean D)) v)"
| "deser D E f TInteger d v = Some (scalar VInteger (Option.bind d (d_integer D)) v)"
| "deser D E f TNumber d v = Some (scalar VNumber (Option.bind d (d_number D)) v)"
| "deser D E f TString d v = Some (scalar VString (Option.bind d (d_string D)) v)"
| "deser D E f TNull d v = Some (True, v)"
| "deser D E f TObject d v =
     (case (d, v) of
        (Some j, VObject ms) \<Rightarrow> map_option (map_prod id VObject) (deser_object D E f j ms)
      | _ \<Rightarrow> Some (False, v))"
| "deser D E f TAny d v =
     (case d of
        None \<Rightarrow> Some (False, v)
      | Some j \<Rightarrow>
          (case d_any D j of
             AnyScalar t x \<Rightarrow> Some (True, VAny (Some (t, x)))
           | AnyObject \<Rightarrow>
               map_option (\<lambda>(b, ms). if b then (True, VAny (Some (TObject, VObject ms))) else (False, v))
                 (deser_object D E f j [])
           | AnyArray \<Rightarrow>
               map_option (\<lambda>(b, vs). if b then (True, VAny (Some (TArray TAny, VArray vs))) else (False, v))
                 (deser_array D E f TAny j [])
           | AnyNothing \<Rightarrow> Some (False, v)))"
| "deser D E f (TArray t) d v =
     (case (d, v) of
        (Some j, VArray vs) \<Rightarrow> map_option (map_prod id VArray) (deser_array D E f t j vs)
      | (None, VArray vs) \<Rightarrow> Some (False, VArray [])
      | _ \<Rightarrow> Some (False, v))"
| "deser D E f (TOptional t) d v =
     map_option (\<lambda>(b, x). (True, if b then VOptional True x else v))
       (deser D E f t d (default_of (e_decls E) t))"
| "deser D E f (TVariant ts) d v =
     (case v of
        VVariant w \<Rightarrow> map_option (map_prod id VVariant) (deser D E f TAny d w)
      | _ \<Rightarrow> Some (False, v))"
| "deser D E f (TStruct s) d v =
     (case v of
        VStruct vs \<Rightarrow> map_option (map_prod id VStruct) (deser_fields D E f (struct_fields E s) d vs)
      | _ \<Rightarrow> Some (False, v))"
| "deser_array D E f t j vs =
     (case d_count D j of
        None \<Rightarrow> None
      | Some n \<Rightarrow>
          (case d_array D j of
             None \<Rightarrow> Some (False, resize (default_of (e_decls E) t) n vs)
           | Some js \<Rightarrow> deser_elems D E f t js (resize (default_of (e_decls E) t) n vs)))"
| "deser_elems D E f t [] vs = Some (True, vs)"
| "deser_elems D E f t (j # js) [] = None"
| "deser_elems D E f t (j # js) (v # vs) =
     (case f of
        0 \<Rightarrow> None
      | Suc g \<Rightarrow>
          (case deser D E g t (Some j) v of
             None \<Rightarrow> None
           | Some (b, v') \<Rightarrow>
               if b then map_option (map_prod id ((#) v')) (deser_elems D E f t js vs)
               else Some (False, v' # vs)))"
| "deser_object D E f j ms =
     (case d_items D j of None \<Rightarrow> None | Some its \<Rightarrow> deser_items D E f its ms)"
| "deser_items D E f [] ms = Some (True, ms)"
| "deser_items D E f ((k, j) # its) ms =
     (case f of
        0 \<Rightarrow> None
      | Suc g \<Rightarrow>
          (case deser D E g TAny (Some j) (VAny None) of
             None \<Rightarrow> None
           | Some (b, v) \<Rightarrow>
               if b then deser_items D E f its (obj_put ms k v) else Some (False, ms)))"
| "deser_fields D E f [] d vs = Some (True, vs)"
| "deser_fields D E f (fd # fds) d vs =
     (case Option.bind d (\<lambda>j. d_field D j (fd_name fd)) of
        None \<Rightarrow> Some (False, vs)
      | Some c \<Rightarrow>
          if length vs \<le> fd_offset fd then None
          else
            (case (case c of
                     None \<Rightarrow> deser D E f (fd_type fd) None (vs ! fd_offset fd)
                   | Some j \<Rightarrow>
                       (case f of
                          0 \<Rightarrow> None
                        | Suc g \<Rightarrow> deser D E g (fd_type fd) (Some j) (vs ! fd_offset fd))) of
               None \<Rightarrow> None
             | Some (b, v') \<Rightarrow>
                 if b then deser_fields D E f fds d (vs[fd_offset fd := v'])
                 else Some (False, vs[fd_offset fd := v'])))"
  by pat_completeness auto
termination
  apply (relation "measures
    [\<lambda>x. case x of
        Inl (Inl (D, E, f, T, d, v)) \<Rightarrow> f
      | Inl (Inr (Inl (D, E, f, t, j, vs))) \<Rightarrow> f
      | Inl (Inr (Inr (D, E, f, t, js, vs))) \<Rightarrow> f
      | Inr (Inl (D, E, f, j, ms)) \<Rightarrow> f
      | Inr (Inr (Inl (D, E, f, its, ms))) \<Rightarrow> f
      | Inr (Inr (Inr (D, E, f, fds, d, vs))) \<Rightarrow> f,
     \<lambda>x. case x of
        Inl (Inl (D, E, f, T, d, v)) \<Rightarrow> (if d = None then 0 else 1)
      | Inr (Inr (Inr (D, E, f, fds, d, vs))) \<Rightarrow> (if d = None then 0 else 1)
      | _ \<Rightarrow> (1 :: nat),
     \<lambda>x. case x of
        Inl (Inl (D, E, f, T, d, v)) \<Rightarrow> size T + 3
      | Inl (Inr (Inl (D, E, f, t, j, vs))) \<Rightarrow> 2
      | Inl (Inr (Inr (D, E, f, t, js, vs))) \<Rightarrow> 1
      | Inr (Inl (D, E, f, j, ms)) \<Rightarrow> 2
      | Inr (Inr (Inl (D, E, f, its, ms))) \<Rightarrow> 1
      | Inr (Inr (Inr (D, E, f, fds, d, vs))) \<Rightarrow> 1,
     \<lambda>x. case x of
        Inl (Inr (Inr (D, E, f, t, js, vs))) \<Rightarrow> length js
      | Inr (Inr (Inl (D, E, f, its, ms))) \<Rightarrow> length its
      | Inr (Inr (Inr (D, E, f, fds, d, vs))) \<Rightarrow> length fds
      | _ \<Rightarrow> 0]")
  apply (auto simp: bind_eq_Some_conv)
  done

subsection \<open>Serialisation\<close>

lemma size_nth_less: "k < length vs \<Longrightarrow> size (vs ! k) < size_list size vs"
proof (induction vs arbitrary: k)
  case (Cons v vs)
  then show ?case by (cases k) (auto simp: less_SucI trans_less_add2)
qed simp

text \<open>
  \<open>ser S E T v j r\<close> is \<^verbatim>\<open>TypeOf<T>::type()->serialize(s, &v)\<close> for a serializer \<open>s\<close> whose node holds \<open>j\<close> and
  whose flag \<^verbatim>\<open>removed\<close> is \<open>r\<close>: the returned flag, the new content of the node and the new flag. An
  object that is not of the type cannot be passed; the fall-through branches stand for it.
\<close>

function ser :: "'j Serializer \<Rightarrow> env \<Rightarrow> dap_type \<Rightarrow> val \<Rightarrow> 'j \<Rightarrow> bool \<Rightarrow> bool \<times> 'j \<times> bool"
and ser_elems :: "'j Serializer \<Rightarrow> env \<Rightarrow> dap_type \<Rightarrow> nat \<Rightarrow> val list \<Rightarrow> 'j \<Rightarrow> bool \<times> 'j"
and ser_members :: "'j Serializer \<Rightarrow> env \<Rightarrow> (string \<times> val) list \<Rightarrow> 'j \<Rightarrow> bool \<times> 'j"
and ser_fields :: "'j Serializer \<Rightarrow> env \<Rightarrow> Field list \<Rightarrow> val list \<Rightarrow> 'j \<Rightarrow> bool \<times> 'j"
where
  "ser S E TBoolean v j r = (case v of VBoolean b \<Rightarrow> (True, s_boolean S b, r) | _ \<Rightarrow> (False, j, r))"
| "ser S E TInteger v j r = (case v of VInteger i \<Rightarrow> (True, s_integer S i, r) | _ \<Rightarrow> (False, j, r))"
| "ser S E TNumber v j r = (case v of VNumber n \<Rightarrow> (True, s_number S n, r) | _ \<Rightarrow> (False, j, r))"
| "ser S E TString v j r = (case v of VString s \<Rightarrow> (True, s_string S s, r) | _ \<Rightarrow> (False, j, r))"
| "ser S E TNull v j r = (True, j, r)"
| "ser S E TObject v j r =
     (case v of
        VObject ms \<Rightarrow> (let (b, j') = ser_members S E ms (s_open_object S j) in (b, j', r))
      | _ \<Rightarrow> (False, j, r))"
| "ser S E TAny v j r =
     (case v of
        VAny (Some (t, x)) \<Rightarrow> ser S E t x j r
      | _ \<Rightarrow> (False, j, r))"
| "ser S E (TArray t) v j r =
     (case v of
        VArray vs \<Rightarrow> (let (b, j') = ser_elems S E t 0 vs (s_begin_array S j (length vs)) in (b, j', r))
      | _ \<Rightarrow> (False, j, r))"
| "ser S E (TOptional t) v j r =
     (case v of
        VOptional h x \<Rightarrow> (if h then ser S E t x j r else (True, j, True))
      | _ \<Rightarrow> (False, j, r))"
| "ser S E (TVariant ts) v j r = (case v of VVariant x \<Rightarrow> ser S E TAny x j r | _ \<Rightarrow> (False, j, r))"
| "ser S E (TStruct s) v j r =
     (case v of
        VStruct vs \<Rightarrow> (let (b, j') = ser_fields S E (struct_fields E s) vs (s_begin_object S j) in (b, j', r))
      | _ \<Rightarrow> (False, j, r))"
| "ser_elems S E t i [] j = (True, j)"
| "ser_elems S E t i (v # vs) j =
     (let (b, c, _) = ser S E t v (s_elem S j i) False; j' = s_set_elem S j i c
      in if b then ser_elems S E t (Suc i) vs j' else (False, j'))"
| "ser_members S E [] j = (True, j)"
| "ser_members S E ((k, v) # ms) j =
     (let (b, c, _) = ser S E TAny v (s_member S j k) False; j' = s_set_member S j k c
      in if b then ser_members S E ms j' else (False, j'))"
| "ser_fields S E [] vs j = (True, j)"
| "ser_fields S E (fd # fds) vs j =
     (if length vs \<le> fd_offset fd then (False, j)
      else
        (let (b, c, rm) = ser S E (fd_type fd) (vs ! fd_offset fd) (s_member S j (fd_name fd)) False;
             j' = s_set_member S j (fd_name fd) c;
             j'' = (if rm then s_erase S j' (fd_name fd) else j')
         in if b then ser_fields S E fds vs j'' else (False, j'')))"
  by pat_completeness auto
termination
  apply (relation "measures
    [\<lambda>x. case x of
        Inl (Inl (S, E, T, v, j, r)) \<Rightarrow> size v
      | Inl (Inr (S, E, t, i, vs, j)) \<Rightarrow> size_list size vs
      | Inr (Inl (S, E, ms, j)) \<Rightarrow> size_list (size_prod (\<lambda>_. 0) size) ms
      | Inr (Inr (S, E, fds, vs, j)) \<Rightarrow> size_list size vs,
     \<lambda>x. case x of
        Inr (Inr (S, E, fds, vs, j)) \<Rightarrow> length fds
      | _ \<Rightarrow> 0]")
  apply (auto simp: size_nth_less)
  done

subsection \<open>Deserialisation keeps objects well-typed\<close>

text \<open>
  What a back end promises about types: the scalar that it assigns to an \<^verbatim>\<open>any\<close> has the type that it
  is tagged with, and \<^verbatim>\<open>count()\<close> is the number of elements that \<^verbatim>\<open>array()\<close> visits.
\<close>

locale deserializer =
  fixes D :: "'j Deserializer"
  assumes any_scalar: "d_any D j = AnyScalar t x \<Longrightarrow> t \<noteq> TAny \<and> of_type ds t x"
    and count_array: "d_array D j = Some js \<Longrightarrow> d_count D j = Some (length js)"
begin

lemma resize_of_type:
  "\<forall>v \<in> set vs. of_type ds t v \<Longrightarrow> of_type ds t x \<Longrightarrow> \<forall>v \<in> set (resize x n vs). of_type ds t v"
  by (auto simp: resize_def dest: in_set_takeD)

lemma obj_put_of_type:
  "distinct (map fst ms) \<Longrightarrow> of_entries ds ms \<Longrightarrow> of_type ds TAny v \<Longrightarrow>
   distinct (map fst (obj_put ms k v)) \<and> of_entries ds (obj_put ms k v)"
proof (induction ms k v rule: obj_put.induct)
  case (2 k' v' m k v)
  have "fst ` set (obj_put m k v) = insert k (fst ` set m)"
    by (induction m k v rule: obj_put.induct) auto
  with 2 show ?case by auto
qed simp

lemma deser_keeps_type_aux:
  assumes wf: "wf_env E"
  shows "D' = D \<Longrightarrow> E' = E \<Longrightarrow> type_ok E T \<Longrightarrow> of_type (e_decls E) T v \<Longrightarrow>
      deser D' E' f T d v = Some (b, v') \<Longrightarrow> of_type (e_decls E) T v'"
    and "D' = D \<Longrightarrow> E' = E \<Longrightarrow> type_ok E t \<Longrightarrow> \<forall>v \<in> set vs. of_type (e_decls E) t v \<Longrightarrow>
      deser_array D' E' f t j vs = Some (b, vs') \<Longrightarrow> \<forall>v \<in> set vs'. of_type (e_decls E) t v"
    and "D' = D \<Longrightarrow> E' = E \<Longrightarrow> type_ok E t \<Longrightarrow> \<forall>v \<in> set vs. of_type (e_decls E) t v \<Longrightarrow>
      deser_elems D' E' f t js vs = Some (b, vs') \<Longrightarrow> \<forall>v \<in> set vs'. of_type (e_decls E) t v"
    and "D' = D \<Longrightarrow> E' = E \<Longrightarrow> distinct (map fst ms) \<Longrightarrow> of_entries (e_decls E) ms \<Longrightarrow>
      deser_object D' E' f j ms = Some (b, ms') \<Longrightarrow> distinct (map fst ms') \<and> of_entries (e_decls E) ms'"
    and "D' = D \<Longrightarrow> E' = E \<Longrightarrow> distinct (map fst ms) \<Longrightarrow> of_entries (e_decls E) ms \<Longrightarrow>
      deser_items D' E' f its ms = Some (b, ms') \<Longrightarrow> distinct (map fst ms') \<and> of_entries (e_decls E) ms'"
    and "\<And>ts. D' = D \<Longrightarrow> E' = E \<Longrightarrow>
      (\<And>fd. fd \<in> set fds \<Longrightarrow> fd_offset fd < length ts \<and> fd_type fd = ts ! fd_offset fd \<and> type_ok E (fd_type fd)) \<Longrightarrow>
      of_types (e_decls E) ts vs \<Longrightarrow>
      deser_fields D' E' f fds d vs = Some (b, vs') \<Longrightarrow> of_types (e_decls E) ts vs'"
proof (induction D' E' f T d v and D' E' f t j vs and D' E' f t js vs and D' E' f j ms
    and D' E' f its ms and D' E' f fds d vs
    arbitrary: b v' and b vs' and b vs' and b ms' and b ms' and b vs'
    rule: deser_deser_array_deser_elems_deser_object_deser_items_deser_fields.induct)
  case (6 D' E' f d v)
  obtain ms where "v = VObject ms" "distinct (map fst ms)" "of_entries (e_decls E) ms"
    using of_type_objectD [OF "6.prems"(4)] by auto
  with 6 show ?case by (auto split: option.splits)
next
  case (7 D' E' f d v)
  then show ?case
    by (auto split: option.splits any_case.splits if_splits simp: of_types_replicate type_ok_def
        dest!: any_scalar)
next
  case (8 D' E' f t d v)
  obtain vs where "v = VArray vs" "\<forall>u \<in> set vs. of_type (e_decls E) t u"
    using of_type_arrayD [OF "8.prems"(4)] by auto
  moreover have "type_ok E t" using "8.prems"(3) by (simp add: type_ok_def)
  ultimately show ?case using 8 by (auto split: option.splits simp: of_types_replicate)
next
  case (9 D' E' f t d v)
  have "of_type (e_decls E) t (default_of (e_decls E) t)"
    using default_of_type_ok [OF wf] 9 by (simp add: type_ok_def)
  moreover obtain h u where "v = VOptional h u" "of_type (e_decls E) t u"
    using of_type_optionalD [OF "9.prems"(4)] by auto
  moreover have "type_ok E t" using "9.prems"(3) by (simp add: type_ok_def)
  ultimately show ?case using 9 by (auto split: if_splits)
next
  case (10 D' E' f ts d v)
  obtain u where "v = VVariant u" "of_type (e_decls E) TAny u"
    using of_type_variantD [OF "10.prems"(4)] by auto
  moreover have "type_ok E TAny" by (simp add: type_ok_def)
  ultimately show ?case using 10 by auto
next
  case (11 D' E' f s d v)
  obtain vs where v: "v = VStruct vs"
    and vs: "of_types (e_decls E) (map m_type (members_of (e_decls E) s)) vs"
    using of_type_structD [OF "11.prems"(4)] by auto
  obtain vs' where vs': "deser_fields D E f (struct_fields E s) d vs = Some (b, vs')" "v' = VStruct vs'"
    using 11 v by auto
  have "of_types (e_decls E) (map m_type (members_of (e_decls E) s)) vs'"
    using "11.IH" [OF v "11.prems"(1,2) _ vs, of b vs'] struct_fields_typed [OF wf] vs'(1) "11.prems"(1,2)
    by blast
  then show ?case using vs'(2) by simp
next
  case (12 D' E' f t j vs)
  have "of_type (e_decls E) t (default_of (e_decls E) t)"
    using default_of_type_ok [OF wf] "12.prems"(3) by simp
  then have rs: "\<forall>v \<in> set (resize (default_of (e_decls E) t) n vs). of_type (e_decls E) t v" for n
    using resize_of_type "12.prems"(4) by blast
  show ?case
  proof (cases "d_array D j")
    case None
    with "12.prems" rs show ?thesis by (auto split: option.splits)
  next
    case (Some js)
    let ?vs = "resize (default_of (e_decls E) t) (length js) vs"
    have "deser_elems D E f t js ?vs = Some (b, vs')"
      using "12.prems"(1,2,5) Some count_array [OF Some] by simp
    then show ?thesis
      using "12.IH" [of "length js" js b vs'] "12.prems"(1,2,3) Some count_array [OF Some] rs by simp
  qed
next
  case (15 D' E' f t j js v vs)
  obtain g u c where g: "f = Suc g" "deser D E g t (Some j) v = Some (c, u)"
    using "15.prems"(1,2,5) by (auto split: nat.splits option.splits)
  then have u: "of_type (e_decls E) t u"
    using "15.IH"(1) [OF g(1), of c u] "15.prems" by simp
  show ?case
  proof (cases c)
    case True
    with 15 g obtain us where "deser_elems D E f t js vs = Some (b, us)" "vs' = u # us"
      by auto
    with "15.IH"(2) [OF g(1), of "(c, u)" c u b us] "15.prems" g u True show ?thesis by simp
  next
    case False
    with 15 g u show ?thesis by auto
  qed
next
  case (16 D' E' f j ms)
  obtain its where its: "d_items D' j = Some its" "deser_items D' E' f its ms = Some (b, ms')"
    using "16.prems"(5) by (cases "d_items D' j") simp_all
  show ?case by (rule "16.IH" [OF its(1) "16.prems"(1-4) its(2)])
next
  case (18 D' E' f k j its ms)
  obtain g u c where g: "f = Suc g" "deser D E g TAny (Some j) (VAny None) = Some (c, u)"
    using "18.prems"(1,2,5) by (auto split: nat.splits option.splits)
  have u: "of_type (e_decls E) TAny u"
    using "18.IH"(1) [OF g(1) "18.prems"(1,2), of c u] g(2) "18.prems"(1,2) by (simp add: type_ok_def)
  show ?case
  proof (cases c)
    case True
    then have it: "deser_items D' E' f its (obj_put ms k u) = Some (b, ms')"
      using "18.prems"(1,2,5) g by simp
    have "deser D' E' g TAny (Some j) (VAny None) = Some (c, u)"
      using g(2) "18.prems"(1,2) by simp
    from "18.IH"(2) [OF g(1) this refl True "18.prems"(1,2) _ _ it] show ?thesis
      using obj_put_of_type [OF "18.prems"(3,4) u] by blast
  next
    case False
    then show ?thesis using "18.prems" g by simp
  qed
next
  case (20 D' E' f fd fds d vs)
  have fd: "fd_offset fd < length ts" "fd_type fd = ts ! fd_offset fd" "type_ok E (ts ! fd_offset fd)"
    using "20.prems"(3) [of fd] by auto
  show ?case
  proof (cases "Option.bind d (\<lambda>j. d_field D j (fd_name fd))")
    case None
    with "20.prems" show ?thesis by simp
  next
    case (Some c)
    have len: "length vs = length ts"
      using "20.prems"(4) by (simp add: of_types_list_all2 list_all2_lengthD)
    have v: "of_type (e_decls E) (fd_type fd) (vs ! fd_offset fd)"
      using "20.prems"(4) fd by (simp add: of_types_list_all2 list_all2_conv_all_nth)
    obtain r u where r: "(case c of None \<Rightarrow> deser D E f (fd_type fd) None (vs ! fd_offset fd)
          | Some j \<Rightarrow> (case f of 0 \<Rightarrow> None | Suc g \<Rightarrow> deser D E g (fd_type fd) (Some j) (vs ! fd_offset fd)))
          = Some (r, u)"
      using "20.prems"(1,2,5) Some fd len by (auto simp: not_le split: option.splits)
    have u: "of_type (e_decls E) (fd_type fd) u"
    proof (cases c)
      case None
      then show ?thesis using "20.IH"(1) [OF _ _ None, of r u] "20.prems"(1,2) Some fd len v r by simp
    next
      case (Some j)
      then obtain g where "f = Suc g" using r by (cases f) auto
      then show ?thesis
        using "20.IH"(2) [OF _ _ Some, of g r u] "20.prems"(1,2) \<open>_ = Some c\<close> fd len v r Some by simp
    qed
    have up: "of_types (e_decls E) ts (vs[fd_offset fd := u])"
      using of_types_update [OF "20.prems"(4)] u fd len by simp
    show ?thesis
    proof (cases r)
      case True
      then have "deser_fields D E f fds d (vs[fd_offset fd := u]) = Some (b, vs')"
        using "20.prems"(1,2,5) Some r fd len by simp
      moreover have "Option.bind d (\<lambda>j. d_field D' j (fd_name fd)) = Some c"
        and "\<not> length vs \<le> fd_offset fd"
        and "(case c of None \<Rightarrow> deser D' E' f (fd_type fd) None (vs ! fd_offset fd)
          | Some j \<Rightarrow> (case f of 0 \<Rightarrow> None | Suc g \<Rightarrow> deser D' E' g (fd_type fd) (Some j) (vs ! fd_offset fd)))
          = Some (r, u)"
        using Some r fd len unfolding "20.prems"(1,2) by simp_all
      moreover have "fd_offset x < length ts \<and> fd_type x = ts ! fd_offset x \<and> type_ok E (fd_type x)"
        if "x \<in> set fds" for x
        using "20.prems"(3) [of x] that by auto
      ultimately show ?thesis
        using "20.IH"(3) [of c "(r, u)" r u ts b vs', OF _ _ _ refl True "20.prems"(1,2) _ up]
          "20.prems"(1,2) by blast
    next
      case False
      then show ?thesis using "20.prems"(1,2,5) Some r fd len up by simp
    qed
  qed
qed (auto simp: scalar_def split: option.splits elim: of_type.elims)

lemma deser_keeps_type:
  assumes "wf_env E" and "type_ok E T" and "of_type (e_decls E) T v" and "deser D E f T d v = Some (b, v')"
  shows "of_type (e_decls E) T v'"
  using deser_keeps_type_aux(1) [OF assms(1) refl refl assms(2-4)] .

end

subsection \<open>Deserialisation returns\<close>

text \<open>
  A back end in which no method stops the program, with a measure of the depth of a document. The
  members that \<^verbatim>\<open>deserialize(object*)\<close> visits may include the node itself when it is a scalar, which
  \<^verbatim>\<open>deserialize(any*)\<close> decodes without going deeper.
\<close>

definition flat :: "'j Deserializer \<Rightarrow> 'j \<Rightarrow> bool" where
  "flat D j \<longleftrightarrow> d_any D j \<noteq> AnyObject \<and> d_any D j \<noteq> AnyArray"

locale total_deserializer = deserializer D for D :: "'j Deserializer" +
  fixes depth :: "'j \<Rightarrow> nat"
  assumes items_some: "d_items D j \<noteq> None"
    and count_some: "d_count D j \<noteq> None"
    and items_depth: "d_items D j = Some its \<Longrightarrow> (k, c) \<in> set its \<Longrightarrow>
      0 < depth j \<and> (depth c < depth j \<or> flat D c)"
    and array_depth: "d_array D j = Some js \<Longrightarrow> c \<in> set js \<Longrightarrow> depth c < depth j"
    and field_depth: "d_field D j k = Some (Some c) \<Longrightarrow> depth c < depth j"
begin

abbreviation within :: "nat \<Rightarrow> dap_type \<Rightarrow> 'j \<Rightarrow> bool" where
  "within f T j \<equiv> depth j \<le> f \<or> (T = TAny \<and> flat D j)"

lemma deser_returns_aux:
  assumes wf: "wf_env E"
  shows "D' = D \<Longrightarrow> E' = E \<Longrightarrow> type_ok E T \<Longrightarrow> of_type (e_decls E) T v \<Longrightarrow>
      (\<And>j. d = Some j \<Longrightarrow> within f T j) \<Longrightarrow> deser D' E' f T d v \<noteq> None"
    and "D' = D \<Longrightarrow> E' = E \<Longrightarrow> type_ok E t \<Longrightarrow> \<forall>v \<in> set vs. of_type (e_decls E) t v \<Longrightarrow>
      depth j \<le> f \<Longrightarrow> deser_array D' E' f t j vs \<noteq> None"
    and "D' = D \<Longrightarrow> E' = E \<Longrightarrow> type_ok E t \<Longrightarrow> \<forall>v \<in> set vs. of_type (e_decls E) t v \<Longrightarrow>
      length js \<le> length vs \<Longrightarrow> (\<And>c. c \<in> set js \<Longrightarrow> depth c < f) \<Longrightarrow> deser_elems D' E' f t js vs \<noteq> None"
    and "D' = D \<Longrightarrow> E' = E \<Longrightarrow> depth j \<le> f \<Longrightarrow> deser_object D' E' f j ms \<noteq> None"
    and "D' = D \<Longrightarrow> E' = E \<Longrightarrow> (\<And>k c. (k, c) \<in> set its \<Longrightarrow> 0 < f \<and> (depth c < f \<or> flat D c)) \<Longrightarrow>
      deser_items D' E' f its ms \<noteq> None"
    and "\<And>ts. D' = D \<Longrightarrow> E' = E \<Longrightarrow>
      (\<And>fd. fd \<in> set fds \<Longrightarrow> fd_offset fd < length ts \<and> fd_type fd = ts ! fd_offset fd \<and> type_ok E (fd_type fd)) \<Longrightarrow>
      of_types (e_decls E) ts vs \<Longrightarrow> (\<And>j. d = Some j \<Longrightarrow> depth j \<le> f) \<Longrightarrow>
      deser_fields D' E' f fds d vs \<noteq> None"
proof (induction D' E' f T d v and D' E' f t j vs and D' E' f t js vs and D' E' f j ms
    and D' E' f its ms and D' E' f fds d vs
    rule: deser_deser_array_deser_elems_deser_object_deser_items_deser_fields.induct)
  case (6 D' E' f d v)
  obtain ms where v: "v = VObject ms" using of_type_objectD [OF "6.prems"(4)] by auto
  show ?case
  proof (cases d)
    case (Some j)
    then show ?thesis using "6.IH" "6.prems"(1,2,5) v by simp
  qed simp
next
  case (7 D' E' f d v)
  show ?case
  proof (cases d)
    case (Some j)
    then have "depth j \<le> f" if "\<not> flat D j" using "7.prems"(5) that by simp
    then show ?thesis
      using "7.IH" Some "7.prems"(1,2)
      by (cases "d_any D j") (auto simp: flat_def type_ok_def)
  qed simp
next
  case (8 D' E' f t d v)
  obtain vs where v: "v = VArray vs" "\<forall>u \<in> set vs. of_type (e_decls E) t u"
    using of_type_arrayD [OF "8.prems"(4)] by auto
  have t: "type_ok E t" using "8.prems"(3) by (simp add: type_ok_def)
  show ?case
  proof (cases d)
    case (Some j)
    then show ?thesis using "8.IH" "8.prems"(1,2,5) v t by simp
  qed (simp add: v)
next
  case (9 D' E' f t d v)
  have t: "type_ok E t" using "9.prems"(3) by (simp add: type_ok_def)
  then have "of_type (e_decls E) t (default_of (e_decls E) t)" using default_of_type_ok [OF wf] by simp
  with t show ?case using "9.IH" "9.prems"(1,2,5) by auto
next
  case (10 D' E' f ts d v)
  obtain u where "v = VVariant u" "of_type (e_decls E) TAny u"
    using of_type_variantD [OF "10.prems"(4)] by auto
  moreover have "type_ok E TAny" by (simp add: type_ok_def)
  ultimately show ?case using 10 by auto
next
  case (11 D' E' f s d v)
  obtain vs where v: "v = VStruct vs"
    and vs: "of_types (e_decls E) (map m_type (members_of (e_decls E) s)) vs"
    using of_type_structD [OF "11.prems"(4)] by auto
  have dp: "\<And>j. d = Some j \<Longrightarrow> depth j \<le> f" using "11.prems"(5) by simp
  have "deser_fields D' E' f (struct_fields E' s) d vs \<noteq> None"
    using "11.IH" [OF v "11.prems"(1,2) _ vs dp] struct_fields_typed [OF wf] "11.prems"(2) by blast
  then show ?case using v by simp
next
  case (12 D' E' f t j vs)
  have "of_type (e_decls E) t (default_of (e_decls E) t)"
    using default_of_type_ok [OF wf] "12.prems"(3) by simp
  then have rs: "\<forall>v \<in> set (resize (default_of (e_decls E) t) n vs). of_type (e_decls E) t v" for n
    using resize_of_type "12.prems"(4) by blast
  show ?case
  proof (cases "d_array D j")
    case None
    then show ?thesis using count_some [of j] "12.prems"(1,2) by auto
  next
    case (Some js)
    have "depth c < f" if "c \<in> set js" for c
      using array_depth [OF Some that] "12.prems"(5) by simp
    moreover have "length js \<le> length (resize (default_of (e_decls E) t) (length js) vs)"
      by (simp add: resize_def)
    ultimately show ?thesis
      using "12.IH" [of "length js" js] "12.prems"(1,2,3) Some count_array [OF Some] rs by simp
  qed
next
  case (15 D' E' f t j js v vs)
  obtain g where g: "f = Suc g" using "15.prems"(6) [of j] by (cases f) auto
  have "deser D' E' g t (Some j) v \<noteq> None"
    using "15.IH"(1) [OF g] "15.prems" g by fastforce
  then obtain c u where u: "deser D' E' g t (Some j) v = Some (c, u)" by auto
  show ?case
  proof (cases c)
    case True
    have "deser_elems D' E' f t js vs \<noteq> None"
      using "15.IH"(2) [OF g u refl True] "15.prems" by simp
    with g u True show ?thesis by auto
  qed (use g u in simp)
next
  case (16 D' E' f j ms)
  obtain its where its: "d_items D j = Some its" using items_some [of j] by auto
  have "0 < f \<and> (depth c < f \<or> flat D c)" if "(k, c) \<in> set its" for k c
    using items_depth [OF its that] "16.prems"(3) by auto
  with "16.IH" [of its] its "16.prems"(1,2) show ?case by simp
next
  case (18 D' E' f k j its ms)
  obtain g where g: "f = Suc g" using "18.prems"(3) [of k j] by (cases f) auto
  have "deser D' E' g TAny (Some j) (VAny None) \<noteq> None"
    using "18.IH"(1) [OF g] "18.prems"(1,2) "18.prems"(3) [of k j] g by (fastforce simp: type_ok_def)
  then obtain c u where u: "deser D' E' g TAny (Some j) (VAny None) = Some (c, u)" by auto
  show ?case
  proof (cases c)
    case True
    have "deser_items D' E' f its (obj_put ms k u) \<noteq> None"
      using "18.IH"(2) [OF g u refl True "18.prems"(1,2)] "18.prems"(3) by (meson list.set_intros(2))
    with g u True show ?thesis by (simp del: deser.simps)
  qed (use g u in \<open>simp del: deser.simps\<close>)
next
  case (20 D' E' f fd fds d vs)
  have fd: "fd_offset fd < length ts" "fd_type fd = ts ! fd_offset fd" "type_ok E (fd_type fd)"
    using "20.prems"(3) [of fd] by auto
  show ?case
  proof (cases "Option.bind d (\<lambda>j. d_field D' j (fd_name fd))")
    case None
    then show ?thesis by simp
  next
    case (Some c)
    have len: "length vs = length ts"
      using "20.prems"(4) by (simp add: of_types_list_all2 list_all2_lengthD)
    have v: "of_type (e_decls E) (fd_type fd) (vs ! fd_offset fd)"
      using "20.prems"(4) fd by (simp add: of_types_list_all2 list_all2_conv_all_nth)
    have off: "\<not> length vs \<le> fd_offset fd" using fd len by simp
    let ?r = "case c of None \<Rightarrow> deser D' E' f (fd_type fd) None (vs ! fd_offset fd)
          | Some j \<Rightarrow> (case f of 0 \<Rightarrow> None | Suc g \<Rightarrow> deser D' E' g (fd_type fd) (Some j) (vs ! fd_offset fd))"
    have "\<exists>r u. ?r = Some (r, u) \<and> of_type (e_decls E) (fd_type fd) u"
    proof (cases c)
      case None
      have "deser D' E' f (fd_type fd) None (vs ! fd_offset fd) \<noteq> None"
        using "20.IH"(1) [OF Some off None "20.prems"(1,2) fd(3) v] by simp
      then obtain r u where "deser D' E' f (fd_type fd) None (vs ! fd_offset fd) = Some (r, u)" by auto
      with None show ?thesis using deser_keeps_type [OF wf fd(3) v] "20.prems"(1,2) by auto
    next
      case c: (Some j)
      obtain j0 where j0: "d = Some j0" "d_field D j0 (fd_name fd) = Some (Some j)"
        using Some c "20.prems"(1) by (auto simp: bind_eq_Some_conv)
      have "depth j < f" using field_depth [OF j0(2)] "20.prems"(5) [OF j0(1)] by simp
      then obtain g where g: "f = Suc g" "depth j \<le> g" by (cases f) auto
      have "deser D' E' g (fd_type fd) (Some j) (vs ! fd_offset fd) \<noteq> None"
        using "20.IH"(2) [OF Some off c g(1) "20.prems"(1,2) fd(3) v] g(2) by simp
      then obtain r u where "deser D' E' g (fd_type fd) (Some j) (vs ! fd_offset fd) = Some (r, u)" by auto
      with c g show ?thesis using deser_keeps_type [OF wf fd(3) v] "20.prems"(1,2) by auto
    qed
    then obtain r u where r: "?r = Some (r, u)" "of_type (e_decls E) (fd_type fd) u" by auto
    have up: "of_types (e_decls E) ts (vs[fd_offset fd := u])"
      using of_types_update [OF "20.prems"(4)] r(2) fd len by simp
    have rest: "\<And>x. x \<in> set fds \<Longrightarrow>
        fd_offset x < length ts \<and> fd_type x = ts ! fd_offset x \<and> type_ok E (fd_type x)"
      using "20.prems"(3) by (meson list.set_intros(2))
    show ?thesis
    proof (cases r)
      case True
      then show ?thesis
        using "20.IH"(3) [OF Some off r(1) refl True "20.prems"(1,2) rest up "20.prems"(5)] Some off r(1)
        by simp
    qed (use Some off r(1) in simp)
  qed
qed simp_all

lemma deser_returns:
  assumes "wf_env E" and "type_ok E T" and "of_type (e_decls E) T v" and "depth j \<le> f"
  shows "\<exists>b v'. deser D E f T (Some j) v = Some (b, v') \<and> of_type (e_decls E) T v'"
proof -
  have "deser D E f T (Some j) v \<noteq> None"
    using deser_returns_aux(1) [OF assms(1) refl refl assms(2,3), of "Some j" f] assms(4) by simp
  then show ?thesis using deser_keeps_type [OF assms(1-3)] by fastforce
qed

end

end
