(* ===== verification/RoundTrip.thy ===== *)
theory RoundTrip
  imports Serialization
begin

section \<open>Serialised values are read back\<close>

text \<open>
  The contract between \<^verbatim>\<open>serialize\<close> and \<^verbatim>\<open>deserialize\<close>. The type \<open>json\<close> has the documents that JSON
  (RFC 8259) describes and \<open>json_of\<close> says which document stands for a value; a back end is correct
  when its nodes represent such documents and its methods read and change them accordingly.
\<close>

datatype json =
    JNull
  | JBool bool
  | JInt int64
  | JNum number
  | JStr string
  | JArr "json list"
  | JObj "(string \<times> json) list"

fun jdepth :: "json \<Rightarrow> nat" where
  "jdepth (JArr js) = Suc (foldr max (map jdepth js) 0)"
| "jdepth (JObj ms) = Suc (foldr max (map (\<lambda>(k, j). jdepth j) ms) 0)"
| "jdepth _ = 1"

lemma foldr_max_ge: "(x :: nat) \<in> set xs \<Longrightarrow> x \<le> foldr max xs 0"
  by (induction xs) auto

lemma jdepth_elem: "j \<in> set js \<Longrightarrow> jdepth j < jdepth (JArr js)"
  using foldr_max_ge [of "jdepth j" "map jdepth js"] by (simp add: less_Suc_eq_le)

lemma jdepth_member: "(k, j) \<in> set ms \<Longrightarrow> jdepth j < jdepth (JObj ms)"
  using foldr_max_ge [of "jdepth j" "map (\<lambda>(k, j). jdepth j) ms"] by (force simp: less_Suc_eq_le)

subsection \<open>The document of a value\<close>

text \<open>\<^term>\<open>None\<close> stands for a member that is left out: an optional without a value.\<close>

function json_of :: "env \<Rightarrow> dap_type \<Rightarrow> val \<Rightarrow> json option"
and json_elems :: "env \<Rightarrow> dap_type \<Rightarrow> val list \<Rightarrow> json list"
and json_members :: "env \<Rightarrow> (string \<times> val) list \<Rightarrow> (string \<times> json) list"
and json_fields :: "env \<Rightarrow> Field list \<Rightarrow> val list \<Rightarrow> (string \<times> json) list"
where
  "json_of E TBoolean v = (case v of VBoolean b \<Rightarrow> Some (JBool b) | _ \<Rightarrow> None)"
| "json_of E TInteger v = (case v of VInteger i \<Rightarrow> Some (JInt i) | _ \<Rightarrow> None)"
| "json_of E TNumber v = (case v of VNumber n \<Rightarrow> Some (JNum n) | _ \<Rightarrow> None)"
| "json_of E TString v = (case v of VString s \<Rightarrow> Some (JStr s) | _ \<Rightarrow> None)"
| "json_of E TNull v = Some JNull"
| "json_of E TObject v = (case v of VObject ms \<Rightarrow> Some (JObj (json_members E ms)) | _ \<Rightarrow> None)"
| "json_of E TAny v = (case v of VAny (Some (t, x)) \<Rightarrow> json_of E t x | _ \<Rightarrow> None)"
| "json_of E (TArray t) v = (case v of VArray vs \<Rightarrow> Some (JArr (json_elems E t vs)) | _ \<Rightarrow> None)"
| "json_of E (TOptional t) v = (case v of VOptional h x \<Rightarrow> if h then json_of E t x else None | _ \<Rightarrow> None)"
| "json_of E (TVariant ts) v = (case v of VVariant x \<Rightarrow> json_of E TAny x | _ \<Rightarrow> None)"
| "json_of E (TStruct s) v =
     (case v of VStruct vs \<Rightarrow> Some (JObj (json_fields E (struct_fields E s) vs)) | _ \<Rightarrow> None)"
| "json_elems E t [] = []"
| "json_elems E t (v # vs) =
     (case json_of E t v of None \<Rightarrow> JNull | Some j \<Rightarrow> j) # json_elems E t vs"
| "json_members E [] = []"
| "json_members E ((k, v) # ms) =
     (case json_of E TAny v of None \<Rightarrow> [] | Some j \<Rightarrow> [(k, j)]) @ json_members E ms"
| "json_fields E [] vs = []"
| "json_fields E (fd # fds) vs =
     (if length vs \<le> fd_offset fd then []
      else (case json_of E (fd_type fd) (vs ! fd_offset fd) of None \<Rightarrow> [] | Some j \<Rightarrow> [(fd_name fd, j)]))
     @ json_fields E fds vs"
  by pat_completeness auto
termination
  apply (relation "measures
    [\<lambda>x. case x of
        Inl (Inl (E, T, v)) \<Rightarrow> size v
      | Inl (Inr (E, t, vs)) \<Rightarrow> size_list size vs
      | Inr (Inl (E, ms)) \<Rightarrow> size_list (size_prod (\<lambda>_. 0) size) ms
      | Inr (Inr (E, fds, vs)) \<Rightarrow> size_list size vs,
     \<lambda>x. case x of
        Inr (Inr (E, fds, vs)) \<Rightarrow> length fds
      | _ \<Rightarrow> 0]")
  apply (auto simp: size_nth_less)
  done

subsection \<open>Values that survive\<close>

text \<open>
  Not every object can be read back. \<open>portable\<close> says which can: an \<^verbatim>\<open>any\<close> must hold one of the types
  that \<^verbatim>\<open>deserialize(any*)\<close> produces; an array must not hold optionals, because a removed element
  stays behind as a null; an optional must not hold a type that reads successfully from a missing
  field; and every member of a struct must be listed once in its type information. The two
  parameters say which strings, and which integers inside an \<^verbatim>\<open>any\<close>, the back end keeps.
\<close>

definition struct_total :: "env \<Rightarrow> string \<Rightarrow> bool" where
  "struct_total E s \<longleftrightarrow> distinct (map fd_name (struct_fields E s))
     \<and> distinct (map fd_offset (struct_fields E s))
     \<and> length (struct_fields E s) = length (members_of (e_decls E) s)"

fun plain :: "dap_type \<Rightarrow> bool" where
  "plain (TArray t) = (t = TAny)"
| "plain (TOptional t) = False"
| "plain (TVariant ts) = False"
| "plain (TStruct s) = False"
| "plain TAny = False"
| "plain _ = True"

fun is_optional :: "dap_type \<Rightarrow> bool" where
  "is_optional (TOptional t) = True"
| "is_optional _ = False"

fun rejects_null :: "env \<Rightarrow> dap_type \<Rightarrow> bool" where
  "rejects_null E TNull = False"
| "rejects_null E (TOptional t) = False"
| "rejects_null E (TStruct s) = (struct_fields E s \<noteq> [])"
| "rejects_null E _ = True"

function portable :: "(string \<Rightarrow> bool) \<Rightarrow> (int64 \<Rightarrow> bool) \<Rightarrow> env \<Rightarrow> dap_type \<Rightarrow> val \<Rightarrow> bool"
and portable_elems :: "(string \<Rightarrow> bool) \<Rightarrow> (int64 \<Rightarrow> bool) \<Rightarrow> env \<Rightarrow> dap_type \<Rightarrow> val list \<Rightarrow> bool"
and portable_members :: "(string \<Rightarrow> bool) \<Rightarrow> (int64 \<Rightarrow> bool) \<Rightarrow> env \<Rightarrow> (string \<times> val) list \<Rightarrow> bool"
and portable_fields :: "(string \<Rightarrow> bool) \<Rightarrow> (int64 \<Rightarrow> bool) \<Rightarrow> env \<Rightarrow> Field list \<Rightarrow> val list \<Rightarrow> bool"
where
  "portable P Q E TBoolean v = (case v of VBoolean b \<Rightarrow> True | _ \<Rightarrow> False)"
| "portable P Q E TInteger v = (case v of VInteger i \<Rightarrow> True | _ \<Rightarrow> False)"
| "portable P Q E TNumber v = (case v of VNumber n \<Rightarrow> True | _ \<Rightarrow> False)"
| "portable P Q E TString v = (case v of VString s \<Rightarrow> P s | _ \<Rightarrow> False)"
| "portable P Q E TNull v = (v = VNull)"
| "portable P Q E TObject v =
     (case v of VObject ms \<Rightarrow> distinct (map fst ms) \<and> portable_members P Q E ms | _ \<Rightarrow> False)"
| "portable P Q E TAny v =
     (case v of
        VAny (Some (t, x)) \<Rightarrow>
          plain t \<and> (case x of VInteger i \<Rightarrow> Q i | _ \<Rightarrow> True) \<and> portable P Q E t x
      | _ \<Rightarrow> False)"
| "portable P Q E (TArray t) v =
     (case v of
        VArray vs \<Rightarrow> \<not> is_optional t \<and> int (length vs) < 2 ^ 32 \<and> portable_elems P Q E t vs
      | _ \<Rightarrow> False)"
| "portable P Q E (TOptional t) v =
     (case v of VOptional h x \<Rightarrow> rejects_null E t \<and> (h \<longrightarrow> portable P Q E t x) | _ \<Rightarrow> False)"
| "portable P Q E (TVariant ts) v = (case v of VVariant x \<Rightarrow> portable P Q E TAny x | _ \<Rightarrow> False)"
| "portable P Q E (TStruct s) v =
     (case v of
        VStruct vs \<Rightarrow> struct_total E s \<and> length vs = length (members_of (e_decls E) s)
          \<and> portable_fields P Q E (struct_fields E s) vs
      | _ \<Rightarrow> False)"
| "portable_elems P Q E t [] = True"
| "portable_elems P Q E t (v # vs) = (portable P Q E t v \<and> portable_elems P Q E t vs)"
| "portable_members P Q E [] = True"
| "portable_members P Q E ((k, v) # ms) = (P k \<and> portable P Q E TAny v \<and> portable_members P Q E ms)"
| "portable_fields P Q E [] vs = True"
| "portable_fields P Q E (fd # fds) vs =
     (if fd_offset fd < length vs
      then P (fd_name fd) \<and> portable P Q E (fd_type fd) (vs ! fd_offset fd) \<and> portable_fields P Q E fds vs
      else False)"
  by pat_completeness auto
termination
  apply (relation "measures
    [\<lambda>x. case x of
        Inl (Inl (P, Q, E, T, v)) \<Rightarrow> size v
      | Inl (Inr (P, Q, E, t, vs)) \<Rightarrow> size_list size vs
      | Inr (Inl (P, Q, E, ms)) \<Rightarrow> size_list (size_prod (\<lambda>_. 0) size) ms
      | Inr (Inr (P, Q, E, fds, vs)) \<Rightarrow> size_list size vs,
     \<lambda>x. case x of
        Inr (Inr (P, Q, E, fds, vs)) \<Rightarrow> length fds
      | _ \<Rightarrow> 0]")
  apply (auto simp: size_nth_less)
  done

subsection \<open>Types whose values are portable\<close>

text \<open>
  Most of what \<open>portable\<close> asks is a matter of the declared types. \<open>portable_type\<close> checks a type, given
  the structs that have fields and those that are left out; then only the contents of strings,
  arrays and \<^verbatim>\<open>any\<close>s remain to be checked of a value, which \<open>sendable\<close> does.
\<close>

fun portable_type :: "string list \<Rightarrow> string list \<Rightarrow> dap_type \<Rightarrow> bool" where
  "portable_type R B (TArray t) = (\<not> is_optional t \<and> portable_type R B t)"
| "portable_type R B (TOptional t) =
     ((case t of TNull \<Rightarrow> False | TOptional _ \<Rightarrow> False | TStruct s \<Rightarrow> s \<in> set R | _ \<Rightarrow> True)
      \<and> portable_type R B t)"
| "portable_type R B (TStruct s) = (s \<notin> set B)"
| "portable_type R B _ = True"

fun sendable :: "(string \<Rightarrow> bool) \<Rightarrow> (int64 \<Rightarrow> bool) \<Rightarrow> val \<Rightarrow> bool" where
  "sendable P Q (VString s) = P s"
| "sendable P Q (VObject ms) = list_all (\<lambda>(k, v). P k \<and> sendable P Q v) ms"
| "sendable P Q (VAny None) = False"
| "sendable P Q (VAny (Some (t, v))) =
     (plain t \<and> (case v of VInteger i \<Rightarrow> Q i | _ \<Rightarrow> True) \<and> sendable P Q v)"
| "sendable P Q (VArray vs) = (int (length vs) < 2 ^ 32 \<and> list_all (sendable P Q) vs)"
| "sendable P Q (VOptional h v) = (h \<longrightarrow> sendable P Q v)"
| "sendable P Q (VVariant v) = sendable P Q v"
| "sendable P Q (VStruct vs) = list_all (sendable P Q) vs"
| "sendable P Q _ = True"

lemma portable_elemsI: "\<forall>v \<in> set vs. portable P Q E t v \<Longrightarrow> portable_elems P Q E t vs"
  by (induction vs) auto

lemma portable_membersI:
  "\<forall>(k, v) \<in> set ms. P k \<and> portable P Q E TAny v \<Longrightarrow> portable_members P Q E ms"
  by (induction ms) (auto simp del: portable.simps(7))

lemma portable_fieldsI:
  "\<forall>fd \<in> set fds. fd_offset fd < length vs \<and> P (fd_name fd) \<and> portable P Q E (fd_type fd) (vs ! fd_offset fd)
   \<Longrightarrow> portable_fields P Q E fds vs"
  by (induction fds) auto

lemma portable_type_plain: "plain t \<Longrightarrow> portable_type R B t"
  by (cases t) auto

lemma size_entry: "(k, v) \<in> set ms \<Longrightarrow> size v < size (VObject ms)"
  by (induction ms) auto

lemma size_element: "v \<in> set vs \<Longrightarrow> size v < size (VArray vs)"
  by (induction vs) auto

lemma size_member: "k < length vs \<Longrightarrow> size (vs ! k) < size (VStruct vs)"
  using size_nth_less [of k vs] by simp

locale portable_env =
  fixes E :: env and P :: "string \<Rightarrow> bool" and Q :: "int64 \<Rightarrow> bool" and R B :: "string list"
  assumes wf: "wf_env E"
    and nonempty: "s \<in> set R \<Longrightarrow> struct_fields E s \<noteq> []"
    and total: "s \<in> set (map sd_name (e_decls E)) \<Longrightarrow> s \<notin> set B \<Longrightarrow> struct_total E s"
    and members: "s \<in> set (map sd_name (e_decls E)) \<Longrightarrow> s \<notin> set B \<Longrightarrow>
      m \<in> set (members_of (e_decls E) s) \<Longrightarrow> portable_type R B (m_type m)"
    and names: "fd \<in> set (struct_fields E s) \<Longrightarrow> s \<notin> set B \<Longrightarrow> P (fd_name fd)"
begin

lemma optional_rejects_null: "portable_type R B (TOptional t) \<Longrightarrow> rejects_null E t"
  using nonempty by (cases t) auto

lemma sendable_portable:
  "type_ok E T \<Longrightarrow> portable_type R B T \<Longrightarrow> of_type (e_decls E) T v \<Longrightarrow> sendable P Q v \<Longrightarrow> portable P Q E T v"
proof (induction v arbitrary: T rule: measure_induct_rule [of size])
  case (less v)
  note IH = less.IH and ok = less.prems(1) and ty = less.prems(3)
  show ?case
  proof (cases T)
    case TObject
    then obtain ms where v: "v = VObject ms" "distinct (map fst ms)" "of_entries (e_decls E) ms"
      using of_type_objectD ty by blast
    have "P k \<and> portable P Q E TAny u" if u: "(k, u) \<in> set ms" for k u
      using IH [of u TAny] u size_entry [OF u] v less.prems(4)
      by (auto simp: of_entries_all list_all_iff type_ok_def simp del: portable.simps(7))
    then show ?thesis using TObject v by (auto intro!: portable_membersI simp del: portable.simps(7))
  next
    case TAny
    then obtain t x where v: "v = VAny (Some (t, x))" "plain t" "case x of VInteger i \<Rightarrow> Q i | _ \<Rightarrow> True"
        "sendable P Q x" "of_type (e_decls E) t x"
      using of_type_anyD ty less.prems(4) by fastforce
    moreover have "type_ok E t" using v(2) by (cases t) (auto simp: type_ok_def)
    ultimately show ?thesis using TAny IH [of x t] portable_type_plain by simp
  next
    case (TArray t)
    then obtain vs where v: "v = VArray vs" "\<forall>u \<in> set vs. of_type (e_decls E) t u"
      using of_type_arrayD ty by blast
    have "portable P Q E t u" if u: "u \<in> set vs" for u
      using IH [of u t] u size_element [OF u] v less.prems TArray by (auto simp: list_all_iff type_ok_def)
    then show ?thesis using TArray v less.prems by (auto intro: portable_elemsI)
  next
    case (TOptional t)
    then obtain h x where v: "v = VOptional h x" "of_type (e_decls E) t x"
      using of_type_optionalD ty by blast
    have "rejects_null E t" using optional_rejects_null less.prems(2) TOptional by simp
    then show ?thesis using IH [of x t] v less.prems TOptional by (auto simp: type_ok_def)
  next
    case (TVariant ts)
    then obtain x where v: "v = VVariant x" "of_type (e_decls E) TAny x"
      using of_type_variantD ty by blast
    then show ?thesis
      using IH [of x TAny] less.prems(4) TVariant by (simp add: type_ok_def del: portable.simps(7))
  next
    case (TStruct s)
    then obtain vs where v: "v = VStruct vs" "of_types (e_decls E) (map m_type (members_of (e_decls E) s)) vs"
      using of_type_structD ty by blast
    have s: "s \<in> set (map sd_name (e_decls E))" "s \<notin> set B"
      using ok less.prems(2) TStruct by (auto simp: type_ok_def)
    have len: "length vs = length (members_of (e_decls E) s)"
      using v(2) list_all2_lengthD by (fastforce simp: of_types_list_all2)
    have "fd_offset fd < length vs \<and> P (fd_name fd) \<and> portable P Q E (fd_type fd) (vs ! fd_offset fd)"
      if fd: "fd \<in> set (struct_fields E s)" for fd
    proof -
      have at: "fd_offset fd < length vs" "fd_type fd = m_type (members_of (e_decls E) s ! fd_offset fd)" "type_ok E (fd_type fd)"
        using struct_fields_member [OF wf fd] len by auto
      then have "portable_type R B (fd_type fd)" using members [OF s] len by simp
      moreover have "of_type (e_decls E) (fd_type fd) (vs ! fd_offset fd)"
        using v(2) at len by (simp add: of_types_list_all2 list_all2_conv_all_nth)
      moreover have "sendable P Q (vs ! fd_offset fd)"
        using less.prems(4) v(1) at(1) by (simp add: list_all_length)
      ultimately show ?thesis
        using IH [of "vs ! fd_offset fd"] size_member [OF at(1)] v(1) at names [OF fd s(2)] by auto
    qed
    then show ?thesis using TStruct v(1) total [OF s] len by (auto intro: portable_fieldsI)
  qed (use ty less.prems(4) in \<open>auto elim: of_type.elims\<close>)
qed

end

subsection \<open>Required fields\<close>

lemma deser_null: "rejects_null E t \<Longrightarrow> \<exists>x. deser D E f t None v = Some (False, x)"
proof (cases t)
  case (TStruct s)
  assume "rejects_null E t"
  with TStruct show ?thesis by (cases "struct_fields E s"; cases v) simp_all
qed (cases v; simp add: scalar_def)+

lemma deser_fields_required:
  assumes "deser_fields D E f fds d vs = Some (True, vs')" and "fd \<in> set fds" and "rejects_null E (fd_type fd)"
  shows "\<exists>j c. d = Some j \<and> d_field D j (fd_name fd) = Some (Some c)"
  using assms
proof (induction fds arbitrary: vs)
  case (Cons x fds)
  obtain c where c: "Option.bind d (\<lambda>j. d_field D j (fd_name x)) = Some c"
    using Cons.prems(1) by (cases "Option.bind d (\<lambda>j. d_field D j (fd_name x))") simp_all
  then obtain j where j: "d = Some j" "d_field D j (fd_name x) = Some c"
    by (auto simp: bind_eq_Some_conv)
  obtain v' where v': "(case c of None \<Rightarrow> deser D E f (fd_type x) None (vs ! fd_offset x)
      | Some j \<Rightarrow> (case f of 0 \<Rightarrow> None | Suc g \<Rightarrow> deser D E g (fd_type x) (Some j) (vs ! fd_offset x)))
      = Some (True, v')" "deser_fields D E f fds d (vs[fd_offset x := v']) = Some (True, vs')"
    using Cons.prems(1) c by (auto split: if_splits option.splits)
  show ?case
  proof (cases "fd = x")
    case True
    show ?thesis
    proof (cases c)
      case None
      then show ?thesis
        using v'(1) True deser_null [OF Cons.prems(3), of D f "vs ! fd_offset x"] by auto
    next
      case (Some i)
      then show ?thesis using j True by simp
    qed
  next
    case False
    then show ?thesis using Cons.IH [OF v'(2)] Cons.prems(2,3) by simp
  qed
qed simp

subsection \<open>Members that are not listed\<close>

lemma ser_fields_unlisted:
  "k \<notin> fd_offset ` set fds \<Longrightarrow> ser_fields S E fds (vs[k := x]) j = ser_fields S E fds vs j"
  by (induction fds arbitrary: j) (auto simp: Let_def split: prod.splits)

subsection \<open>The contract of a back end\<close>

text \<open>
  \<open>repr j J\<close> says that the node \<open>j\<close> holds the document \<open>J\<close>. A node need not hold its members in the
  order in which they were added.
\<close>

text \<open>
  An array is either created with all its elements, or it grows when the element after its last one is
  written.
\<close>

definition grows :: "'j Serializer \<Rightarrow> ('j \<Rightarrow> json \<Rightarrow> bool) \<Rightarrow> bool" where
  "grows S repr \<longleftrightarrow> (\<forall>j Js. repr j (JArr Js) \<longrightarrow> length Js < 2 ^ 32 \<longrightarrow>
     repr (s_elem S j (length Js)) JNull
     \<and> (\<forall>c J. repr c J \<longrightarrow> repr (s_set_elem S j (length Js) c) (JArr (Js @ [J]))))"

locale json_backend = deserializer D for D :: "'j Deserializer" +
  fixes S :: "'j Serializer"
    and repr :: "'j \<Rightarrow> json \<Rightarrow> bool"
    and str_ok :: "string \<Rightarrow> bool"
    and any_int :: "int64 \<Rightarrow> bool"
  assumes new_node: "repr (s_new S) JNull \<or> repr (s_new S) (JObj [])"
    and set_boolean: "repr (s_boolean S b) (JBool b)"
    and set_integer: "repr (s_integer S w) (JInt w)"
    and set_number: "repr (s_number S x) (JNum x)"
    and set_string: "str_ok s \<Longrightarrow> repr (s_string S s) (JStr s)"
    and open_object: "repr j JNull \<Longrightarrow> repr (s_open_object S j) (JObj [])"
    and begin_object: "repr j JNull \<or> repr j (JObj []) \<Longrightarrow> repr (s_begin_object S j) (JObj [])"
    and begin_array: "repr j JNull \<Longrightarrow> n < 2 ^ 32 \<Longrightarrow>
      \<exists>Js. repr (s_begin_array S j n) (JArr Js) \<and> set Js \<subseteq> {JNull}
        \<and> (length Js = n \<or> length Js \<le> n \<and> grows S repr)"
    and elem: "repr j (JArr Js) \<Longrightarrow> i < length Js \<Longrightarrow> i < 2 ^ 32 \<Longrightarrow> repr (s_elem S j i) (Js ! i)"
    and set_elem: "repr j (JArr Js) \<Longrightarrow> i < length Js \<Longrightarrow> i < 2 ^ 32 \<Longrightarrow> repr c J \<Longrightarrow>
      repr (s_set_elem S j i c) (JArr (Js[i := J]))"
    and member: "repr j (JObj m) \<Longrightarrow> str_ok k \<Longrightarrow> k \<notin> fst ` set m \<Longrightarrow> repr (s_member S j k) JNull"
    and set_member: "repr j (JObj m) \<Longrightarrow> str_ok k \<Longrightarrow> k \<notin> fst ` set m \<Longrightarrow> repr c J \<Longrightarrow>
      repr (s_set_member S j k c) (JObj (m @ [(k, J)]))"
    and set_erase: "repr j (JObj m) \<Longrightarrow> str_ok k \<Longrightarrow> k \<notin> fst ` set m \<Longrightarrow> repr c J \<Longrightarrow>
      repr (s_erase S (s_set_member S j k c) k) (JObj m)"
    and get_boolean: "repr j (JBool b) \<Longrightarrow> d_boolean D j = Some b \<and> d_any D j = AnyScalar TBoolean (VBoolean b)"
    and get_integer: "repr j (JInt w) \<Longrightarrow> d_integer D j = Some w"
    and get_any_integer: "repr j (JInt w) \<Longrightarrow> any_int w \<Longrightarrow> d_any D j = AnyScalar TInteger (VInteger w)"
    and get_number: "repr j (JNum x) \<Longrightarrow> d_number D j = Some x \<and> d_any D j = AnyScalar TNumber (VNumber x)"
    and get_string: "repr j (JStr s) \<Longrightarrow> str_ok s \<Longrightarrow>
      d_string D j = Some s \<and> d_any D j = AnyScalar TString (VString s)"
    and get_null: "repr j JNull \<Longrightarrow> d_any D j = AnyScalar TNull VNull"
    and get_array: "repr j (JArr Js) \<Longrightarrow> d_any D j = AnyArray \<and> d_count D j = Some (length Js)
      \<and> (\<exists>js. d_array D j = Some js \<and> list_all2 repr js Js)"
    and get_object: "repr j (JObj m) \<Longrightarrow> distinct (map fst m) \<Longrightarrow> \<forall>k \<in> fst ` set m. str_ok k \<Longrightarrow>
      d_any D j = AnyObject \<and> (\<exists>its. d_items D j = Some its \<and> distinct (map fst its)
        \<and> fst ` set its = fst ` set m
        \<and> (\<forall>(k, c) \<in> set its. \<exists>J. (k, J) \<in> set m \<and> repr c J))"
    and get_field: "repr j (JObj m) \<Longrightarrow> distinct (map fst m) \<Longrightarrow> str_ok k \<Longrightarrow> map_of m k = Some J \<Longrightarrow>
      \<exists>c. d_field D j k = Some (Some c) \<and> repr c J"
    and get_no_field: "repr j (JObj m) \<Longrightarrow> str_ok k \<Longrightarrow> k \<notin> fst ` set m \<Longrightarrow> d_field D j k = Some None"
begin

abbreviation ok :: "env \<Rightarrow> dap_type \<Rightarrow> val \<Rightarrow> bool" where
  "ok \<equiv> portable str_ok any_int"

abbreviation room :: "nat \<Rightarrow> json list \<Rightarrow> bool" where
  "room n Js \<equiv> length Js = n \<or> length Js \<le> n \<and> grows S repr"

lemma elem_room:
  assumes "repr j (JArr Js)" and "i \<le> length Js" and "i < n" and "n < 2 ^ 32" and "room n Js"
  shows "repr (s_elem S j i) (if i < length Js then Js ! i else JNull)"
    and "repr c J \<Longrightarrow> repr (s_set_elem S j i c) (JArr (if i < length Js then Js[i := J] else Js @ [J]))"
    and "room n (if i < length Js then Js[i := J] else Js @ [J])"
  using assms elem [OF assms(1), of i] set_elem [OF assms(1), of i] by (auto simp: grows_def)

lemma portable_anyD:
  "ok E TAny v \<Longrightarrow> \<exists>t x. v = VAny (Some (t, x)) \<and> plain t \<and> ok E t x \<and> (case x of VInteger i \<Rightarrow> any_int i | _ \<Rightarrow> True)"
  by (cases v) (auto split: option.splits)

lemma portable_plain_present: "plain t \<Longrightarrow> ok E t x \<Longrightarrow> json_of E t x \<noteq> None"
  by (cases t; cases x) simp_all

lemma portable_any_present: "ok E TAny v \<Longrightarrow> json_of E TAny v \<noteq> None"
  using portable_anyD [of E v] portable_plain_present by fastforce

lemma portable_present: "ok E T v \<Longrightarrow> \<not> is_optional T \<Longrightarrow> json_of E T v \<noteq> None"
proof (cases T)
  case (TVariant ts)
  assume "ok E T v"
  with TVariant portable_any_present show ?thesis
    by (cases v) (simp_all del: portable.simps(7) json_of.simps(7))
next
  case TAny
  assume "ok E T v"
  with TAny portable_any_present show ?thesis by blast
qed (cases v; simp)+

lemma json_fields_keys: "fst ` set (json_fields E fds vs) \<subseteq> fd_name ` set fds"
  by (induction fds) (auto split: option.splits)

lemma json_members_keys: "fst ` set (json_members E ms) \<subseteq> fst ` set ms"
proof (induction ms)
  case (Cons a ms)
  then show ?case by (cases a) (auto split: option.splits)
qed simp

lemma json_fields_distinct: "distinct (map fd_name fds) \<Longrightarrow> distinct (map fst (json_fields E fds vs))"
proof (induction fds)
  case (Cons fd fds)
  then show ?case using json_fields_keys [of E fds vs] by (auto split: option.splits)
qed simp

subsection \<open>Serialisation builds the document\<close>

lemma ser_builds_aux:
  shows "S' = S \<Longrightarrow> ok E T v \<Longrightarrow> repr j JNull \<Longrightarrow>
      (case json_of E T v of
         None \<Rightarrow> \<exists>j'. repr j' JNull \<and> ser S' E T v j r = (True, j', True)
       | Some J \<Rightarrow> \<exists>j'. repr j' J \<and> ser S' E T v j r = (True, j', r))"
    and "\<And>Js. S' = S \<Longrightarrow> portable_elems str_ok any_int E t vs \<Longrightarrow> \<not> is_optional t \<Longrightarrow>
      repr j (JArr Js) \<Longrightarrow> i \<le> length Js \<Longrightarrow> room (i + length vs) Js \<Longrightarrow>
      i + length vs < 2 ^ 32 \<Longrightarrow> set (drop i Js) \<subseteq> {JNull} \<Longrightarrow>
      \<exists>j'. repr j' (JArr (take i Js @ json_elems E t vs)) \<and> ser_elems S' E t i vs j = (True, j')"
    and "\<And>m. S' = S \<Longrightarrow> portable_members str_ok any_int E ms \<Longrightarrow> repr j (JObj m) \<Longrightarrow>
      distinct (map fst m @ map fst ms) \<Longrightarrow>
      \<exists>j'. repr j' (JObj (m @ json_members E ms)) \<and> ser_members S' E ms j = (True, j')"
    and "\<And>m. S' = S \<Longrightarrow> portable_fields str_ok any_int E fds vs \<Longrightarrow> repr j (JObj m) \<Longrightarrow>
      distinct (map fst m @ map fd_name fds) \<Longrightarrow>
      \<exists>j'. repr j' (JObj (m @ json_fields E fds vs)) \<and> ser_fields S' E fds vs j = (True, j')"
proof (induction S' E T v j r and S' E t i vs j and S' E ms j and S' E fds vs j
    rule: ser_ser_elems_ser_members_ser_fields.induct)
  case (1 S' E v j r)
  then show ?case using set_boolean by (auto split: val.splits)
next
  case (2 S' E v j r)
  then show ?case using set_integer by (auto split: val.splits)
next
  case (3 S' E v j r)
  then show ?case using set_number by (auto split: val.splits)
next
  case (4 S' E v j r)
  then show ?case using set_string by (auto split: val.splits)
next
  case (6 S' E v j r)
  obtain ms where v: "v = VObject ms" "distinct (map fst ms)" "portable_members str_ok any_int E ms"
    using "6.prems"(2) by (auto split: val.splits)
  then show ?case
    using "6.IH" [OF v(1) "6.prems"(1), of "[]"] open_object [OF "6.prems"(3)] "6.prems"(1) by auto
next
  case (7 S' E v j r)
  obtain t x where v: "v = VAny (Some (t, x))" "ok E t x"
    using portable_anyD [OF "7.prems"(2)] by auto
  have eqs: "ser S' E TAny v j r = ser S' E t x j r" "json_of E TAny v = json_of E t x"
    using v by simp_all
  show ?case
    unfolding eqs by (rule "7.IH" [OF v(1) refl refl "7.prems"(1) v(2) "7.prems"(3)])
next
  case (8 S' E t v j r)
  obtain vs where v: "v = VArray vs" "\<not> is_optional t" "length vs < 2 ^ 32"
      "portable_elems str_ok any_int E t vs"
    using "8.prems"(2) by (auto split: val.splits)
  obtain Js where Js: "repr (s_begin_array S j (length vs)) (JArr Js)" "set Js \<subseteq> {JNull}" "room (length vs) Js"
    using begin_array [OF "8.prems"(3) v(3)] by auto
  then show ?case
    using "8.IH" [OF v(1) "8.prems"(1) v(4,2), of Js] "8.prems"(1) v by auto
next
  case (9 S' E t v j r)
  obtain h x where v: "v = VOptional h x" "h \<longrightarrow> ok E t x"
    using "9.prems"(2) by (auto split: val.splits)
  show ?case
  proof (cases h)
    case True
    then have eqs: "ser S' E (TOptional t) v j r = ser S' E t x j r"
        "json_of E (TOptional t) v = json_of E t x"
      using v by simp_all
    show ?thesis
      unfolding eqs using "9.IH" [OF v(1) True "9.prems"(1) _ "9.prems"(3)] v(2) True by blast
  qed (use v "9.prems"(3) in auto)
next
  case (10 S' E ts v j r)
  obtain x where v: "v = VVariant x" "ok E TAny x"
    using "10.prems"(2) by (cases v) (simp_all del: portable.simps(7))
  have eqs: "ser S' E (TVariant ts) v j r = ser S' E TAny x j r"
      "json_of E (TVariant ts) v = json_of E TAny x"
    using v by simp_all
  show ?case
    unfolding eqs by (rule "10.IH" [OF v(1) "10.prems"(1) v(2) "10.prems"(3)])
next
  case (11 S' E s v j r)
  obtain vs where v: "v = VStruct vs" "struct_total E s"
      "portable_fields str_ok any_int E (struct_fields E s) vs"
    using "11.prems"(2) by (auto split: val.splits)
  then show ?case
    using "11.IH" [OF v(1) "11.prems"(1), of "[]"] begin_object [of j] "11.prems"(1,3)
    by (auto simp: struct_total_def)
next
  case (13 S' E t i v vs j)
  have ok: "ok E t v" "portable_elems str_ok any_int E t vs" using "13.prems"(2) by auto
  have "Js ! i = JNull" if "i < length Js"
    using "13.prems"(8) Cons_nth_drop_Suc [OF that] by (metis insert_subset list.simps(15) singletonD)
  moreover have bounds: "i < i + length (v # vs)" by simp
  note room = elem_room [OF "13.prems"(4,5) bounds "13.prems"(7,6)]
  ultimately have nul: "repr (s_elem S j i) JNull"
    using room(1) by (cases "i < length Js") auto
  obtain J where J: "json_of E t v = Some J" using portable_present [OF ok(1) "13.prems"(3)] by auto
  then obtain c where c: "repr c J" "ser S E t v (s_elem S j i) False = (True, c, False)"
    using "13.IH"(1) [OF "13.prems"(1) ok(1)] nul "13.prems"(1) by auto
  let ?Js = "if i < length Js then Js[i := J] else Js @ [J]"
  have st: "repr (s_set_elem S j i c) (JArr ?Js)"
    by (rule room(2) [OF c(1)])
  have tk: "take (Suc i) ?Js = take i Js @ [J]"
    using "13.prems"(5) by (auto simp: take_Suc_conv_app_nth)
  have "set (drop (Suc i) ?Js) \<subseteq> {JNull}"
    using "13.prems"(5,8) set_drop_subset_set_drop [of i "Suc i" Js] by (auto simp: drop_update_cancel)
  moreover have "Suc i \<le> length ?Js" "room (Suc i + length vs) ?Js" "Suc i + length vs < 2 ^ 32"
    using "13.prems"(5,7) room(3) [of J] by auto
  ultimately obtain j' where "repr j' (JArr (take (Suc i) ?Js @ json_elems E t vs))"
      "ser_elems S E t (Suc i) vs (s_set_elem S j i c) = (True, j')"
    using "13.IH"(2) [OF refl c(2) [folded "13.prems"(1), symmetric] refl refl TrueI "13.prems"(1) ok(2) "13.prems"(3),
        of ?Js] st unfolding "13.prems"(1) by blast
  then show ?case using c(2) tk J "13.prems"(1) by auto
next
  case (15 S' E k v ms j)
  have ok: "str_ok k" "ok E TAny v" "portable_members str_ok any_int E ms" using "15.prems"(2) by simp_all
  have k: "k \<notin> fst ` set m" using "15.prems"(4) by auto
  obtain J where J: "json_of E TAny v = Some J" using portable_any_present [OF ok(2)] by blast
  then obtain c where c: "repr c J" "ser S E TAny v (s_member S j k) False = (True, c, False)"
    using "15.IH"(1) [OF "15.prems"(1) ok(2)] member [OF "15.prems"(3) ok(1) k] "15.prems"(1) by auto
  have "distinct (map fst (m @ [(k, J)]) @ map fst ms)" using "15.prems"(4) by auto
  then obtain j' where "repr j' (JObj ((m @ [(k, J)]) @ json_members E ms))"
      "ser_members S E ms (s_set_member S j k c) = (True, j')"
    using "15.IH"(2) [OF refl c(2) [folded "15.prems"(1), symmetric] refl refl TrueI "15.prems"(1) ok(3),
        of "m @ [(k, J)]"] set_member [OF "15.prems"(3) ok(1) k c(1)] unfolding "15.prems"(1) by blast
  then show ?case using c(2) J "15.prems"(1) by (auto simp del: json_of.simps(7) ser.simps(7))
next
  case (17 S' E fd fds vs j)
  let ?k = "fd_name fd" and ?v = "vs ! fd_offset fd"
  have ok: "fd_offset fd < length vs" "str_ok ?k" "ok E (fd_type fd) ?v" "portable_fields str_ok any_int E fds vs"
    using "17.prems"(2) by (simp_all split: if_splits)
  then have off: "\<not> length vs \<le> fd_offset fd" by simp
  have k: "?k \<notin> fst ` set m" using "17.prems"(4) by auto
  note IH1 = "17.IH"(1) [OF off "17.prems"(1) ok(3)]
  show ?case
  proof (cases "json_of E (fd_type fd) ?v")
    case None
    then obtain c where c: "repr c JNull" "ser S E (fd_type fd) ?v (s_member S j ?k) False = (True, c, True)"
      using IH1 member [OF "17.prems"(3) ok(2) k] "17.prems"(1) by auto
    have "distinct (map fst m @ map fd_name fds)" using "17.prems"(4) by auto
    then obtain j' where "repr j' (JObj (m @ json_fields E fds vs))"
        "ser_fields S E fds vs (s_erase S (s_set_member S j ?k c) ?k) = (True, j')"
      using "17.IH"(2) [OF off refl c(2) [folded "17.prems"(1), symmetric] refl refl refl TrueI "17.prems"(1) ok(4), of m]
        set_erase [OF "17.prems"(3) ok(2) k c(1)] unfolding "17.prems"(1) by auto
    then show ?thesis using c(2) None off "17.prems"(1) by auto
  next
    case (Some J)
    then obtain c where c: "repr c J" "ser S E (fd_type fd) ?v (s_member S j ?k) False = (True, c, False)"
      using IH1 member [OF "17.prems"(3) ok(2) k] "17.prems"(1) by auto
    have "distinct (map fst (m @ [(?k, J)]) @ map fd_name fds)" using "17.prems"(4) by auto
    then obtain j' where "repr j' (JObj ((m @ [(?k, J)]) @ json_fields E fds vs))"
        "ser_fields S E fds vs (s_set_member S j ?k c) = (True, j')"
      using "17.IH"(2) [OF off refl c(2) [folded "17.prems"(1), symmetric] refl refl refl TrueI "17.prems"(1) ok(4),
          of "m @ [(?k, J)]"]
        set_member [OF "17.prems"(3) ok(2) k c(1)] unfolding "17.prems"(1) by auto
    then show ?thesis using c(2) Some off "17.prems"(1) by auto
  qed
qed auto

subsection \<open>Deserialisation reads the document\<close>

abbreviation reads :: "env \<Rightarrow> dap_type \<Rightarrow> val \<Rightarrow> bool" where
  "reads E T v \<equiv> \<forall>f J j v0. json_of E T v = Some J \<longrightarrow> repr j J \<longrightarrow> jdepth J \<le> f \<longrightarrow>
     of_type (e_decls E) T v0 \<longrightarrow> clean v0 \<longrightarrow>
     (\<exists>v'. deser D E f T (Some j) v0 = Some (True, v') \<and> norm v' = norm v)"

lemma readsD:
  "reads E T v \<Longrightarrow> json_of E T v = Some J \<Longrightarrow> repr j J \<Longrightarrow> jdepth J \<le> f \<Longrightarrow>
   of_type (e_decls E) T v0 \<Longrightarrow> clean v0 \<Longrightarrow>
   \<exists>v'. deser D E f T (Some j) v0 = Some (True, v') \<and> norm v' = norm v"
  by blast

lemma deser_elems_reads:
  assumes "\<And>v. v \<in> set vs \<Longrightarrow> reads E t v" and "portable_elems str_ok any_int E t vs"
    and "\<not> is_optional t" and "list_all2 repr js (json_elems E t vs)" and "length us = length vs"
    and "\<forall>u \<in> set us. of_type (e_decls E) t u \<and> clean u"
    and "\<forall>J \<in> set (json_elems E t vs). jdepth J < f"
  shows "\<exists>us'. deser_elems D E f t js us = Some (True, us') \<and> map norm us' = map norm vs"
  using assms
proof (induction vs arbitrary: js us)
  case (Cons v vs)
  obtain J where J: "json_of E t v = Some J" using portable_present Cons.prems(2,3) by fastforce
  obtain j js' where js: "js = j # js'" "repr j J" "list_all2 repr js' (json_elems E t vs)"
    using Cons.prems(4) J by (auto simp: list_all2_Cons2)
  obtain u us' where us: "us = u # us'" using Cons.prems(5) by (cases us) auto
  obtain g where g: "f = Suc g" "jdepth J \<le> g" using Cons.prems(7) J by (cases f) auto
  obtain v' where v': "deser D E g t (Some j) u = Some (True, v')" "norm v' = norm v"
    using readsD [OF Cons.prems(1) J js(2) g(2), of u] Cons.prems(6) us by auto
  obtain ws where "deser_elems D E f t js' us' = Some (True, ws)" "map norm ws = map norm vs"
    using Cons.IH [of js' us'] Cons.prems us js(3) by auto
  with v' js us g(1) show ?case by auto
qed simp

lemma deser_items_reads:
  assumes "\<And>v. v \<in> snd ` set ms \<Longrightarrow> reads E TAny v"
    and "\<forall>(k, c) \<in> set its. \<exists>v J. (k, v) \<in> set ms \<and> json_of E TAny v = Some J \<and> repr c J \<and> jdepth J < f"
    and "distinct (map fst acc @ map fst its)"
  shows "\<exists>new. deser_items D E f its acc = Some (True, acc @ new) \<and> map fst new = map fst its
    \<and> (\<forall>(k, v') \<in> set new. \<exists>v. (k, v) \<in> set ms \<and> norm v' = norm v)"
  using assms
proof (induction its arbitrary: acc)
  case (Cons it its)
  obtain k c where it: "it = (k, c)" by (cases it)
  obtain v J where v: "(k, v) \<in> set ms" "json_of E TAny v = Some J" "repr c J" "jdepth J < f"
    using Cons.prems(2) it by auto
  obtain g where g: "f = Suc g" "jdepth J \<le> g" using v(4) by (cases f) auto
  obtain v' where v': "deser D E g TAny (Some c) (VAny None) = Some (True, v')" "norm v' = norm v"
    using readsD [OF Cons.prems(1) v(2,3) g(2), of "VAny None"] v(1) by (force simp del: deser.simps)
  have put: "obj_put acc k v' = acc @ [(k, v')]"
    using Cons.prems(3) it by (intro obj_put_fresh) auto
  obtain new where "deser_items D E f its (acc @ [(k, v')]) = Some (True, (acc @ [(k, v')]) @ new)"
      "map fst new = map fst its" "\<forall>(k, v') \<in> set new. \<exists>v. (k, v) \<in> set ms \<and> norm v' = norm v"
    using Cons.IH [of "acc @ [(k, v')]"] Cons.prems it by auto
  note new = this
  have "deser_items D E f (it # its) acc = Some (True, acc @ (k, v') # new)"
    using new(1) v'(1) put g(1) it by (simp del: deser.simps)
  moreover have "\<forall>(k, v') \<in> set ((k, v') # new). \<exists>v. (k, v) \<in> set ms \<and> norm v' = norm v"
    using new(3) v(1) v'(2) by auto
  ultimately show ?case using new(2) it by (intro exI [of _ "(k, v') # new"]) simp
qed simp

lemma norm_object_eq:
  assumes "distinct (map fst ms)" and "distinct (map fst new)" and "fst ` set new = fst ` set ms"
    and "\<forall>(k, v') \<in> set new. \<exists>v. (k, v) \<in> set ms \<and> norm v' = norm v"
  shows "norm (VObject new) = norm (VObject ms)"
proof -
  let ?n = "\<lambda>(k, v). (k, norm v)"
  have fst: "map fst (map ?n xs) = map fst xs" for xs :: "(string \<times> val) list" by auto
  have "set (map ?n new) \<subseteq> set (map ?n ms)"
  proof clarsimp
    fix k v' assume kv: "(k, v') \<in> set new"
    then obtain w where "(k, w) \<in> set ms" "norm v' = norm w" using assms(4) by auto
    then show "(k, norm v') \<in> ?n ` set ms" by force
  qed
  moreover have "set (map ?n ms) \<subseteq> set (map ?n new)"
  proof clarsimp
    fix k v assume kv: "(k, v) \<in> set ms"
    then obtain v' where v': "(k, v') \<in> set new" using assms(3) by (metis fst_conv image_iff prod.collapse)
    then obtain w where "(k, w) \<in> set ms" "norm v' = norm w" using assms(4) by auto
    with kv assms(1) have "norm v' = norm v" by (metis eq_key_imp_eq_value)
    with v' show "(k, norm v) \<in> ?n ` set new" by force
  qed
  ultimately have "sort_key fst (map ?n new) = sort_key fst (map ?n ms)"
    by (intro sort_key_unique) (simp_all only: fst assms(1,2) subset_antisym)
  then show ?thesis by simp
qed

lemma clean_optionalD: "of_type ds (TOptional t) u \<Longrightarrow> clean u \<Longrightarrow> \<exists>y. u = VOptional False y"
  using of_type_optionalD [of ds t u] by auto

text \<open>One field: present with the document of the value, or absent for an unset optional.\<close>

lemma deser_field_reads:
  assumes rd: "reads E T v" and ok: "ok E T v" and u: "of_type (e_decls E) T u" "clean u"
    and m: "repr j (JObj m)" "distinct (map fst m)" "str_ok k" "jdepth (JObj m) \<le> f"
    and k: "map_of m k = json_of E T v"
  shows "\<exists>c v'. d_field D j k = Some c \<and> norm v' = norm v
    \<and> (case c of None \<Rightarrow> deser D E f T None u
       | Some i \<Rightarrow> (case f of 0 \<Rightarrow> None | Suc g \<Rightarrow> deser D E g T (Some i) u)) = Some (True, v')"
proof (cases "json_of E T v")
  case None
  then obtain t where T: "T = TOptional t" using portable_present [OF ok] by (cases T) auto
  obtain x where v: "v = VOptional False x" "rejects_null E t"
    using ok None T portable_present [of E t] by (cases v) (fastforce split: if_splits elim: rejects_null.elims)+
  obtain y where y: "u = VOptional False y" using clean_optionalD u T by blast
  moreover have "d_field D j k = Some None"
    using get_no_field [OF m(1,3)] k None by (simp add: map_of_eq_None_iff)
  ultimately show ?thesis
    using v T deser_null [OF v(2), of D f "default_of (e_decls E) t"]
    by (intro exI [of _ None] exI [of _ u]) auto
next
  case (Some J)
  obtain c where c: "d_field D j k = Some (Some c)" "repr c J"
    using get_field [OF m(1,2,3)] k Some by auto
  have "jdepth J < jdepth (JObj m)"
    using map_of_SomeD [of m k J] k Some by (intro jdepth_member [of k]) simp
  then obtain g where g: "f = Suc g" "jdepth J \<le> g" using m(4) by (cases f) auto
  then show ?thesis using readsD [OF rd Some c(2) g(2) u] c by auto
qed

lemma deser_fields_reads:
  assumes "wf_env E"
    and "\<And>fd. fd \<in> set fds \<Longrightarrow> reads E (fd_type fd) (vs ! fd_offset fd) \<and> clean (us ! fd_offset fd)
      \<and> fd_offset fd < length ts \<and> fd_type fd = ts ! fd_offset fd \<and> type_ok E (fd_type fd)
      \<and> map_of m (fd_name fd) = json_of E (fd_type fd) (vs ! fd_offset fd)"
    and "portable_fields str_ok any_int E fds vs" and "distinct (map fd_offset fds)"
    and "of_types (e_decls E) ts us"
    and "repr j (JObj m)" "distinct (map fst m)" "jdepth (JObj m) \<le> f"
  shows "\<exists>us'. deser_fields D E f fds (Some j) us = Some (True, us') \<and> length us' = length us
    \<and> (\<forall>fd \<in> set fds. norm (us' ! fd_offset fd) = norm (vs ! fd_offset fd))
    \<and> (\<forall>k. k \<notin> fd_offset ` set fds \<longrightarrow> us' ! k = us ! k)"
  using assms(2-5)
proof (induction fds arbitrary: us)
  case (Cons fd fds)
  let ?o = "fd_offset fd"
  have fd: "reads E (fd_type fd) (vs ! ?o)" "clean (us ! ?o)" "?o < length ts" "fd_type fd = ts ! ?o"
      "type_ok E (fd_type fd)" "map_of m (fd_name fd) = json_of E (fd_type fd) (vs ! ?o)"
    using Cons.prems(1) [of fd] by auto
  have ok: "str_ok (fd_name fd)" "ok E (fd_type fd) (vs ! ?o)" "portable_fields str_ok any_int E fds vs"
    using Cons.prems(2) by (simp_all split: if_splits)
  have len: "length us = length ts"
    using Cons.prems(4) by (simp add: of_types_list_all2 list_all2_lengthD)
  have u: "of_type (e_decls E) (fd_type fd) (us ! ?o)"
    using Cons.prems(4) fd(3,4) by (simp add: of_types_list_all2 list_all2_conv_all_nth)
  let ?r = "\<lambda>c. case c of None \<Rightarrow> deser D E f (fd_type fd) None (us ! ?o)
    | Some i \<Rightarrow> (case f of 0 \<Rightarrow> None | Suc g \<Rightarrow> deser D E g (fd_type fd) (Some i) (us ! ?o))"
  obtain c v' where c: "d_field D j (fd_name fd) = Some c" "norm v' = norm (vs ! ?o)" "?r c = Some (True, v')"
    using deser_field_reads [OF fd(1) ok(2) u fd(2) assms(6,7) ok(1) assms(8) fd(6)] by blast
  have "of_type (e_decls E) (fd_type fd) v'"
    using c(3) deser_keeps_type [OF assms(1) fd(5) u] by (auto split: option.splits nat.splits)
  then have up: "of_types (e_decls E) ts (us[?o := v'])"
    using of_types_update [OF Cons.prems(4)] fd(3,4) len by simp
  have other: "fd_offset x \<noteq> ?o" if "x \<in> set fds" for x
    using Cons.prems(3) that by (metis distinct.simps(2) image_eqI list.simps(9) set_map)
  have rest: "reads E (fd_type x) (vs ! fd_offset x) \<and> clean (us[?o := v'] ! fd_offset x)
      \<and> fd_offset x < length ts \<and> fd_type x = ts ! fd_offset x \<and> type_ok E (fd_type x)
      \<and> map_of m (fd_name x) = json_of E (fd_type x) (vs ! fd_offset x)" if "x \<in> set fds" for x
  proof -
    have eq: "us[?o := v'] ! fd_offset x = us ! fd_offset x" using other [OF that] by simp
    show ?thesis unfolding eq by (rule Cons.prems(1)) (simp add: that)
  qed
  have dist: "distinct (map fd_offset fds)" using Cons.prems(3) by simp
  obtain us' where us': "deser_fields D E f fds (Some j) (us[?o := v']) = Some (True, us')"
      "length us' = length us" "\<forall>fd \<in> set fds. norm (us' ! fd_offset fd) = norm (vs ! fd_offset fd)"
      "\<forall>k. k \<notin> fd_offset ` set fds \<longrightarrow> us' ! k = us[?o := v'] ! k"
    using Cons.IH [OF rest ok(3) dist up] by auto
  have "deser_fields D E f (fd # fds) (Some j) us = Some (True, us')"
    using c us'(1) fd(3) len by simp
  moreover have "norm (us' ! ?o) = norm (vs ! ?o)"
    using us'(4) other c(2) fd(3) len by (metis imageE length_list_update nth_list_update_eq)
  ultimately show ?case using us' by auto
qed simp

lemma json_fields_map_of:
  assumes "distinct (map fd_name fds)" and "portable_fields str_ok any_int E fds vs" and "fd \<in> set fds"
  shows "map_of (json_fields E fds vs) (fd_name fd) = json_of E (fd_type fd) (vs ! fd_offset fd)"
  using assms
proof (induction fds)
  case (Cons x fds)
  have off: "\<not> length vs \<le> fd_offset x" using Cons.prems(2) by (simp split: if_splits)
  show ?case
  proof (cases "fd = x")
    case True
    then have "map_of (json_fields E fds vs) (fd_name fd) = None"
      using Cons.prems(1) json_fields_keys [of E fds vs] by (auto simp: map_of_eq_None_iff)
    with True off show ?thesis by (auto split: option.splits)
  next
    case False
    then have "fd_name x \<noteq> fd_name fd" using Cons.prems(1,3) by auto
    then show ?thesis
      using Cons False off by (auto split: option.splits if_splits)
  qed
qed simp

lemma portable_fieldsD:
  "portable_fields str_ok any_int E fds vs \<Longrightarrow> fd \<in> set fds \<Longrightarrow>
   fd_offset fd < length vs \<and> ok E (fd_type fd) (vs ! fd_offset fd)"
  by (induction fds) (auto split: if_splits)

lemma portable_elemsD: "portable_elems str_ok any_int E t vs \<Longrightarrow> v \<in> set vs \<Longrightarrow> ok E t v"
  by (induction vs) auto

lemma portable_membersD:
  "portable_members str_ok any_int E ms \<Longrightarrow> (k, v) \<in> set ms \<Longrightarrow> str_ok k \<and> ok E TAny v"
  by (induction ms) (auto simp del: portable.simps(7))

lemma json_members_portable:
  assumes "portable_members str_ok any_int E ms"
  shows "map fst (json_members E ms) = map fst ms
    \<and> (\<forall>(k, J) \<in> set (json_members E ms). \<exists>v. (k, v) \<in> set ms \<and> json_of E TAny v = Some J)"
  using assms
proof (induction ms)
  case (Cons a ms)
  obtain k v where a: "a = (k, v)" by (cases a)
  with Cons.prems obtain J where "json_of E TAny v = Some J"
    using portable_any_present by (auto simp del: json_of.simps(7) portable.simps(7))
  with Cons a show ?case by (auto simp del: json_of.simps(7) portable.simps(7))
qed simp

lemma deser_object_reads:
  assumes rd: "\<And>v. v \<in> snd ` set ms \<Longrightarrow> reads E TAny v"
    and ok: "distinct (map fst ms)" "portable_members str_ok any_int E ms"
    and j: "repr j (JObj (json_members E ms))" "jdepth (JObj (json_members E ms)) \<le> f"
  shows "d_any D j = AnyObject
    \<and> (\<exists>new. deser_object D E f j [] = Some (True, new) \<and> norm (VObject new) = norm (VObject ms))"
proof -
  let ?m = "json_members E ms"
  have keys: "map fst ?m = map fst ms"
    and vals: "\<And>k J. (k, J) \<in> set ?m \<Longrightarrow> \<exists>v. (k, v) \<in> set ms \<and> json_of E TAny v = Some J"
    using json_members_portable [OF ok(2)] by auto
  have keyset: "fst ` set ?m = fst ` set ms" using keys by (metis set_map)
  have "\<forall>k \<in> fst ` set ms. str_ok k" using portable_membersD [OF ok(2)] by auto
  then have str: "\<forall>k \<in> fst ` set ?m. str_ok k" unfolding keyset .
  have "distinct (map fst ?m)" unfolding keys by (rule ok(1))
  from get_object [OF j(1) this str] obtain its where its: "d_any D j = AnyObject" "d_items D j = Some its" "distinct (map fst its)"
      "fst ` set its = fst ` set ?m" "\<forall>(k, c) \<in> set its. \<exists>J. (k, J) \<in> set ?m \<and> repr c J"
    by blast
  have R: "\<forall>(k, c) \<in> set its. \<exists>v J. (k, v) \<in> set ms \<and> json_of E TAny v = Some J \<and> repr c J \<and> jdepth J < f"
  proof clarify
    fix k c assume "(k, c) \<in> set its"
    then obtain J where J: "(k, J) \<in> set ?m" "repr c J" using its(5) by auto
    then have "jdepth J < f" using jdepth_member j(2) less_le_trans by blast
    with J vals show "\<exists>v J. (k, v) \<in> set ms \<and> json_of E TAny v = Some J \<and> repr c J \<and> jdepth J < f"
      by blast
  qed
  obtain new where new: "deser_items D E f its [] = Some (True, new)" "map fst new = map fst its"
      "\<forall>(k, v') \<in> set new. \<exists>v. (k, v) \<in> set ms \<and> norm v' = norm v"
    using deser_items_reads [where acc = "[]", OF rd R] its(3) by auto
  have "distinct (map fst new)" and "fst ` set new = fst ` set ms"
    using new(2) its(3,4) keyset by (metis, metis set_map)
  then have "norm (VObject new) = norm (VObject ms)"
    using norm_object_eq [OF ok(1)] new(3) by blast
  with new(1) its(1,2) show ?thesis by auto
qed

lemma deser_array_reads:
  assumes wf: "wf_env E" "type_ok E t" and rd: "\<And>v. v \<in> set vs \<Longrightarrow> reads E t v"
    and ok: "portable_elems str_ok any_int E t vs" "\<not> is_optional t"
    and j: "repr j (JArr (json_elems E t vs))" "jdepth (JArr (json_elems E t vs)) \<le> f"
  shows "d_any D j = AnyArray
    \<and> (\<exists>us. deser_array D E f t j [] = Some (True, us) \<and> map norm us = map norm vs)"
proof -
  let ?Js = "json_elems E t vs" and ?x = "default_of (e_decls E) t"
  have len: "length ?Js = length vs" by (induction vs) auto
  obtain js where js: "d_any D j = AnyArray" "d_count D j = Some (length ?Js)" "d_array D j = Some js"
      "list_all2 repr js ?Js"
    using get_array [OF j(1)] by auto
  have "\<forall>J \<in> set ?Js. jdepth J < f" using jdepth_elem j(2) less_le_trans by blast
  moreover have "\<forall>u \<in> set (replicate (length vs) ?x). of_type (e_decls E) t u \<and> clean u"
    using default_of_type_ok [OF wf] by auto
  ultimately obtain us where "deser_elems D E f t js (replicate (length vs) ?x) = Some (True, us)"
      "map norm us = map norm vs"
    using deser_elems_reads [where vs = vs and us = "replicate (length vs) ?x", OF rd ok js(4)] by auto
  then show ?thesis using js len by (simp add: resize_def)
qed

lemma any_reads:
  assumes wf: "wf_env E" and IH: "\<And>u T. size u < size v \<Longrightarrow> type_ok E T \<Longrightarrow> ok E T u \<Longrightarrow> reads E T u"
    and ok: "ok E TAny v"
  shows "reads E TAny v"
proof (intro allI impI)
  fix f J j v0
  assume J: "json_of E TAny v = Some J" "repr j J" "jdepth J \<le> f"
  obtain t x where v: "v = VAny (Some (t, x))" and t: "plain t" "ok E t x" "case x of VInteger i \<Rightarrow> any_int i | _ \<Rightarrow> True"
    using portable_anyD [OF ok] by blast
  have any: "type_ok E TAny" by (simp add: type_ok_def)
  consider (ob) ms where "t = TObject" "x = VObject ms" "distinct (map fst ms)" "portable_members str_ok any_int E ms"
    | (ar) vs where "t = TArray TAny" "x = VArray vs" "portable_elems str_ok any_int E TAny vs"
    | (sc) "d_any D j = AnyScalar t x"
  proof (cases t)
    case TObject
    then show ?thesis using that(1) t(2) by (cases x) simp_all
  next
    case (TArray u)
    then show ?thesis using that(2) t(1,2) by (cases x) simp_all
  qed (use J(1,2) t v that(3) get_boolean get_any_integer get_number get_string get_null in \<open>cases x; force\<close>)+
  then show "\<exists>v'. deser D E f TAny (Some j) v0 = Some (True, v') \<and> norm v' = norm v"
  proof cases
    case ob
    have "size u < size v \<and> ok E TAny u" if u: "u \<in> snd ` set ms" for u
    proof -
      obtain k where "(k, u) \<in> set ms" using u by auto
      with size_entry [of k u ms] portable_membersD [OF ob(4), of k u] v ob(2) show ?thesis
        by (simp del: portable.simps(7))
    qed
    then have "reads E TAny u" if "u \<in> snd ` set ms" for u using IH any that by blast
    moreover have "repr j (JObj (json_members E ms))" "jdepth (JObj (json_members E ms)) \<le> f"
      using J v ob by auto
    ultimately obtain new where "d_any D j = AnyObject" "deser_object D E f j [] = Some (True, new)"
        "norm (VObject new) = norm (VObject ms)"
      using deser_object_reads [OF _ ob(3,4), of j f] by blast
    then show ?thesis
      using v ob by (intro exI [of _ "VAny (Some (TObject, VObject new))"]) (simp del: deser_object.simps)
  next
    case ar
    have "size u < size v \<and> ok E TAny u" if "u \<in> set vs" for u
      using that size_element [of u vs] portable_elemsD [OF ar(3), of u] v ar(2)
      by (auto simp del: portable.simps(7))
    then have "reads E TAny u" if "u \<in> set vs" for u using IH any that by blast
    moreover have "repr j (JArr (json_elems E TAny vs))" "jdepth (JArr (json_elems E TAny vs)) \<le> f"
      using J v ar by auto
    ultimately obtain us where "d_any D j = AnyArray" "deser_array D E f TAny j [] = Some (True, us)"
        "map norm us = map norm vs"
      using deser_array_reads [OF wf any _ ar(3), of j f] by auto
    then show ?thesis
      using v ar by (intro exI [of _ "VAny (Some (TArray TAny, VArray us))"]) (simp del: deser_array.simps)
  next
    case sc
    then show ?thesis using v by simp
  qed
qed

lemma struct_reads:
  assumes wf: "wf_env E" and IH: "\<And>u T. size u < size v \<Longrightarrow> type_ok E T \<Longrightarrow> ok E T u \<Longrightarrow> reads E T u"
    and ok: "ok E (TStruct s) v"
  shows "reads E (TStruct s) v"
proof (intro allI impI)
  fix f J j v0
  assume J: "json_of E (TStruct s) v = Some J" "repr j J" "jdepth J \<le> f"
    and v0: "of_type (e_decls E) (TStruct s) v0" "clean v0"
  let ?fds = "struct_fields E s" and ?ts = "map m_type (members_of (e_decls E) s)"
  obtain vs where v: "v = VStruct vs" "struct_total E s" "length vs = length (members_of (e_decls E) s)"
      "portable_fields str_ok any_int E ?fds vs"
    using ok by (cases v) simp_all
  obtain us where us: "v0 = VStruct us" "of_types (e_decls E) ?ts us" "list_all clean us"
    using of_type_structD [OF v0(1)] v0(2) by auto
  let ?m = "json_fields E ?fds vs"
  have m: "repr j (JObj ?m)" "distinct (map fst ?m)" "jdepth (JObj ?m) \<le> f"
    using J v(1,2) json_fields_distinct by (auto simp: struct_total_def)
  have len: "length us = length vs"
    using us(2) v(3) list_all2_lengthD by (fastforce simp: of_types_list_all2)
  have fds: "reads E (fd_type fd) (vs ! fd_offset fd) \<and> clean (us ! fd_offset fd)
      \<and> fd_offset fd < length ?ts \<and> fd_type fd = ?ts ! fd_offset fd \<and> type_ok E (fd_type fd)
      \<and> map_of ?m (fd_name fd) = json_of E (fd_type fd) (vs ! fd_offset fd)" if fd: "fd \<in> set ?fds" for fd
  proof -
    note ty = struct_fields_typed [OF wf fd]
    have p: "fd_offset fd < length vs" "ok E (fd_type fd) (vs ! fd_offset fd)"
      using portable_fieldsD [OF v(4) fd] by auto
    then have "reads E (fd_type fd) (vs ! fd_offset fd)" using IH size_member v(1) ty by blast
    moreover have "clean (us ! fd_offset fd)" using us(3) p(1) len by (simp add: list_all_length)
    moreover have "map_of ?m (fd_name fd) = json_of E (fd_type fd) (vs ! fd_offset fd)"
      using json_fields_map_of v(2,4) fd by (auto simp: struct_total_def)
    ultimately show ?thesis using ty by blast
  qed
  have dist: "distinct (map fd_offset ?fds)" using v(2) by (simp add: struct_total_def)
  obtain us' where us': "deser_fields D E f ?fds (Some j) us = Some (True, us')" "length us' = length us"
      "\<forall>fd \<in> set ?fds. norm (us' ! fd_offset fd) = norm (vs ! fd_offset fd)"
    using deser_fields_reads [OF wf fds v(4) dist us(2) m] by blast
  have "norm (us' ! k) = norm (vs ! k)" if "k < length vs" for k
  proof -
    have "card (fd_offset ` set ?fds) = length vs"
      using distinct_card [OF dist] v(2,3) by (simp add: struct_total_def)
    moreover have "fd_offset ` set ?fds \<subseteq> {..<length vs}" using portable_fieldsD [OF v(4)] by auto
    ultimately have "fd_offset ` set ?fds = {..<length vs}" by (simp add: card_subset_eq)
    with us'(3) that show ?thesis by (metis imageE lessThan_iff)
  qed
  then have "map norm us' = map norm vs" using us'(2) len by (simp add: list_eq_iff_nth_eq)
  then show "\<exists>v'. deser D E f (TStruct s) (Some j) v0 = Some (True, v') \<and> norm v' = norm v"
    using us' us(1) v(1) by auto
qed

lemma portable_reads:
  assumes wf: "wf_env E"
  shows "type_ok E T \<Longrightarrow> ok E T v \<Longrightarrow> reads E T v"
proof (induction v arbitrary: T rule: measure_induct_rule [of size])
  case (less v)
  note IH = less.IH and ok = less.prems(2)
  show ?case
  proof (cases T)
    case TAny
    with any_reads [OF wf IH] ok show ?thesis by blast
  next
    case (TStruct s)
    with struct_reads [OF wf IH] ok show ?thesis by blast
  next
    case (TVariant ts)
    obtain x where v: "v = VVariant x" "ok E TAny x"
      using ok TVariant by (cases v) (simp_all del: portable.simps(7))
    have rd: "reads E TAny x"
      using IH [of x TAny] v by (simp add: type_ok_def del: portable.simps(7) json_of.simps(7) deser.simps(7))
    show ?thesis
    proof (intro allI impI)
      fix f J j v0
      assume J: "json_of E T v = Some J" "repr j J" "jdepth J \<le> f" and v0: "of_type (e_decls E) T v0" "clean v0"
      obtain w where w: "v0 = VVariant w" "of_type (e_decls E) TAny w"
        using of_type_variantD v0(1) TVariant by blast
      have cw: "clean w" using of_type_anyD [OF w(2)] by auto
      have jx: "json_of E TAny x = Some J" using J(1) v(1) TVariant by (simp del: json_of.simps(7))
      then obtain w' where "deser D E f TAny (Some j) w = Some (True, w')" "norm w' = norm x"
        using readsD [OF rd jx J(2,3) w(2) cw] by blast
      then show "\<exists>v'. deser D E f T (Some j) v0 = Some (True, v') \<and> norm v' = norm v"
        using w(1) v(1) TVariant by (simp del: deser.simps(7))
    qed
  next
    case (TOptional t)
    obtain h x where v: "v = VOptional h x" "h \<Longrightarrow> ok E t x" using ok TOptional by (cases v) simp_all
    have t: "type_ok E t" using less.prems(1) TOptional by (simp add: type_ok_def)
    show ?thesis
    proof (intro allI impI)
      fix f J j v0
      assume J: "json_of E T v = Some J" "repr j J" "jdepth J \<le> f"
      then have h: "h" and jx: "json_of E t x = Some J" using v(1) TOptional by (simp_all split: if_splits)
      have rd: "reads E t x" using IH [of x t] v h t by simp
      obtain x' where "deser D E f t (Some j) (default_of (e_decls E) t) = Some (True, x')" "norm x' = norm x"
        using readsD [OF rd jx J(2,3) default_of_type_ok [OF wf t]] by blast
      then show "\<exists>v'. deser D E f T (Some j) v0 = Some (True, v') \<and> norm v' = norm v"
        using TOptional v(1) h by (intro exI [of _ "VOptional True x'"]) simp
    qed
  next
    case (TArray t)
    obtain vs where v: "v = VArray vs" "\<not> is_optional t" "portable_elems str_ok any_int E t vs"
      using ok TArray by (cases v) simp_all
    have t: "type_ok E t" using less.prems(1) TArray by (simp add: type_ok_def)
    have rd: "reads E t u" if "u \<in> set vs" for u
      using IH [of u t] size_element [OF that] portable_elemsD [OF v(3) that] v(1) t by blast
    show ?thesis
    proof (intro allI impI)
      fix f J j v0
      assume J: "json_of E T v = Some J" "repr j J" "jdepth J \<le> f" and v0: "of_type (e_decls E) T v0" "clean v0"
      have v0: "v0 = VArray []" using of_type_arrayD v0 TArray by fastforce
      have "repr j (JArr (json_elems E t vs))" "jdepth (JArr (json_elems E t vs)) \<le> f"
        using J TArray v(1) by auto
      then obtain us where "deser_array D E f t j [] = Some (True, us)" "map norm us = map norm vs"
        using deser_array_reads [OF wf t rd v(3,2), of j f] by blast
      then show "\<exists>v'. deser D E f T (Some j) v0 = Some (True, v') \<and> norm v' = norm v"
        using TArray v(1) v0 by (intro exI [of _ "VArray us"]) (simp del: deser_array.simps)
    qed
  next
    case TObject
    obtain ms where v: "v = VObject ms" "distinct (map fst ms)" "portable_members str_ok any_int E ms"
      using ok TObject by (cases v) simp_all
    have rd: "reads E TAny u" if u: "u \<in> snd ` set ms" for u
    proof -
      obtain k where "(k, u) \<in> set ms" using u by auto
      then show ?thesis
        using IH [of u TAny] size_entry [of k u ms] portable_membersD [OF v(3), of k u] v(1)
        by (simp add: type_ok_def del: portable.simps(7) json_of.simps(7) deser.simps(7))
    qed
    show ?thesis
    proof (intro allI impI)
      fix f J j v0
      assume J: "json_of E T v = Some J" "repr j J" "jdepth J \<le> f" and v0: "of_type (e_decls E) T v0" "clean v0"
      have v0: "v0 = VObject []" using of_type_objectD v0 TObject by fastforce
      have "repr j (JObj (json_members E ms))" "jdepth (JObj (json_members E ms)) \<le> f"
        using J TObject v(1) by auto
      then obtain new where "deser_object D E f j [] = Some (True, new)" "norm (VObject new) = norm (VObject ms)"
        using deser_object_reads [OF rd v(2,3), of j f] by blast
      then show "\<exists>v'. deser D E f T (Some j) v0 = Some (True, v') \<and> norm v' = norm v"
        using TObject v(1) v0 by (intro exI [of _ "VObject new"]) (simp del: deser_object.simps)
    qed
  next
    case TNull
    then show ?thesis using ok by (auto elim: of_type.elims)
  qed (use ok get_boolean get_integer get_number get_string in \<open>cases v; force simp: scalar_def\<close>)+
qed

text \<open>
  The round trip: a portable value is serialised into a node, and from any node that holds the same
  document it is read back into a default-constructed object.
\<close>

lemma round_trip:
  assumes wf: "wf_env E" "type_ok E T" and ok: "ok E T v" "\<not> is_optional T" and j: "repr j JNull"
  shows "\<exists>j' J. ser S E T v j False = (True, j', False) \<and> repr j' J \<and> json_of E T v = Some J
    \<and> (\<forall>i f. repr i J \<longrightarrow> jdepth J \<le> f \<longrightarrow>
         (\<exists>v'. deser D E f T (Some i) (default_of (e_decls E) T) = Some (True, v') \<and> norm v' = norm v))"
proof -
  obtain J where J: "json_of E T v = Some J" using portable_present [OF ok] by auto
  then obtain j' where "repr j' J" "ser S E T v j False = (True, j', False)"
    using ser_builds_aux(1) [OF refl ok(1) j, of False] by auto
  with J show ?thesis
    using readsD [OF portable_reads [OF wf ok(1)] J] default_of_type_ok [OF wf] by blast
qed

end

end
