(* ===== verification/NlohmannJson.thy ===== *)
theory NlohmannJson
  imports RoundTrip
begin

section \<open>The nlohmann back end\<close>

text \<open>
  \<^verbatim>\<open>src/nlohmann_json_serializer.{h,cpp}\<close>. The library \<^verbatim>\<open>nlohmann/json\<close> is not part of the sources: the
  operations of \<^verbatim>\<open>nlohmann::json\<close> that the back end calls are the fields of the record \<open>nlohmann\<close>, and
  the locale \<open>nlohmann_lib\<close> has what the back end relies on of them. Writing through the reference that
  a non-constant \<^verbatim>\<open>operator[]\<close> returns is a pair of a read and a write: \<open>nj_ref_key\<close> reads the member,
  which is null when it was absent, and \<open>nj_put_key\<close> stores it.
\<close>

record 'j nlohmann =
  nj_null :: "'j"
  nj_of_bool :: "bool \<Rightarrow> 'j"
  nj_of_int64 :: "int64 \<Rightarrow> 'j"
  nj_of_double :: "number \<Rightarrow> 'j"
  nj_of_string :: "string \<Rightarrow> 'j"
  nj_empty_object :: "'j"
  nj_empty_array :: "'j"
  nj_is_boolean :: "'j \<Rightarrow> bool"
  nj_is_number_integer :: "'j \<Rightarrow> bool"
  nj_is_number_float :: "'j \<Rightarrow> bool"
  nj_is_number :: "'j \<Rightarrow> bool"
  nj_is_string :: "'j \<Rightarrow> bool"
  nj_is_object :: "'j \<Rightarrow> bool"
  nj_is_array :: "'j \<Rightarrow> bool"
  nj_is_null :: "'j \<Rightarrow> bool"
  nj_is_structured :: "'j \<Rightarrow> bool"
  nj_get_bool :: "'j \<Rightarrow> bool"
  nj_get_int64 :: "'j \<Rightarrow> int64"
  nj_get_double :: "'j \<Rightarrow> number"
  nj_get_string :: "'j \<Rightarrow> string"
  nj_size :: "'j \<Rightarrow> nat"
  nj_items :: "'j \<Rightarrow> (string \<times> 'j) list"
  nj_at :: "'j \<Rightarrow> nat \<Rightarrow> 'j"
  nj_find :: "'j \<Rightarrow> string \<Rightarrow> 'j option"
  nj_ref_key :: "'j \<Rightarrow> string \<Rightarrow> 'j"
  nj_put_key :: "'j \<Rightarrow> string \<Rightarrow> 'j \<Rightarrow> 'j"
  nj_ref_index :: "'j \<Rightarrow> nat \<Rightarrow> 'j"
  nj_put_index :: "'j \<Rightarrow> nat \<Rightarrow> 'j \<Rightarrow> 'j"
  nj_erase :: "'j \<Rightarrow> string \<Rightarrow> 'j"

subsection \<open>NlohmannDeserializer\<close>

definition NlohmannDeserializer_boolean :: "'j nlohmann \<Rightarrow> 'j \<Rightarrow> bool option" where
  "NlohmannDeserializer_boolean N j = (if \<not> nj_is_boolean N j then None else Some (nj_get_bool N j))"

definition NlohmannDeserializer_integer :: "'j nlohmann \<Rightarrow> 'j \<Rightarrow> int64 option" where
  "NlohmannDeserializer_integer N j =
     (if \<not> nj_is_number_integer N j then None else Some (nj_get_int64 N j))"

definition NlohmannDeserializer_number :: "'j nlohmann \<Rightarrow> 'j \<Rightarrow> number option" where
  "NlohmannDeserializer_number N j = (if \<not> nj_is_number N j then None else Some (nj_get_double N j))"

definition NlohmannDeserializer_string :: "'j nlohmann \<Rightarrow> 'j \<Rightarrow> string option" where
  "NlohmannDeserializer_string N j = (if \<not> nj_is_string N j then None else Some (nj_get_string N j))"

text \<open>The tests of \<^verbatim>\<open>deserialize(any*)\<close>, in their order; the recursion is in \<^const>\<open>deser\<close>.\<close>

definition NlohmannDeserializer_any :: "'j nlohmann \<Rightarrow> 'j \<Rightarrow> any_case" where
  "NlohmannDeserializer_any N j =
     (if nj_is_boolean N j then AnyScalar TBoolean (VBoolean (nj_get_bool N j))
      else if nj_is_number_float N j then AnyScalar TNumber (VNumber (nj_get_double N j))
      else if nj_is_number_integer N j then AnyScalar TInteger (VInteger (nj_get_int64 N j))
      else if nj_is_string N j then AnyScalar TString (VString (nj_get_string N j))
      else if nj_is_object N j then AnyObject
      else if nj_is_array N j then AnyArray
      else if nj_is_null N j then AnyScalar TNull VNull
      else AnyNothing)"

definition NlohmannDeserializer_array :: "'j nlohmann \<Rightarrow> 'j \<Rightarrow> 'j list option" where
  "NlohmannDeserializer_array N j =
     (if \<not> nj_is_array N j then None else Some (map (nj_at N j) [0..<nj_size N j]))"

definition NlohmannDeserializer_field :: "'j nlohmann \<Rightarrow> 'j \<Rightarrow> string \<Rightarrow> 'j option option" where
  "NlohmannDeserializer_field N j name =
     (if \<not> nj_is_structured N j then None else Some (nj_find N j name))"

definition NlohmannDeserializer :: "'j nlohmann \<Rightarrow> 'j Deserializer" where
  "NlohmannDeserializer N =
     \<lparr>d_boolean = NlohmannDeserializer_boolean N,
      d_integer = NlohmannDeserializer_integer N,
      d_number = NlohmannDeserializer_number N,
      d_string = NlohmannDeserializer_string N,
      d_items = (\<lambda>j. Some (nj_items N j)),
      d_any = NlohmannDeserializer_any N,
      d_count = (\<lambda>j. Some (nj_size N j)),
      d_array = NlohmannDeserializer_array N,
      d_field = NlohmannDeserializer_field N\<rparr>"

subsection \<open>NlohmannSerializer\<close>

text \<open>
  \<^verbatim>\<open>serialize(const object&)\<close> keeps a node that already is an object, \<^verbatim>\<open>object()\<close> and \<^verbatim>\<open>array()\<close> replace
  the node.
\<close>

definition NlohmannSerializer_open_object :: "'j nlohmann \<Rightarrow> 'j \<Rightarrow> 'j" where
  "NlohmannSerializer_open_object N j = (if \<not> nj_is_object N j then nj_empty_object N else j)"

definition NlohmannSerializer :: "'j nlohmann \<Rightarrow> 'j Serializer" where
  "NlohmannSerializer N =
     \<lparr>s_new = nj_null N,
      s_boolean = nj_of_bool N,
      s_integer = nj_of_int64 N,
      s_number = nj_of_double N,
      s_string = nj_of_string N,
      s_open_object = NlohmannSerializer_open_object N,
      s_begin_object = (\<lambda>j. nj_empty_object N),
      s_begin_array = (\<lambda>j n. nj_empty_array N),
      s_member = nj_ref_key N,
      s_set_member = nj_put_key N,
      s_elem = nj_ref_index N,
      s_set_elem = nj_put_index N,
      s_erase = nj_erase N\<rparr>"

lemmas nlohmann_defs =
  NlohmannDeserializer_def NlohmannDeserializer_boolean_def NlohmannDeserializer_integer_def
  NlohmannDeserializer_number_def NlohmannDeserializer_string_def NlohmannDeserializer_any_def
  NlohmannDeserializer_array_def NlohmannDeserializer_field_def
  NlohmannSerializer_def NlohmannSerializer_open_object_def

subsection \<open>What the back end relies on\<close>

text \<open>
  The documented behaviour of the library: a value has exactly one type, \<^verbatim>\<open>get\<close> returns what was
  stored, \<^verbatim>\<open>find\<close>, \<^verbatim>\<open>operator[]\<close> and \<^verbatim>\<open>erase\<close> act on members and elements, and the values inside an
  object or array are less deeply nested than it. For a value that is neither, \<^verbatim>\<open>items()\<close> visits the
  value itself.
\<close>

locale nlohmann_lib =
  fixes N :: "'j nlohmann"
    and repr :: "'j \<Rightarrow> json \<Rightarrow> bool"
    and depth :: "'j \<Rightarrow> nat"
  assumes kind_boolean: "repr j J \<Longrightarrow> nj_is_boolean N j \<longleftrightarrow> (\<exists>b. J = JBool b)"
    and kind_integer: "repr j J \<Longrightarrow> nj_is_number_integer N j \<longleftrightarrow> (\<exists>i. J = JInt i)"
    and kind_float: "repr j J \<Longrightarrow> nj_is_number_float N j \<longleftrightarrow> (\<exists>x. J = JNum x)"
    and kind_number: "nj_is_number N j \<longleftrightarrow> nj_is_number_integer N j \<or> nj_is_number_float N j"
    and kind_string: "repr j J \<Longrightarrow> nj_is_string N j \<longleftrightarrow> (\<exists>s. J = JStr s)"
    and kind_object: "repr j J \<Longrightarrow> nj_is_object N j \<longleftrightarrow> (\<exists>m. J = JObj m)"
    and kind_array: "repr j J \<Longrightarrow> nj_is_array N j \<longleftrightarrow> (\<exists>Js. J = JArr Js)"
    and kind_null: "repr j J \<Longrightarrow> nj_is_null N j \<longleftrightarrow> J = JNull"
    and kind_structured: "nj_is_structured N j \<longleftrightarrow> nj_is_object N j \<or> nj_is_array N j"
    and make: "repr (nj_null N) JNull" "repr (nj_of_bool N b) (JBool b)" "repr (nj_of_int64 N i) (JInt i)"
      "repr (nj_of_double N x) (JNum x)" "repr (nj_of_string N s) (JStr s)"
      "repr (nj_empty_object N) (JObj [])" "repr (nj_empty_array N) (JArr [])"
    and get: "repr j (JBool b) \<Longrightarrow> nj_get_bool N j = b" "repr j (JInt i) \<Longrightarrow> nj_get_int64 N j = i"
      "repr j (JNum x) \<Longrightarrow> nj_get_double N j = x" "repr j (JStr s) \<Longrightarrow> nj_get_string N j = s"
    and arr_size: "repr j (JArr Js) \<Longrightarrow> nj_size N j = length Js"
    and arr_at: "repr j (JArr Js) \<Longrightarrow> n < length Js \<Longrightarrow> repr (nj_at N j n) (Js ! n)"
    and arr_ref: "repr j (JArr Js) \<Longrightarrow> n \<le> length Js \<Longrightarrow>
      repr (nj_ref_index N j n) (if n < length Js then Js ! n else JNull)"
    and arr_put: "repr j (JArr Js) \<Longrightarrow> n \<le> length Js \<Longrightarrow> repr c J \<Longrightarrow>
      repr (nj_put_index N j n c) (JArr (if n < length Js then Js[n := J] else Js @ [J]))"
    and obj_items: "repr j (JObj m) \<Longrightarrow> distinct (map fst m) \<Longrightarrow>
      distinct (map fst (nj_items N j)) \<and> fst ` set (nj_items N j) = fst ` set m
      \<and> (\<forall>(k, c) \<in> set (nj_items N j). \<exists>J. (k, J) \<in> set m \<and> repr c J)"
    and obj_find: "repr j (JObj m) \<Longrightarrow> distinct (map fst m) \<Longrightarrow> map_of m k = Some J \<Longrightarrow>
      \<exists>c. nj_find N j k = Some c \<and> repr c J"
    and obj_find_none: "repr j (JObj m) \<Longrightarrow> k \<notin> fst ` set m \<Longrightarrow> nj_find N j k = None"
    and obj_ref_new: "repr j (JObj m) \<Longrightarrow> k \<notin> fst ` set m \<Longrightarrow> repr (nj_ref_key N j k) JNull"
    and obj_put_new: "repr j (JObj m) \<Longrightarrow> k \<notin> fst ` set m \<Longrightarrow> repr c J \<Longrightarrow>
      repr (nj_put_key N j k c) (JObj (m @ [(k, J)]))"
    and obj_erase: "repr j (JObj (m @ [(k, J)])) \<Longrightarrow> k \<notin> fst ` set m \<Longrightarrow> repr (nj_erase N j k) (JObj m)"
    and items_nest: "(k, c) \<in> set (nj_items N j) \<Longrightarrow>
      0 < depth j \<and> (depth c < depth j \<or> (\<not> nj_is_object N c \<and> \<not> nj_is_array N c))"
    and array_nest: "nj_is_array N j \<Longrightarrow> n < nj_size N j \<Longrightarrow> depth (nj_at N j n) < depth j"
    and find_nest: "nj_find N j k = Some c \<Longrightarrow> depth c < depth j"
begin

lemmas kinds = kind_boolean kind_integer kind_float kind_string kind_object kind_array kind_null

lemma nlohmann_array:
  "repr j (JArr Js) \<Longrightarrow> \<exists>js. NlohmannDeserializer_array N j = Some js \<and> list_all2 repr js Js"
  using kind_array [of j "JArr Js"] arr_at [of j Js]
  by (simp add: NlohmannDeserializer_array_def arr_size list_all2_conv_all_nth)

lemma nlohmann_grows: "grows (NlohmannSerializer N) repr"
proof -
  have "repr (nj_ref_index N j (length Js)) JNull" if "repr j (JArr Js)" for j Js
    using arr_ref [OF that, of "length Js"] by simp
  moreover have "repr (nj_put_index N j (length Js) c) (JArr (Js @ [J]))" if "repr j (JArr Js)" "repr c J" for j Js c J
    using arr_put [OF that(1) _ that(2), of "length Js"] by simp
  ultimately show ?thesis by (simp add: grows_def NlohmannSerializer_def)
qed

lemma nlohmann_any:
  assumes "repr j J"
  shows "NlohmannDeserializer_any N j =
    (case J of
       JNull \<Rightarrow> AnyScalar TNull VNull
     | JBool b \<Rightarrow> AnyScalar TBoolean (VBoolean b)
     | JInt i \<Rightarrow> AnyScalar TInteger (VInteger i)
     | JNum x \<Rightarrow> AnyScalar TNumber (VNumber x)
     | JStr s \<Rightarrow> AnyScalar TString (VString s)
     | JArr Js \<Rightarrow> AnyArray
     | JObj m \<Rightarrow> AnyObject)"
  using kinds [OF assms] get [of j] assms
  by (cases J) (simp_all add: NlohmannDeserializer_any_def)

end

sublocale nlohmann_lib \<subseteq> total_deserializer "NlohmannDeserializer N" depth
proof (unfold_locales, goal_cases)
  case (1 j t x ds)
  then show ?case by (auto simp: nlohmann_defs split: if_splits)
next
  case (2 j js)
  then show ?case by (auto simp: nlohmann_defs split: if_splits)
next
  case (5 j its k c)
  then show ?case using items_nest [of k c j] by (auto simp: nlohmann_defs flat_def)
next
  case (6 j js c)
  then show ?case using array_nest by (auto simp: nlohmann_defs split: if_splits)
next
  case (7 j k c)
  then show ?case using find_nest by (auto simp: nlohmann_defs split: if_splits)
qed (simp_all add: nlohmann_defs)

sublocale nlohmann_lib \<subseteq>
  json_backend "NlohmannDeserializer N" "NlohmannSerializer N" repr "\<lambda>s. True" "\<lambda>i. True"
proof (unfold_locales, goal_cases)
  case (6 j)
  then show ?case using kind_object [of j JNull] make(6) by (simp add: nlohmann_defs)
next
  case (8 j n)
  then show ?case using make(7) nlohmann_grows by (auto simp: NlohmannSerializer_def)
next
  case (9 j Js i)
  then show ?case using arr_ref [of j Js i] by (simp add: NlohmannSerializer_def)
next
  case (10 j Js i c J)
  then show ?case using arr_put [of j Js i] by (simp add: NlohmannSerializer_def)
next
  case (13 j m k c J)
  then show ?case using obj_erase [OF obj_put_new] by (simp add: NlohmannSerializer_def)
next
  case (14 j b)
  then show ?case
    using kind_boolean [OF 14] get(1) nlohmann_any [OF 14]
    by (simp add: NlohmannDeserializer_def NlohmannDeserializer_boolean_def)
next
  case (15 j w)
  then show ?case
    using kind_integer [OF 15] get(2) by (simp add: NlohmannDeserializer_def NlohmannDeserializer_integer_def)
next
  case (17 j x)
  then show ?case
    using kind_float [OF 17] kind_number [of j] get(3) nlohmann_any [OF 17]
    by (simp add: NlohmannDeserializer_def NlohmannDeserializer_number_def)
next
  case (18 j s)
  then show ?case
    using kind_string [OF 18(1)] get(4) nlohmann_any [OF 18(1)]
    by (simp add: NlohmannDeserializer_def NlohmannDeserializer_string_def)
next
  case (20 j Js)
  then show ?case
    using nlohmann_array [OF 20] nlohmann_any [OF 20] arr_size [OF 20] by (simp add: NlohmannDeserializer_def)
next
  case (21 j m)
  then show ?case
    using obj_items [OF 21(1,2)] nlohmann_any [OF 21(1)] by (simp add: NlohmannDeserializer_def)
next
  case (22 j m k J)
  then show ?case
    using obj_find [OF 22(1,2,4)] kind_object [OF 22(1)] kind_structured [of j]
    by (simp add: NlohmannDeserializer_def NlohmannDeserializer_field_def)
next
  case (23 j m k)
  then show ?case
    using obj_find_none [OF 23(1,3)] kind_object [OF 23(1)] kind_structured [of j]
    by (simp add: NlohmannDeserializer_def NlohmannDeserializer_field_def)
qed (simp_all add: NlohmannSerializer_def NlohmannDeserializer_def make obj_ref_new obj_put_new nlohmann_any)

context nlohmann_lib
begin

lemmas nlohmann_reads_back = round_trip
lemmas nlohmann_returns = deser_returns

end

subsection \<open>A library that satisfies the requirements\<close>

text \<open>
  The smallest such library keeps documents as they are: a node is the \<open>json\<close> that it holds, members
  in the order of their insertion.
\<close>

fun ref_items :: "json \<Rightarrow> (string \<times> json) list" where
  "ref_items JNull = []"
| "ref_items (JObj m) = m"
| "ref_items (JArr js) = zip (map to_string [0..<length js]) js"
| "ref_items j = [([], j)]"

fun ref_size :: "json \<Rightarrow> nat" where
  "ref_size JNull = 0"
| "ref_size (JObj m) = length m"
| "ref_size (JArr js) = length js"
| "ref_size j = 1"

fun ref_put_key :: "json \<Rightarrow> string \<Rightarrow> json \<Rightarrow> json" where
  "ref_put_key (JObj m) k c = JObj (obj_put m k c)"
| "ref_put_key JNull k c = JObj [(k, c)]"
| "ref_put_key j k c = j"

fun ref_get_key :: "json \<Rightarrow> string \<Rightarrow> json option" where
  "ref_get_key (JObj m) k = map_of m k"
| "ref_get_key j k = None"

fun ref_put_index :: "json \<Rightarrow> nat \<Rightarrow> json \<Rightarrow> json" where
  "ref_put_index (JArr js) n c =
     JArr (if n < length js then js[n := c] else js @ replicate (n - length js) JNull @ [c])"
| "ref_put_index JNull n c = JArr (replicate n JNull @ [c])"
| "ref_put_index j n c = j"

fun ref_get_index :: "json \<Rightarrow> nat \<Rightarrow> json" where
  "ref_get_index (JArr js) n = (if n < length js then js ! n else JNull)"
| "ref_get_index j n = JNull"

fun ref_erase :: "json \<Rightarrow> string \<Rightarrow> json" where
  "ref_erase (JObj m) k = JObj (filter (\<lambda>(k', _). k' \<noteq> k) m)"
| "ref_erase j k = j"

definition ref_nlohmann :: "json nlohmann" where
  "ref_nlohmann =
     \<lparr>nj_null = JNull, nj_of_bool = JBool, nj_of_int64 = JInt, nj_of_double = JNum, nj_of_string = JStr,
      nj_empty_object = JObj [], nj_empty_array = JArr [],
      nj_is_boolean = (\<lambda>j. case j of JBool _ \<Rightarrow> True | _ \<Rightarrow> False),
      nj_is_number_integer = (\<lambda>j. case j of JInt _ \<Rightarrow> True | _ \<Rightarrow> False),
      nj_is_number_float = (\<lambda>j. case j of JNum _ \<Rightarrow> True | _ \<Rightarrow> False),
      nj_is_number = (\<lambda>j. case j of JInt _ \<Rightarrow> True | JNum _ \<Rightarrow> True | _ \<Rightarrow> False),
      nj_is_string = (\<lambda>j. case j of JStr _ \<Rightarrow> True | _ \<Rightarrow> False),
      nj_is_object = (\<lambda>j. case j of JObj _ \<Rightarrow> True | _ \<Rightarrow> False),
      nj_is_array = (\<lambda>j. case j of JArr _ \<Rightarrow> True | _ \<Rightarrow> False),
      nj_is_null = (\<lambda>j. j = JNull),
      nj_is_structured = (\<lambda>j. case j of JObj _ \<Rightarrow> True | JArr _ \<Rightarrow> True | _ \<Rightarrow> False),
      nj_get_bool = (\<lambda>j. case j of JBool b \<Rightarrow> b | _ \<Rightarrow> False),
      nj_get_int64 = (\<lambda>j. case j of JInt i \<Rightarrow> i | _ \<Rightarrow> 0),
      nj_get_double = (\<lambda>j. case j of JNum x \<Rightarrow> x | _ \<Rightarrow> 0),
      nj_get_string = (\<lambda>j. case j of JStr s \<Rightarrow> s | _ \<Rightarrow> []),
      nj_size = ref_size, nj_items = ref_items, nj_at = ref_get_index,
      nj_find = ref_get_key,
      nj_ref_key = (\<lambda>j k. case ref_get_key j k of None \<Rightarrow> JNull | Some c \<Rightarrow> c),
      nj_put_key = ref_put_key, nj_ref_index = ref_get_index, nj_put_index = ref_put_index,
      nj_erase = ref_erase\<rparr>"

lemma ref_items_nest:
  "(k, c) \<in> set (ref_items j) \<Longrightarrow>
   0 < jdepth j \<and> (jdepth c < jdepth j \<or> (\<forall>m. c \<noteq> JObj m) \<and> (\<forall>Js. c \<noteq> JArr Js))"
  using jdepth_member [of k c] jdepth_elem [of c] by (cases j) (auto dest!: set_zip_rightD)

lemma ref_find_nest: "ref_get_key j k = Some c \<Longrightarrow> jdepth c < jdepth j"
  using jdepth_member [of k c] map_of_SomeD [of _ k c] by (cases j) auto

interpretation nj: nlohmann_lib ref_nlohmann "(=)" jdepth
proof (unfold_locales, goal_cases)
  case (28 j m k)
  then have "map_of m k = None" by (simp add: map_of_eq_None_iff)
  with 28 show ?case by (auto simp: ref_nlohmann_def)
next
  case (30 j m k J)
  then show ?case by (force simp: ref_nlohmann_def filter_id_conv)
next
  case (31 k c j)
  then show ?case using ref_items_nest [of k c j] by (auto simp: ref_nlohmann_def split: json.splits)
next
  case (32 j n)
  then show ?case
    using jdepth_elem by (auto simp: ref_nlohmann_def split: json.splits simp del: jdepth.simps)
next
  case (33 j k c)
  then show ?case using ref_find_nest by (simp add: ref_nlohmann_def)
qed (auto simp: ref_nlohmann_def obj_put_fresh map_of_eq_None_iff split: json.splits)

subsection \<open>Properties\<close>

text \<open>
  The structs that the repository's tests declare (\<^verbatim>\<open>json_serializer_test.cpp\<close>, \<^verbatim>\<open>typeinfo_test.cpp\<close>),
  with one more level of inheritance, and an object of the first: the inputs of the examples below.
\<close>

definition test_env :: env where
  "test_env = \<lparr>e_decls =
     [\<lparr>sd_name = ''MoreDerived'', sd_base = Some ''DerivedStruct'', sd_members = [mem ''t'' TString]\<rparr>,
      \<lparr>sd_name = ''DerivedStruct'', sd_base = Some ''BaseStruct'', sd_members = [mem ''s'' TString, mem ''b'' TBoolean]\<rparr>,
      \<lparr>sd_name = ''BaseStruct'', sd_base = None, sd_members = [mem ''i'' TInteger, mem ''n'' TNumber]\<rparr>,
      \<lparr>sd_name = ''JSONTestObject'', sd_base = None, sd_members =
         [mem ''b'' TBoolean, mem ''i'' TInteger, mem ''n'' TNumber, mem ''a'' (TArray TInteger), mem ''o'' TObject,
          mem ''s'' TString, mem ''o1'' (TOptional TInteger), mem ''o2'' (TOptional TInteger),
          mem ''inner'' (TStruct ''JSONInnerTestObject'')]\<rparr>,
      \<lparr>sd_name = ''JSONInnerTestObject'', sd_base = None, sd_members = [mem ''i'' TInteger]\<rparr>],
     e_infos =
     [\<lparr>ti_struct = ''JSONInnerTestObject'', ti_name = ''json-inner-test-object'', ti_base = None,
       ti_fields = [(''i'', ''i'')]\<rparr>,
      \<lparr>ti_struct = ''JSONTestObject'', ti_name = ''json-test-object'', ti_base = None, ti_fields =
         [(''b'', ''b''), (''i'', ''i''), (''n'', ''n''), (''a'', ''a''), (''o'', ''o''), (''s'', ''s''),
          (''o1'', ''o1''), (''o2'', ''o2''), (''inner'', ''inner'')]\<rparr>,
      \<lparr>ti_struct = ''BaseStruct'', ti_name = ''BaseStruct'', ti_base = None, ti_fields = [(''i'', ''i''), (''n'', ''n'')]\<rparr>,
      \<lparr>ti_struct = ''DerivedStruct'', ti_name = ''DerivedStruct'', ti_base = Some ''BaseStruct'',
       ti_fields = [(''s'', ''s''), (''b'', ''b'')]\<rparr>,
      \<lparr>ti_struct = ''MoreDerived'', ti_name = ''MoreDerived'', ti_base = Some ''DerivedStruct'',
       ti_fields = [(''t'', ''t'')]\<rparr>]\<rparr>"

definition test_object :: val where
  "test_object = VStruct
     [VBoolean True, VInteger 32, VNumber 123, VArray [VInteger 2, VInteger 4, VInteger 0x100000000],
      VObject [(''two'', VAny (Some (TNumber, VNumber 2))), (''one'', VAny (Some (TArray TAny, VArray [VAny (Some (TInteger, VInteger 1))])))],
      VString ''hello world'', VOptional False (VInteger 0), VOptional True (VInteger 42), VStruct [VInteger 70]]"

lemma test_env_ok:
  "wf_env test_env" "type_ok test_env (TStruct ''JSONTestObject'')" "type_ok test_env (TStruct ''BaseStruct'')"
  by code_simp+

lemma test_object_portable: "portable (\<lambda>s. True) (\<lambda>i. True) test_env (TStruct ''JSONTestObject'') test_object"
  by code_simp

text \<open>
  Round trip through the nlohmann back end, for every library that behaves as documented: an object
  that is portable is serialised without error into a document, and deserialising that document into a
  default-constructed object succeeds and gives an object equal to the original, up to the iteration
  order of maps and what unset optionals hold. The depth of the document is enough fuel.
\<close>

theorem nlohmann_round_trip:
  assumes "nlohmann_lib N repr depth" and "wf_env E" and "type_ok E T"
    and "portable (\<lambda>s. True) (\<lambda>i. True) E T v" and "\<not> is_optional T"
  shows "\<exists>j J. ser (NlohmannSerializer N) E T v (nj_null N) False = (True, j, False) \<and> repr j J
    \<and> (\<forall>i f. repr i J \<longrightarrow> jdepth J \<le> f \<longrightarrow>
         (\<exists>v'. deser (NlohmannDeserializer N) E f T (Some i) (default_of (e_decls E) T) = Some (True, v')
            \<and> norm v' = norm v))"
  using nlohmann_lib.nlohmann_reads_back [OF assms nlohmann_lib.make(1) [OF assms(1)]] by blast

theorem nlohmann_round_trip_witness:
  "\<exists>j v'. ser (NlohmannSerializer ref_nlohmann) test_env (TStruct ''JSONTestObject'') test_object JNull False = (True, j, False)
    \<and> deser (NlohmannDeserializer ref_nlohmann) test_env (jdepth j) (TStruct ''JSONTestObject'') (Some j)
        (default_of (e_decls test_env) (TStruct ''JSONTestObject'')) = Some (True, v')
    \<and> norm v' = norm test_object"
proof -
  have null: "nj_null ref_nlohmann = JNull" by (simp add: ref_nlohmann_def)
  show ?thesis
    using nlohmann_round_trip [OF nj.nlohmann_lib_axioms test_env_ok(1,2) test_object_portable]
    unfolding null by force
qed

text \<open>
  C17. Deserialisation through the nlohmann back end returns on every document and for every type, with
  a result of that type whatever the document holds: the depth of the document is enough fuel, and
  the object keeps its type even when the call reports a failure half way.
\<close>

theorem nlohmann_deserialize_returns:
  assumes "nlohmann_lib N repr depth" and "wf_env E" and "type_ok E T"
    and "of_type (e_decls E) T v" and "depth j \<le> f"
  shows "\<exists>b v'. deser (NlohmannDeserializer N) E f T (Some j) v = Some (b, v') \<and> of_type (e_decls E) T v'"
  using nlohmann_lib.nlohmann_returns [OF assms] .

theorem nlohmann_deserialize_returns_witness:
  "\<exists>b v'. deser (NlohmannDeserializer ref_nlohmann) test_env 3 (TStruct ''JSONTestObject'')
      (Some (JObj [(''b'', JArr [JObj []]), (''i'', JNull)])) (default_of (e_decls test_env) (TStruct ''JSONTestObject''))
      = Some (b, v') \<and> of_type (e_decls test_env) (TStruct ''JSONTestObject'') v'"
proof (rule nlohmann_deserialize_returns [OF nj.nlohmann_lib_axioms test_env_ok(1,2)])
  show "of_type (e_decls test_env) (TStruct ''JSONTestObject'') (default_of (e_decls test_env) (TStruct ''JSONTestObject''))"
    by (rule default_of_type_ok [OF test_env_ok(1,2)])
qed simp

text \<open>
  C18. A struct is deserialised successfully only from a document that has every required field: each
  field whose type does not read from a missing field is present in the document. (An optional, a
  null and a struct without fields do read from a missing field.)
\<close>

theorem struct_requires_fields:
  assumes "deser D E f (TStruct s) d v = Some (True, v')" and "fd \<in> set (struct_fields E s)"
    and "rejects_null E (fd_type fd)"
  shows "\<exists>j c. d = Some j \<and> d_field D j (fd_name fd) = Some (Some c)"
proof -
  obtain vs vs' where "v = VStruct vs" "deser_fields D E f (struct_fields E s) d vs = Some (True, vs')"
    using assms(1) by (cases v) auto
  then show ?thesis using deser_fields_required assms(2,3) by blast
qed

theorem struct_requires_fields_witness:
  "\<exists>j c. Some (JObj [(''i'', JInt 1), (''n'', JNum 2)]) = Some j
     \<and> d_field (NlohmannDeserializer ref_nlohmann) j ''n'' = Some (Some c)"
proof -
  have run: "deser (NlohmannDeserializer ref_nlohmann) test_env 1 (TStruct ''BaseStruct'')
      (Some (JObj [(''i'', JInt 1), (''n'', JNum 2)])) (VStruct [VInteger 0, VNumber 0])
      = Some (True, VStruct [VInteger 1, VNumber 2])"
    by code_simp
  have "\<lparr>fd_name = ''n'', fd_offset = 1, fd_type = TNumber\<rparr> \<in> set (struct_fields test_env ''BaseStruct'')"
    by code_simp
  from struct_requires_fields [OF run this] show ?thesis by simp
qed

text \<open>
  What the type information of a struct does not list is not serialised: changing such a member
  changes nothing in the output. With \<^verbatim>\<open>DAP_IMPLEMENT_STRUCT_TYPEINFO_EXT\<close> the listed fields are the
  struct's own and its base's own, so the members inherited from a base of the base are lost.
\<close>

theorem ser_ignores_unlisted:
  assumes "k \<notin> fd_offset ` set (own_fields E s)"
    and "\<And>i b. info_of E s = Some i \<Longrightarrow> ti_base i = Some b \<Longrightarrow> k \<notin> fd_offset ` set (own_fields E b)"
  shows "ser S E (TStruct s) (VStruct (vs[k := x])) j r = ser S E (TStruct s) (VStruct vs) j r"
proof -
  have "k \<notin> fd_offset ` set (struct_fields E s)"
  proof (cases "info_of E s")
    case (Some i)
    then show ?thesis using assms(1) assms(2) [OF Some] by (cases "ti_base i") (auto simp: struct_fields_def)
  qed (simp add: struct_fields_def)
  then show ?thesis by (simp add: ser_fields_unlisted)
qed

theorem ser_ignores_unlisted_witness:
  "ser (NlohmannSerializer ref_nlohmann) test_env (TStruct ''MoreDerived'')
     (VStruct ([VInteger 1, VNumber 2, VString ''s'', VBoolean True, VString ''t''][0 := VInteger 7])) JNull False
   = ser (NlohmannSerializer ref_nlohmann) test_env (TStruct ''MoreDerived'')
     (VStruct [VInteger 1, VNumber 2, VString ''s'', VBoolean True, VString ''t'']) JNull False"
proof (rule ser_ignores_unlisted)
  show "0 \<notin> fd_offset ` set (own_fields test_env ''MoreDerived'')" by code_simp
next
  fix i b
  assume "info_of test_env ''MoreDerived'' = Some i" "ti_base i = Some b"
  moreover have "map_option ti_base (info_of test_env ''MoreDerived'') = Some (Some ''DerivedStruct'')" by code_simp
  ultimately have "b = ''DerivedStruct''" by simp
  moreover have "0 \<notin> fd_offset ` set (own_fields test_env ''DerivedStruct'')" by code_simp
  ultimately show "0 \<notin> fd_offset ` set (own_fields test_env b)" by simp
qed

end
