(* ===== verification/Protocol.thy ===== *)
theory Protocol
  imports ProtocolInfo NlohmannJson
begin

section \<open>The messages of the protocol\<close>

text \<open>
  The declarations of \<^verbatim>\<open>protocol.h\<close> together with the type information of the four
  \<^verbatim>\<open>protocol_*.cpp\<close> files, and what the serialisation of the library makes of them.
\<close>

definition protocol_env :: env where
  "protocol_env = \<lparr>e_decls = protocol_decls,
     e_infos = protocol_types_infos @ protocol_events_infos @ protocol_requests_infos @ protocol_response_infos\<rparr>"

subsection \<open>Checking tables by position\<close>

text \<open>
  The tables are long, so the checks below go through them once: an order in which the names are
  strictly increasing shows that they are distinct, and lists of positions show where the structs
  that a declaration needs are declared.
\<close>

definition perm_sorted :: "string list \<Rightarrow> nat list \<Rightarrow> bool" where
  "perm_sorted xs order \<longleftrightarrow> length order = length xs \<and> list_all (\<lambda>i. i < length xs) order
     \<and> successively (<) (map ((!) xs) order)"

lemma perm_sorted_distinct:
  assumes "perm_sorted xs order"
  shows "distinct xs"
proof -
  let ?s = "map ((!) xs) order"
  have "sorted_wrt (<) ?s"
    using assms by (simp add: perm_sorted_def successively_conv_sorted_wrt)
  then have "distinct ?s" by (simp add: strict_sorted_iff)
  moreover have "set ?s \<subseteq> set xs" and "length ?s = length xs"
    using assms by (auto simp: perm_sorted_def list_all_iff)
  ultimately have "length xs \<le> card (set xs)"
    by (metis List.finite_set card_mono distinct_card)
  then show ?thesis by (simp add: card_distinct card_length le_antisym)
qed

fun parts_at :: "string list \<Rightarrow> string list list \<Rightarrow> nat list list \<Rightarrow> bool" where
  "parts_at [] [] [] = True"
| "parts_at (n # ns) (ps # pss) (is # iss) =
     (list_all2 (\<lambda>i p. i < length ns \<and> ns ! i = p) is ps \<and> parts_at ns pss iss)"
| "parts_at _ _ _ = False"

lemma wf_decls_by_position:
  assumes "distinct (map sd_name ds)" and "list_all decl_ok ds"
    and "parts_at (map sd_name ds) (map decl_parts ds) iss"
  shows "wf_decls ds"
  using assms
proof (induction ds arbitrary: iss)
  case (Cons d ds)
  obtain js jss where iss: "iss = js # jss" using Cons.prems(3) by (cases iss) auto
  then have "list_all2 (\<lambda>i p. i < length (map sd_name ds) \<and> map sd_name ds ! i = p) js (decl_parts d)"
    using Cons.prems(3) by simp
  then have "list_all (\<lambda>s. s \<in> set (map sd_name ds)) (decl_parts d)"
    unfolding list_all2_conv_all_nth list_all_length by (metis nth_mem)
  moreover have "parts_at (map sd_name ds) (map decl_parts ds) jss" using Cons.prems(3) iss by simp
  ultimately show ?case using Cons.IH Cons.prems(1,2) by simp
qed simp

subsection \<open>Structs and their type information\<close>

text \<open>
  \<open>listed d i\<close>: the type information \<open>i\<close> lists every member that the struct \<open>d\<close> declares itself, in order,
  under distinct names.
\<close>

definition listed :: "struct_decl \<Rightarrow> struct_info \<Rightarrow> bool" where
  "listed d i \<longleftrightarrow> ti_struct i = sd_name d \<and> ti_base i = None
     \<and> map fst (ti_fields i) = map m_name (sd_members d)
     \<and> (map fst (ti_fields i) = map snd (ti_fields i) \<or> distinct (map fst (ti_fields i)))
     \<and> successively (<) (map snd (ti_fields i))"

definition empty_bases :: "string list" where
  "empty_bases = [''Request'', ''Response'', ''Event'']"

definition simple_base :: "struct_decl \<Rightarrow> bool" where
  "simple_base d \<longleftrightarrow> (case sd_base d of None \<Rightarrow> True | Some b \<Rightarrow> b \<in> set empty_bases)"

lemma info_of_distinct:
  assumes "distinct (map ti_struct (e_infos E))" and "i \<in> set (e_infos E)"
  shows "info_of E (ti_struct i) = Some i"
proof -
  obtain x where x: "info_of E (ti_struct i) = Some x"
    using assms(2) by (fastforce simp: info_of_def find_None_iff)
  then have "x \<in> set (e_infos E)" "ti_struct x = ti_struct i" using info_of_SomeD by blast+
  with assms have "x = i" by (meson distinct_map inj_onD)
  with x show ?thesis by simp
qed

lemma members_of_wf:
  assumes "wf_decls ds" and "d \<in> set ds"
  shows "members_of ds (sd_name d)
    = (case sd_base d of None \<Rightarrow> [] | Some b \<Rightarrow> members_of ds b) @ sd_members d"
proof -
  obtain pre post where ds: "ds = pre @ d # post" using assms(2) by (meson split_list)
  have "members_of ds (sd_name d) = members_of (d # post) (sd_name d)"
    using members_of_prefix [of pre "d # post"] assms(1) ds by simp
  moreover have "members_of ds b = members_of post b" if "sd_base d = Some b" for b
  proof -
    have "wf_decls (d # post)" using assms(1) ds wf_decls_suffix by blast
    then have "b \<in> set (map sd_name post)" using that decl_partsD(1) by (auto simp del: set_map)
    then show ?thesis using members_of_prefix [of "pre @ [d]" post b] assms(1) ds by simp
  qed
  ultimately show ?thesis by (auto split: option.splits)
qed

lemma DAP_FIELD_nth:
  assumes "distinct (map m_name (members_of (e_decls E) s))" and "k < length (members_of (e_decls E) s)"
    and "fst p = m_name (members_of (e_decls E) s ! k)"
  shows "DAP_FIELD E s p = Some \<lparr>fd_name = snd p, fd_offset = k, fd_type = m_type (members_of (e_decls E) s ! k)\<rparr>"
proof -
  let ?ms = "members_of (e_decls E) s"
  have "(k, ?ms ! k) \<in> set (zip [0..<length ?ms] ?ms)"
    using assms(2) by (auto simp: set_zip intro!: exI [of _ k])
  with assms(3) have "(k, ?ms ! k) \<in> set (filter (\<lambda>(k, m). m_name m = fst p) (zip [0..<length ?ms] ?ms))"
    by simp
  then obtain fd where fd: "DAP_FIELD E s p = Some fd"
    by (cases "filter (\<lambda>(k, m). m_name m = fst p) (zip [0..<length ?ms] ?ms)") (auto simp: DAP_FIELD_def)
  note D = DAP_FIELD_SomeD [OF fd]
  have "fd_offset fd = k"
    using assms D(1,4) nth_eq_iff_index_eq [OF assms(1), of "fd_offset fd" k] by simp
  with D fd show ?thesis by (cases fd) simp
qed

lemma map_filter_nth:
  assumes "\<And>k. k < length xs \<Longrightarrow> f (xs ! k) = Some (g k)"
  shows "List.map_filter f xs = map g [0..<length xs]"
proof -
  have "\<forall>x \<in> set xs. f x \<noteq> None" using assms by (auto simp: in_set_conv_nth)
  then have "filter (\<lambda>x. f x \<noteq> None) xs = xs" by (intro filter_True) auto
  then have "List.map_filter f xs = map (\<lambda>x. the (f x)) xs"
    by (simp add: List.map_filter_def comp_def)
  also have "\<dots> = map g [0..<length xs]" by (rule nth_equalityI) (simp_all add: assms)
  finally show ?thesis .
qed

lemma listed_fields:
  assumes "distinct (map ti_struct (e_infos E))" and "i \<in> set (e_infos E)" and "listed d i"
    and "members_of (e_decls E) (sd_name d) = sd_members d"
  shows "struct_total E (sd_name d)" and "length (struct_fields E (sd_name d)) = length (sd_members d)"
    and "map fd_name (struct_fields E (sd_name d)) = map snd (ti_fields i)"
proof -
  let ?ms = "sd_members d"
  have info: "info_of E (sd_name d) = Some i"
    using info_of_distinct [OF assms(1,2)] assms(3) by (simp add: listed_def)
  have fsts: "map fst (ti_fields i) = map m_name ?ms" using assms(3) by (simp add: listed_def)
  have snds: "distinct (map snd (ti_fields i))"
    using assms(3) by (simp add: listed_def successively_conv_sorted_wrt strict_sorted_iff)
  then have "distinct (map fst (ti_fields i))"
    using assms(3) unfolding listed_def by metis
  then have dist: "distinct (map m_name ?ms)" unfolding fsts .
  have len: "length (ti_fields i) = length ?ms" using fsts by (metis length_map)
  let ?f = "\<lambda>k. \<lparr>fd_name = snd (ti_fields i ! k), fd_offset = k, fd_type = m_type (?ms ! k)\<rparr>"
  have field: "DAP_FIELD E (sd_name d) (ti_fields i ! k) = Some (?f k)" if "k < length ?ms" for k
    using DAP_FIELD_nth [of E "sd_name d" k "ti_fields i ! k"] assms(4) dist that fsts len
    by (metis nth_map)
  have "List.map_filter (DAP_FIELD E (sd_name d)) (ti_fields i) = map ?f [0..<length ?ms]"
    using map_filter_nth [of "ti_fields i" "DAP_FIELD E (sd_name d)" ?f] field len by simp
  then have fields: "struct_fields E (sd_name d) = map ?f [0..<length ?ms]"
    using info assms(3) by (simp add: struct_fields_def own_fields_def listed_def)
  have names: "map fd_name (map ?f [0..<length ?ms]) = map snd (ti_fields i)"
    by (rule nth_equalityI) (simp_all add: len)
  moreover have "map fd_offset (map ?f [0..<length ?ms]) = [0..<length ?ms]"
    by (rule nth_equalityI) simp_all
  ultimately show "struct_total E (sd_name d)"
    using snds assms(4) by (simp only: struct_total_def fields) simp
  show "length (struct_fields E (sd_name d)) = length ?ms" "map fd_name (struct_fields E (sd_name d)) = map snd (ti_fields i)"
    unfolding fields using names by simp_all
qed

end
