(* ===== verification/ProtocolTables.thy ===== *)
theory ProtocolTables
  imports Protocol
begin

section \<open>The tables of the protocol are well-formed\<close>

text \<open>
  The checks of \<^verbatim>\<open>protocol.h\<close> and its type information, evaluated table by table, and what follows for
  the messages: which of them survive serialisation.
\<close>

subsection \<open>The tables of the protocol\<close>

lemma protocol_names_sorted: "perm_sorted (map sd_name protocol_decls)
  [133, 134, 130, 129, 128, 126, 127, 122, 124, 125, 120, 119, 132, 123, 118, 116, 117, 114, 115,
    112, 113, 111, 48, 109, 110, 106, 107, 108, 104, 105, 102, 98, 100, 135, 121, 97, 43, 95, 96,
    44, 45, 94, 38, 92, 93, 91, 89, 90, 87, 88, 86, 35, 85, 83, 84, 82, 80, 81, 79, 103, 78, 77, 75,
    76, 73, 74, 72, 70, 71, 69, 68, 67, 66, 64, 65, 137, 136, 62, 63, 60, 61, 58, 59, 56, 57, 55,
    53, 54, 50, 52, 47, 49, 42, 46, 40, 41, 37, 39, 34, 36, 32, 33, 131, 51, 30, 31, 29, 27, 26, 28,
    24, 25, 22, 23, 20, 21, 19, 17, 18, 15, 16, 14, 12, 13, 10, 11, 9, 7, 8, 5, 6, 99, 4, 101, 2, 3,
    0, 1]"
  by code_simp

lemma protocol_decls_ok: "list_all decl_ok protocol_decls"
  by code_simp

lemma protocol_parts_at: "parts_at (map sd_name protocol_decls) (map decl_parts protocol_decls)
  [[136], [134], [134, 96], [132], [96], [131], [129], [], [126], [125], [126], [124], [124],
    [122], [120], [121], [119], [119], [117], [], [116], [114], [114], [112], [112], [110],
    [110, 0], [71], [107], [101], [106, 100], [104], [104, 66], [102], [102], [], [99], [99], [],
    [96], [96, 58], [94, 59], [94], [], [], [], [89], [89], [], [86], [86, 80], [], [83], [83],
    [81], [75], [80], [78], [78], [76], [76], [74], [74], [72], [72], [70], [68], [67], [66], [65],
    [66], [64], [62, 58], [63], [61], [61], [59], [57, 0], [], [55], [56], [54], [52, 48], [53],
    [51], [49], [48], [49], [47], [47, 41], [45], [], [44], [42], [40], [41], [39, 0], [], [38, 0],
    [], [35, 0], [], [33, 0], [], [32], [30], [30], [28], [22], [27], [25], [23], [24], [22], [22],
    [20], [20], [18], [], [15, 0], [], [], [], [], [12], [10], [10, 4], [8], [], [5, 0], [0], [],
    [], [3], [1], [], [], []]"
  by code_simp

lemma protocol_mentions: "map decl_mentions protocol_decls =
  [[], [], [sd_name ValueFormat_decl], [sd_name Variable_decl],
    [sd_name VariablePresentationHint_decl], [], [sd_name Thread_decl], [], [], [], [], [], [], [],
    [], [], [], [], [sd_name StepInTarget_decl], [], [], [], [], [], [], [],
    [sd_name StackFrameFormat_decl], [], [sd_name StackFrame_decl], [sd_name Source_decl],
    [sd_name Source_decl], [], [sd_name ValueFormat_decl], [], [sd_name InstructionBreakpoint_decl],
    [], [sd_name Breakpoint_decl], [sd_name FunctionBreakpoint_decl], [], [sd_name Breakpoint_decl],
    [sd_name ValueFormat_decl], [sd_name VariablePresentationHint_decl],
    [sd_name ExceptionOptions_decl, sd_name ExceptionFilterOptions_decl], [],
    [sd_name ExceptionPathSegment_decl], [], [sd_name Breakpoint_decl],
    [sd_name DataBreakpoint_decl], [], [sd_name Breakpoint_decl],
    [sd_name SourceBreakpoint_decl, sd_name Source_decl], [], [sd_name Breakpoint_decl], [],
    [sd_name Scope_decl], [sd_name Source_decl], [], [], [], [], [], [], [], [], [], [], [], [], [],
    [], [], [], [sd_name Source_decl], [], [], [], [sd_name Module_decl], [sd_name Module_decl], [],
    [], [], [sd_name Source_decl], [sd_name Source_decl], [], [], [], [], [],
    [sd_name ColumnDescriptor_decl, sd_name BreakpointMode_decl, sd_name ExceptionBreakpointsFilter_decl],
    [sd_name Source_decl], [sd_name GotoTarget_decl], [], [], [], [], [],
    [sd_name ExceptionDetails_decl], [sd_name ExceptionDetails_decl], [sd_name ValueFormat_decl],
    [], [sd_name VariablePresentationHint_decl], [], [sd_name Message_decl], [], [], [], [],
    [sd_name DisassembledInstruction_decl], [sd_name Source_decl], [], [], [], [], [], [], [], [],
    [sd_name CompletionItem_decl], [], [sd_name Capabilities_decl],
    [sd_name ColumnDescriptor_decl, sd_name BreakpointMode_decl, sd_name ExceptionBreakpointsFilter_decl],
    [], [], [], [], [], [sd_name Source_decl], [sd_name BreakpointLocation_decl], [],
    [sd_name Breakpoint_decl], [sd_name Source_decl], [sd_name Checksum_decl, sd_name Source_decl],
    [], [], [], [], [], []]"
  by code_simp

lemma protocol_infos_sorted: "perm_sorted (map ti_struct (e_infos protocol_env))
  [46, 90, 2, 29, 3, 47, 91, 5, 48, 92, 7, 30, 0, 4, 8, 49, 93, 50, 94, 51, 95, 31, 18, 52, 96, 53,
    97, 9, 54, 98, 99, 55, 100, 6, 13, 21, 56, 101, 20, 19, 32, 22, 57, 102, 14, 58, 103, 59, 104,
    33, 23, 34, 60, 105, 35, 61, 106, 36, 10, 15, 37, 62, 107, 63, 108, 38, 64, 109, 39, 40, 41, 42,
    65, 110, 66, 111, 67, 112, 68, 113, 69, 114, 16, 70, 115, 71, 116, 72, 117, 73, 118, 74, 119,
    75, 120, 76, 121, 77, 122, 1, 17, 78, 123, 24, 25, 79, 124, 80, 125, 81, 126, 82, 127, 26, 83,
    128, 84, 129, 43, 85, 130, 86, 131, 44, 27, 45, 87, 132, 12, 28, 11, 88, 133, 89, 134]"
  by code_simp

lemma protocol_infos_simple: "list_all (\<lambda>i. ti_base i = None) (e_infos protocol_env)"
  by code_simp

definition protocol_pairs :: "(struct_decl \<times> struct_info) list" where
  "protocol_pairs =
     [(Checksum_decl, Checksum_info), (Source_decl, Source_info),
      (Breakpoint_decl, Breakpoint_info), (BreakpointLocation_decl, BreakpointLocation_info),
      (ColumnDescriptor_decl, ColumnDescriptor_info), (BreakpointMode_decl, BreakpointMode_info),
      (ExceptionBreakpointsFilter_decl, ExceptionBreakpointsFilter_info),
      (Capabilities_decl, Capabilities_info), (CompletionItem_decl, CompletionItem_info),
      (DisassembledInstruction_decl, DisassembledInstruction_info), (Message_decl, Message_info),
      (VariablePresentationHint_decl, VariablePresentationHint_info),
      (ValueFormat_decl, ValueFormat_info), (ExceptionDetails_decl, ExceptionDetails_info),
      (GotoTarget_decl, GotoTarget_info), (Module_decl, Module_info), (Scope_decl, Scope_info),
      (SourceBreakpoint_decl, SourceBreakpoint_info), (DataBreakpoint_decl, DataBreakpoint_info),
      (ExceptionPathSegment_decl, ExceptionPathSegment_info),
      (ExceptionOptions_decl, ExceptionOptions_info),
      (ExceptionFilterOptions_decl, ExceptionFilterOptions_info),
      (FunctionBreakpoint_decl, FunctionBreakpoint_info),
      (InstructionBreakpoint_decl, InstructionBreakpoint_info), (StackFrame_decl, StackFrame_info),
      (StackFrameFormat_decl, StackFrameFormat_info), (StepInTarget_decl, StepInTarget_info),
      (Thread_decl, Thread_info), (Variable_decl, Variable_info),
      (BreakpointEvent_decl, BreakpointEvent_info),
      (CapabilitiesEvent_decl, CapabilitiesEvent_info), (ContinuedEvent_decl, ContinuedEvent_info),
      (ExitedEvent_decl, ExitedEvent_info), (InitializedEvent_decl, InitializedEvent_info),
      (InvalidatedEvent_decl, InvalidatedEvent_info),
      (LoadedSourceEvent_decl, LoadedSourceEvent_info), (MemoryEvent_decl, MemoryEvent_info),
      (ModuleEvent_decl, ModuleEvent_info), (OutputEvent_decl, OutputEvent_info),
      (ProcessEvent_decl, ProcessEvent_info), (ProgressEndEvent_decl, ProgressEndEvent_info),
      (ProgressStartEvent_decl, ProgressStartEvent_info),
      (ProgressUpdateEvent_decl, ProgressUpdateEvent_info), (StoppedEvent_decl, StoppedEvent_info),
      (TerminatedEvent_decl, TerminatedEvent_info), (ThreadEvent_decl, ThreadEvent_info),
      (AttachRequest_decl, AttachRequest_info),
      (BreakpointLocationsRequest_decl, BreakpointLocationsRequest_info),
      (CancelRequest_decl, CancelRequest_info), (CompletionsRequest_decl, CompletionsRequest_info),
      (ConfigurationDoneRequest_decl, ConfigurationDoneRequest_info),
      (ContinueRequest_decl, ContinueRequest_info),
      (DataBreakpointInfoRequest_decl, DataBreakpointInfoRequest_info),
      (DisassembleRequest_decl, DisassembleRequest_info),
      (DisconnectRequest_decl, DisconnectRequest_info),
      (EvaluateRequest_decl, EvaluateRequest_info),
      (ExceptionInfoRequest_decl, ExceptionInfoRequest_info), (GotoRequest_decl, GotoRequest_info),
      (GotoTargetsRequest_decl, GotoTargetsRequest_info),
      (InitializeRequest_decl, InitializeRequest_info), (LaunchRequest_decl, LaunchRequest_info),
      (LoadedSourcesRequest_decl, LoadedSourcesRequest_info),
      (ModulesRequest_decl, ModulesRequest_info), (NextRequest_decl, NextRequest_info),
      (PauseRequest_decl, PauseRequest_info), (ReadMemoryRequest_decl, ReadMemoryRequest_info),
      (RestartFrameRequest_decl, RestartFrameRequest_info),
      (RestartRequest_decl, RestartRequest_info),
      (ReverseContinueRequest_decl, ReverseContinueRequest_info),
      (RunInTerminalRequest_decl, RunInTerminalRequest_info),
      (ScopesRequest_decl, ScopesRequest_info),
      (SetBreakpointsRequest_decl, SetBreakpointsRequest_info),
      (SetDataBreakpointsRequest_decl, SetDataBreakpointsRequest_info),
      (SetExceptionBreakpointsRequest_decl, SetExceptionBreakpointsRequest_info),
      (SetExpressionRequest_decl, SetExpressionRequest_info),
      (SetFunctionBreakpointsRequest_decl, SetFunctionBreakpointsRequest_info),
      (SetInstructionBreakpointsRequest_decl, SetInstructionBreakpointsRequest_info),
      (SetVariableRequest_decl, SetVariableRequest_info), (SourceRequest_decl, SourceRequest_info),
      (StackTraceRequest_decl, StackTraceRequest_info),
      (StartDebuggingRequest_decl, StartDebuggingRequest_info),
      (StepBackRequest_decl, StepBackRequest_info), (StepInRequest_decl, StepInRequest_info),
      (StepInTargetsRequest_decl, StepInTargetsRequest_info),
      (StepOutRequest_decl, StepOutRequest_info), (TerminateRequest_decl, TerminateRequest_info),
      (TerminateThreadsRequest_decl, TerminateThreadsRequest_info),
      (ThreadsRequest_decl, ThreadsRequest_info), (VariablesRequest_decl, VariablesRequest_info),
      (WriteMemoryRequest_decl, WriteMemoryRequest_info),
      (AttachResponse_decl, AttachResponse_info),
      (BreakpointLocationsResponse_decl, BreakpointLocationsResponse_info),
      (CancelResponse_decl, CancelResponse_info),
      (CompletionsResponse_decl, CompletionsResponse_info),
      (ConfigurationDoneResponse_decl, ConfigurationDoneResponse_info),
      (ContinueResponse_decl, ContinueResponse_info),
      (DataBreakpointInfoResponse_decl, DataBreakpointInfoResponse_info),
      (DisassembleResponse_decl, DisassembleResponse_info),
      (DisconnectResponse_decl, DisconnectResponse_info), (ErrorResponse_decl, ErrorResponse_info),
      (EvaluateResponse_decl, EvaluateResponse_info),
      (ExceptionInfoResponse_decl, ExceptionInfoResponse_info),
      (GotoResponse_decl, GotoResponse_info), (GotoTargetsResponse_decl, GotoTargetsResponse_info),
      (InitializeResponse_decl, InitializeResponse_info),
      (LaunchResponse_decl, LaunchResponse_info),
      (LoadedSourcesResponse_decl, LoadedSourcesResponse_info),
      (ModulesResponse_decl, ModulesResponse_info), (NextResponse_decl, NextResponse_info),
      (PauseResponse_decl, PauseResponse_info), (ReadMemoryResponse_decl, ReadMemoryResponse_info),
      (RestartFrameResponse_decl, RestartFrameResponse_info),
      (RestartResponse_decl, RestartResponse_info),
      (ReverseContinueResponse_decl, ReverseContinueResponse_info),
      (RunInTerminalResponse_decl, RunInTerminalResponse_info),
      (ScopesResponse_decl, ScopesResponse_info),
      (SetBreakpointsResponse_decl, SetBreakpointsResponse_info),
      (SetDataBreakpointsResponse_decl, SetDataBreakpointsResponse_info),
      (SetExceptionBreakpointsResponse_decl, SetExceptionBreakpointsResponse_info),
      (SetExpressionResponse_decl, SetExpressionResponse_info),
      (SetFunctionBreakpointsResponse_decl, SetFunctionBreakpointsResponse_info),
      (SetInstructionBreakpointsResponse_decl, SetInstructionBreakpointsResponse_info),
      (SetVariableResponse_decl, SetVariableResponse_info),
      (SourceResponse_decl, SourceResponse_info),
      (StackTraceResponse_decl, StackTraceResponse_info),
      (StartDebuggingResponse_decl, StartDebuggingResponse_info),
      (StepBackResponse_decl, StepBackResponse_info), (StepInResponse_decl, StepInResponse_info),
      (StepInTargetsResponse_decl, StepInTargetsResponse_info),
      (StepOutResponse_decl, StepOutResponse_info),
      (TerminateResponse_decl, TerminateResponse_info),
      (TerminateThreadsResponse_decl, TerminateThreadsResponse_info),
      (ThreadsResponse_decl, ThreadsResponse_info),
      (VariablesResponse_decl, VariablesResponse_info),
      (WriteMemoryResponse_decl, WriteMemoryResponse_info)]"

lemma protocol_listed: "list_all (\<lambda>(d, i). listed d i \<and> (simple_base d \<or> sd_name d = ''StackFrameFormat'')) protocol_pairs"
  by code_simp

lemma protocol_pairs_infos: "map snd protocol_pairs = e_infos protocol_env"
  by (simp add: protocol_pairs_def protocol_env_def protocol_types_infos_def protocol_events_infos_def
      protocol_requests_infos_def protocol_response_infos_def)

lemma protocol_pairs_decls: "set protocol_decls \<subseteq> {Request_decl, Response_decl, Event_decl} \<union> set (map fst protocol_pairs)"
  by (simp add: protocol_pairs_def protocol_decls_def)

lemma protocol_env_decls: "e_decls protocol_env = protocol_decls"
  by (simp add: protocol_env_def)

lemma protocol_wf_decls: "wf_decls protocol_decls"
  using perm_sorted_distinct [OF protocol_names_sorted] protocol_decls_ok protocol_parts_at
  by (rule wf_decls_by_position)

lemma protocol_wf: "wf_env protocol_env"
proof -
  have "\<forall>ss \<in> set (map decl_mentions protocol_decls). list_all (\<lambda>s. s \<in> sd_name ` set protocol_decls) ss"
    unfolding protocol_mentions unfolding protocol_decls_def by simp
  then have "list_all (\<lambda>d. list_all (\<lambda>s. s \<in> set (map sd_name protocol_decls)) (decl_mentions d)) protocol_decls"
    by (simp add: list_all_iff)
  moreover have "list_all (\<lambda>i. case ti_base i of None \<Rightarrow> True
      | Some b \<Rightarrow> prefix (members_of protocol_decls b) (members_of protocol_decls (ti_struct i))) (e_infos protocol_env)"
    using protocol_infos_simple by (auto simp: list_all_iff)
  ultimately show ?thesis
    using protocol_wf_decls unfolding wf_env_def protocol_env_decls by blast
qed

lemma protocol_infos_distinct: "distinct (map ti_struct (e_infos protocol_env))"
  using protocol_infos_sorted by (rule perm_sorted_distinct)

lemma protocol_empty_bases:
  assumes "b \<in> set empty_bases"
  shows "members_of protocol_decls b = []"
proof -
  have "Request_decl \<in> set protocol_decls" "Response_decl \<in> set protocol_decls" "Event_decl \<in> set protocol_decls"
    by (simp_all add: protocol_decls_def)
  note this [THEN members_of_wf [OF protocol_wf_decls]]
  then have "members_of protocol_decls ''Request'' = []" "members_of protocol_decls ''Response'' = []"
      "members_of protocol_decls ''Event'' = []"
    by (simp_all add: Request_decl_def Response_decl_def Event_decl_def)
  moreover have "b = ''Request'' \<or> b = ''Response'' \<or> b = ''Event''"
    using assms by (simp add: empty_bases_def)
  ultimately show ?thesis by metis
qed

lemma protocol_struct:
  assumes "d \<in> set protocol_decls" and "sd_name d \<notin> set empty_bases" and "sd_name d \<noteq> ''StackFrameFormat''"
  shows "members_of protocol_decls (sd_name d) = sd_members d"
    and "struct_total protocol_env (sd_name d)"
    and "length (struct_fields protocol_env (sd_name d)) = length (sd_members d)"
proof -
  have "d \<notin> {Request_decl, Response_decl, Event_decl}"
  proof -
    have "sd_name Request_decl \<in> set empty_bases" "sd_name Response_decl \<in> set empty_bases"
      "sd_name Event_decl \<in> set empty_bases"
      by (simp_all add: empty_bases_def Request_decl_def Response_decl_def Event_decl_def)
    with assms(2) show ?thesis by blast
  qed
  then obtain i where i: "(d, i) \<in> set protocol_pairs" using assms(1) protocol_pairs_decls by auto
  then have li: "listed d i" "simple_base d" and e: "i \<in> set (e_infos protocol_env)"
    using protocol_listed assms(3) protocol_pairs_infos [symmetric] by (force simp: list_all_iff)+
  show m: "members_of protocol_decls (sd_name d) = sd_members d"
    using members_of_wf [OF protocol_wf_decls assms(1)] li(2) protocol_empty_bases
    by (auto simp: simple_base_def split: option.splits)
  note f = listed_fields [OF protocol_infos_distinct e li(1), unfolded protocol_env_decls, OF m]
  show "struct_total protocol_env (sd_name d)" "length (struct_fields protocol_env (sd_name d)) = length (sd_members d)"
    using f by simp_all
qed

subsection \<open>Which messages survive\<close>

text \<open>
  The structs that cannot be carried in full: \<^verbatim>\<open>StackFrameFormat\<close> derives from \<^verbatim>\<open>ValueFormat\<close> but its type
  information lists only its own members, \<^verbatim>\<open>StackTraceRequest\<close> has a member of that type, and the three
  empty bases have no type information.
\<close>

definition not_carried :: "string list" where
  "not_carried = [''StackFrameFormat'', ''StackTraceRequest'', ''Request'', ''Response'', ''Event'']"

definition optional_structs :: "string list" where
  "optional_structs = [''ExceptionDetails'', ''Message'', ''Source'', ''ValueFormat'', ''VariablePresentationHint'']"

lemma protocol_types_portable:
  "list_all (\<lambda>d. sd_name d \<in> set not_carried
     \<or> list_all (\<lambda>m. portable_type optional_structs not_carried (m_type m)) (sd_members d)) protocol_decls"
  by code_simp

lemma protocol_optional_structs:
  assumes "s \<in> set optional_structs"
  shows "struct_fields protocol_env s \<noteq> []"
proof -
  have "d \<in> set protocol_decls" if "d \<in> {ExceptionDetails_decl, Message_decl, Source_decl, ValueFormat_decl,
      VariablePresentationHint_decl}" for d
    using that by (elim insertE emptyE) (simp_all add: protocol_decls_def)
  then have in_decls: "ExceptionDetails_decl \<in> set protocol_decls" "Message_decl \<in> set protocol_decls"
      "Source_decl \<in> set protocol_decls" "ValueFormat_decl \<in> set protocol_decls"
      "VariablePresentationHint_decl \<in> set protocol_decls"
    by blast+
  have "struct_fields protocol_env (sd_name d) \<noteq> []"
    if "d \<in> set protocol_decls" "sd_members d \<noteq> []" "sd_name d \<notin> set empty_bases" "sd_name d \<noteq> ''StackFrameFormat''" for d
    using protocol_struct(3) [OF that(1,3,4)] that(2) by auto
  note this [OF in_decls(1)] this [OF in_decls(2)] this [OF in_decls(3)] this [OF in_decls(4)] this [OF in_decls(5)]
  then have "struct_fields protocol_env ''ExceptionDetails'' \<noteq> []" "struct_fields protocol_env ''Message'' \<noteq> []"
      "struct_fields protocol_env ''Source'' \<noteq> []" "struct_fields protocol_env ''ValueFormat'' \<noteq> []"
      "struct_fields protocol_env ''VariablePresentationHint'' \<noteq> []"
    by (simp_all add: empty_bases_def ExceptionDetails_decl_def Message_decl_def
        Source_decl_def ValueFormat_decl_def VariablePresentationHint_decl_def)
  moreover have "s = ''ExceptionDetails'' \<or> s = ''Message'' \<or> s = ''Source'' \<or> s = ''ValueFormat''
      \<or> s = ''VariablePresentationHint''"
    using assms by (simp add: optional_structs_def)
  ultimately show ?thesis by metis
qed

interpretation proto: portable_env protocol_env "\<lambda>s. True" "\<lambda>i. True" optional_structs not_carried
proof
  show "wf_env protocol_env" by (rule protocol_wf)
next
  fix s assume "s \<in> set optional_structs"
  then show "struct_fields protocol_env s \<noteq> []" by (rule protocol_optional_structs)
next
  fix s assume s: "s \<in> set (map sd_name (e_decls protocol_env))" "s \<notin> set not_carried"
  then obtain d where d: "d \<in> set protocol_decls" "s = sd_name d" unfolding protocol_env_decls by auto
  then have b: "sd_name d \<notin> set empty_bases" "sd_name d \<noteq> ''StackFrameFormat''"
    using s(2) by (auto simp: not_carried_def empty_bases_def)
  show "struct_total protocol_env s" using protocol_struct(2) [OF d(1) b] d(2) by simp
  fix m assume "m \<in> set (members_of (e_decls protocol_env) s)"
  then show "portable_type optional_structs not_carried (m_type m)"
    using protocol_struct(1) [OF d(1) b] d s(2) protocol_types_portable
    unfolding protocol_env_decls by (auto simp: list_all_iff)
qed simp

text \<open>
  C19. Every member of every struct of the protocol is serialised, once and under a name of its own, and
  the declarations are well-formed; the one exception is \<^verbatim>\<open>StackFrameFormat\<close>.
\<close>

theorem protocol_members_listed:
  assumes "d \<in> set protocol_decls" and "sd_name d \<notin> set empty_bases" and "sd_name d \<noteq> ''StackFrameFormat''"
  shows "wf_env protocol_env \<and> members_of protocol_decls (sd_name d) = sd_members d
    \<and> struct_total protocol_env (sd_name d)"
  using protocol_wf protocol_struct [OF assms] by blast

theorem protocol_members_listed_witness:
  "wf_env protocol_env \<and> members_of protocol_decls (sd_name Source_decl) = sd_members Source_decl
    \<and> struct_total protocol_env (sd_name Source_decl)"
proof (rule protocol_members_listed)
  show "Source_decl \<in> set protocol_decls" by (simp add: protocol_decls_def)
qed (simp_all add: Source_decl_def empty_bases_def)

end
