(* ===== verification/Messages.thy ===== *)
theory Messages
  imports ProtocolTables
begin

section \<open>Messages survive serialisation\<close>

text \<open>
  What the tables of the protocol give for whole messages: round trips of requests, responses, events
  and types, the names under which messages are dispatched, and the member that is lost.
\<close>


definition sample_source :: val where
  "sample_source = VStruct
     [VOptional True (VVariant (VAny (Some (TString, VString ''x'')))), VOptional True (VArray [VStruct [VString ''MD5'', VString ''00'']]),
      VOptional True (VString ''main.cpp''), VOptional False (VString []), VOptional False (VString []),
      VOptional False (VString []), VOptional True (VInteger 7), VOptional False (VArray [])]"

lemma Source_members: "members_of protocol_decls ''Source'' = sd_members Source_decl"
  using protocol_struct(1) [of Source_decl]
  by (simp add: protocol_decls_def Source_decl_def empty_bases_def)

lemma Checksum_members: "members_of protocol_decls ''Checksum'' = sd_members Checksum_decl"
  using protocol_struct(1) [of Checksum_decl]
  by (simp add: protocol_decls_def Checksum_decl_def empty_bases_def)


lemma StackFrameFormat_info_of: "info_of protocol_env ''StackFrameFormat'' = Some StackFrameFormat_info"
proof -
  have "StackFrameFormat_info \<in> set (e_infos protocol_env)"
    by (simp add: protocol_env_def protocol_types_infos_def)
  moreover have "ti_struct StackFrameFormat_info = ''StackFrameFormat''" by (simp add: StackFrameFormat_info_def)
  ultimately show ?thesis using info_of_distinct [OF protocol_infos_distinct] by fastforce
qed

lemma StackFrameFormat_members:
  "members_of protocol_decls ''StackFrameFormat'' = sd_members ValueFormat_decl @ sd_members StackFrameFormat_decl"
proof -
  have "ValueFormat_decl \<in> set protocol_decls" "StackFrameFormat_decl \<in> set protocol_decls"
    by (simp_all add: protocol_decls_def)
  note this [THEN members_of_wf [OF protocol_wf_decls]]
  then show ?thesis by (simp add: ValueFormat_decl_def StackFrameFormat_decl_def)
qed

lemma hex_not_listed: "0 \<notin> fd_offset ` set (struct_fields protocol_env ''StackFrameFormat'')"
proof
  assume "0 \<in> fd_offset ` set (struct_fields protocol_env ''StackFrameFormat'')"
  moreover have "ti_base StackFrameFormat_info = None" by (simp add: StackFrameFormat_info_def)
  ultimately obtain p fd where p: "p \<in> set (ti_fields StackFrameFormat_info)"
      "DAP_FIELD protocol_env ''StackFrameFormat'' p = Some fd" "fd_offset fd = 0"
    by (auto simp: struct_fields_def own_fields_def StackFrameFormat_info_of List.map_filter_def)
  have "m_name (members_of protocol_decls ''StackFrameFormat'' ! 0) = fst p"
    using DAP_FIELD_SomeD(4) [OF p(2)] p(3) by (simp add: protocol_env_decls)
  then have "fst p = ''hex''" by (simp add: StackFrameFormat_members ValueFormat_decl_def)
  then have "''hex'' \<in> set (map fst (ti_fields StackFrameFormat_info))" using p(1) by force
  then show False by (simp add: StackFrameFormat_info_def)
qed

text \<open>
  The member \<^verbatim>\<open>hex\<close> that \<^verbatim>\<open>StackFrameFormat\<close> inherits from \<^verbatim>\<open>ValueFormat\<close> is never serialised: whatever
  its value, the output is the same, with every back end.
\<close>

theorem stack_frame_format_loses_hex:
  "ser S protocol_env (TStruct ''StackFrameFormat'') (VStruct (hex # vs)) j r
   = ser S protocol_env (TStruct ''StackFrameFormat'') (VStruct (hex' # vs)) j r"
proof -
  have "ser S protocol_env (TStruct ''StackFrameFormat'') (VStruct ((hex' # vs)[0 := hex])) j r
      = ser S protocol_env (TStruct ''StackFrameFormat'') (VStruct (hex' # vs)) j r"
    by (simp only: ser.simps val.case ser_fields_unlisted [OF hex_not_listed])
  then show ?thesis by simp
qed

text \<open>
  Messages can be told apart: no two requests and no two events have the same name, no name is
  empty, and the type that a request declares as its response is a response of the protocol.
\<close>

theorem message_names_unique:
  "distinct (map ti_name protocol_requests_infos) \<and> [] \<notin> set (map ti_name protocol_requests_infos)
   \<and> distinct (map ti_name protocol_events_infos) \<and> [] \<notin> set (map ti_name protocol_events_infos)
   \<and> map fst response_of = map ti_struct protocol_requests_infos
   \<and> map snd response_of = filter (\<lambda>s. s \<noteq> ''ErrorResponse'') (map ti_struct protocol_response_infos)"
proof -
  have "perm_sorted (map ti_name protocol_requests_infos)
    [0, 1, 2, 3, 4, 5, 6, 7, 8, 9, 10, 11, 12, 13, 14, 15, 16, 17, 18, 19, 21, 20, 22, 23, 24, 25, 26, 27, 28, 29, 30, 31, 32, 33, 34, 35, 36, 37, 38, 39, 40, 41, 42, 43]"
    by code_simp
  moreover have "perm_sorted (map ti_name protocol_events_infos) [0..<17]"
    by code_simp
  moreover have "[] \<notin> set (map ti_name protocol_requests_infos) \<and> [] \<notin> set (map ti_name protocol_events_infos)"
    by code_simp
  moreover have "map fst response_of = map ti_struct protocol_requests_infos
      \<and> map snd response_of = filter (\<lambda>s. s \<noteq> ''ErrorResponse'') (map ti_struct protocol_response_infos)"
    by code_simp
  ultimately show ?thesis using perm_sorted_distinct by blast
qed

end
