(* ===== verification/SessionCore.thy ===== *)
theory SessionCore
  imports ContentStream Channel Future Serialization "HOL-Library.Monad_Syntax"
begin

section \<open>Sessions: \<^verbatim>\<open>src/session.cpp\<close> and \<^verbatim>\<open>include/dap/session.h\<close>\<close>

text \<open>
  A session is one endpoint of the protocol: it numbers and writes the messages it sends, decodes the
  messages it reads, and calls the handlers that the user registered. A handler is a
  \<^verbatim>\<open>std::function\<close> that the library only stores, compares with the empty function and calls, so it is
  a token of type \<^typ>\<open>'h\<close>, and the field \<open>se_calls\<close> lists the calls made so far. What a request
  handler does with the two callbacks it is given is up to the user: it calls \<open>onSuccess\<close> or \<open>onError\<close>,
  at once or later, with the context that the callbacks have captured.

  A method body is one step. The methods guard each map, the error handler and the writer with a mutex
  of its own, and draw sequence numbers from an atomic counter; steps of concurrent callers are taken
  in the order in which they get there.
\<close>

text \<open>
  What the session is compiled against: the type information of the structs, the JSON back end with
  the parsing constructor of its \<^verbatim>\<open>Deserializer\<close> and the \<^verbatim>\<open>dump()\<close> of its \<^verbatim>\<open>Serializer\<close>, both of which
  may stop the program (\<^term>\<open>None\<close>), and the nesting depth of a document, the fuel of \<^const>\<open>deser\<close>.
\<close>

record 'j json_setup =
  js_env :: env
  js_in :: "'j Deserializer"
  js_out :: "'j Serializer"
  js_parse :: "string \<Rightarrow> 'j option"
  js_dump :: "'j \<Rightarrow> string option"
  js_depth :: "'j \<Rightarrow> nat"

definition TypeInfo_name :: "env \<Rightarrow> dap_type \<Rightarrow> string" where
  "TypeInfo_name E = type_name (\<lambda>s. case info_of E s of None \<Rightarrow> [] | Some i \<Rightarrow> ti_name i)"

subsection \<open>Errors\<close>

text \<open>One constructor for each place that reports an error, with the arguments of the format.\<close>

datatype session_error =
    ConnectTwice | StartTwice | SendClosed
  | RequestRegistered string | ResponseRegistered "32 word" | EventRegistered string | SentRegistered string
  | UnknownResponse int64
  | MissingType | MissingSeq | UnknownType string
  | MissingCommand | NoRequestHandler string | BadRequest
  | MissingEvent | NoEventHandler string | BadEvent string
  | MissingRequestSeq | MissingSuccess | BadMessage

text \<open>\<^verbatim>\<open>%d\<close> prints an \<^verbatim>\<open>int\<close>; of a wider argument it takes the low 32 bits.\<close>

definition format_d :: "32 word \<Rightarrow> string" where
  "format_d w = (if sint w < 0 then ''-'' @ to_string (nat (- sint w)) else to_string (nat (sint w)))"

fun error_text :: "session_error \<Rightarrow> string" where
  "error_text ConnectTwice = ''Session::connect called twice''"
| "error_text StartTwice = ''Session::startProcessingMessages() called twice''"
| "error_text SendClosed = ''Send failed as the writer is closed''"
| "error_text (RequestRegistered n) = ''Request handler for '' @ [CHR 0x27] @ c_str n @ [CHR 0x27] @ '' already registered''"
| "error_text (ResponseRegistered w) = ''Response handler for sequence '' @ format_d w @ '' already registered''"
| "error_text (EventRegistered n) = ''Event handler for '' @ [CHR 0x27] @ c_str n @ [CHR 0x27] @ '' already registered''"
| "error_text (SentRegistered n) = ''Response sent handler for '' @ [CHR 0x27] @ c_str n @ [CHR 0x27] @ '' already registered''"
| "error_text (UnknownResponse i) = ''Unknown response with sequence '' @ format_d (ucast i)"
| "error_text MissingType = ''Message missing string '' @ [CHR 0x27] @ ''type'' @ [CHR 0x27] @ '' field''"
| "error_text MissingSeq = ''Message missing number '' @ [CHR 0x27] @ ''seq'' @ [CHR 0x27] @ '' field''"
| "error_text (UnknownType t) = ''Unknown message type '' @ [CHR 0x27] @ c_str t @ [CHR 0x27]"
| "error_text MissingCommand = ''Request missing string '' @ [CHR 0x27] @ ''command'' @ [CHR 0x27] @ '' field''"
| "error_text (NoRequestHandler c) =
     ''No request handler registered for command '' @ [CHR 0x27] @ c_str c @ [CHR 0x27]"
| "error_text BadRequest = ''Failed to deserialize request''"
| "error_text MissingEvent = ''Event missing string '' @ [CHR 0x27] @ ''event'' @ [CHR 0x27] @ '' field''"
| "error_text (NoEventHandler e) = ''No event handler registered for event '' @ [CHR 0x27] @ c_str e @ [CHR 0x27]"
| "error_text (BadEvent e) = ''Failed to deserialize event '' @ [CHR 0x27] @ c_str e @ [CHR 0x27] @ '' body''"
| "error_text MissingRequestSeq = ''Response missing int '' @ [CHR 0x27] @ ''request_seq'' @ [CHR 0x27] @ '' field''"
| "error_text MissingSuccess = ''Response missing int '' @ [CHR 0x27] @ ''success'' @ [CHR 0x27] @ '' field''"
| "error_text BadMessage = ''Failed to deserialize message''"

text \<open>\<^verbatim>\<open>Error(const char* msg, ...)\<close>: the expanded format, cut to the buffer.\<close>

definition Error_format :: "string \<Rightarrow> string" where
  "Error_format expanded = vsnprintf_c_str 2048 expanded"

text \<open>\<^verbatim>\<open>Error::operator bool\<close>.\<close>

definition is_error :: "string \<Rightarrow> bool" where
  "is_error message \<longleftrightarrow> length message > 0"

subsection \<open>State\<close>

text \<open>What \<open>onSuccess\<close> and \<open>onError\<close> capture of the request.\<close>

record request_context =
  rc_sequence :: int64
  rc_command :: string

text \<open>A call of a handler, with its arguments: data, or the message of an \<^verbatim>\<open>Error\<close>.\<close>

datatype 'h call =
    ErrorCall 'h string
  | RequestCall 'h val request_context
  | EventCall 'h val
  | ResponseCall 'h "val + string"
  | SentCall 'h "val + string"
  | ClosedCall 'h

text \<open>What the closures that \<^verbatim>\<open>processMessage\<close> returns have captured.\<close>

datatype 'h Payload = RequestPayload 'h val request_context | EventPayload 'h val

record 'h EventHandlers =
  eh_errorHandler :: "'h option"
  eh_requestMap :: "string \<rightharpoonup> dap_type \<times> 'h"
  eh_responseMap :: "int64 \<rightharpoonup> dap_type \<times> 'h"
  eh_eventMap :: "string \<rightharpoonup> dap_type \<times> 'h"
  eh_responseSentMap :: "dap_type \<rightharpoonup> 'h"

text \<open>
  \<open>se_recvThread\<close> is the receiving thread, with the \<open>onClose\<close> it was given, while it runs.
\<close>

record ('r, 'w, 'h) Session =
  se_isBound :: bool
  se_isProcessingMessages :: bool
  se_reader :: "'r ContentReader"
  se_writer :: "'w ContentWriter"
  se_handlers :: "'h EventHandlers"
  se_recvThread :: "'h option option"
  se_dispatchThread :: bool
  se_inbox :: "'h Payload Chan"
  se_nextSeq :: uint32
  se_onInvalidData :: OnInvalidData
  se_calls :: "'h call list"

definition Session_create :: "('r, 'w, 'h) Session" where
  "Session_create =
     \<lparr>se_isBound = False, se_isProcessingMessages = False,
      se_reader = \<lparr>cr_reader = None, cr_buf = [], cr_on_invalid_data = kIgnore\<rparr>, se_writer = None,
      se_handlers = \<lparr>eh_errorHandler = None, eh_requestMap = Map.empty, eh_responseMap = Map.empty,
        eh_eventMap = Map.empty, eh_responseSentMap = Map.empty\<rparr>,
      se_recvThread = None, se_dispatchThread = False, se_inbox = Chan_new, se_nextSeq = 1,
      se_onInvalidData = kIgnore, se_calls = []\<rparr>"

definition called :: "'h call \<Rightarrow> ('r, 'w, 'h) Session \<Rightarrow> ('r, 'w, 'h) Session" where
  "called c s = s\<lparr>se_calls := se_calls s @ [c]\<rparr>"

subsection \<open>EventHandlers\<close>

definition errorLocked :: "session_error \<Rightarrow> ('r, 'w, 'h) Session \<Rightarrow> ('r, 'w, 'h) Session" where
  "errorLocked e s =
     (case eh_errorHandler (se_handlers s) of
        None \<Rightarrow> s
      | Some h \<Rightarrow> called (ErrorCall h (vsnprintf_c_str 2048 (error_text e))) s)"

definition handlers_put_error :: "'h option \<Rightarrow> ('r, 'w, 'h) Session \<Rightarrow> ('r, 'w, 'h) Session" where
  "handlers_put_error h s = s\<lparr>se_handlers := (se_handlers s)\<lparr>eh_errorHandler := h\<rparr>\<rparr>"

definition handlers_request :: "('r, 'w, 'h) Session \<Rightarrow> string \<Rightarrow> (dap_type \<times> 'h) option" where
  "handlers_request s name = eh_requestMap (se_handlers s) name"

text \<open>\<^verbatim>\<open>emplace\<close> leaves a present entry as it is.\<close>

definition handlers_put_request ::
  "env \<Rightarrow> dap_type \<Rightarrow> 'h \<Rightarrow> ('r, 'w, 'h) Session \<Rightarrow> ('r, 'w, 'h) Session" where
  "handlers_put_request E T h s =
     (let name = TypeInfo_name E T; m = eh_requestMap (se_handlers s)
      in case m name of
           None \<Rightarrow> s\<lparr>se_handlers := (se_handlers s)\<lparr>eh_requestMap := m(name \<mapsto> (T, h))\<rparr>\<rparr>
         | Some _ \<Rightarrow> errorLocked (RequestRegistered name) s)"

definition handlers_response ::
  "int64 \<Rightarrow> ('r, 'w, 'h) Session \<Rightarrow> (dap_type \<times> 'h) option \<times> ('r, 'w, 'h) Session" where
  "handlers_response seq s =
     (let m = eh_responseMap (se_handlers s)
      in case m seq of
           None \<Rightarrow> (None, errorLocked (UnknownResponse seq) s)
         | Some out \<Rightarrow> (Some out, s\<lparr>se_handlers := (se_handlers s)\<lparr>eh_responseMap := m(seq := None)\<rparr>\<rparr>))"

text \<open>The key of the map is an \<^verbatim>\<open>int64_t\<close>, the argument an \<^verbatim>\<open>int\<close>: the conversion extends the sign.\<close>

definition handlers_put_response ::
  "32 word \<Rightarrow> dap_type \<Rightarrow> 'h \<Rightarrow> ('r, 'w, 'h) Session \<Rightarrow> ('r, 'w, 'h) Session" where
  "handlers_put_response seq T h s =
     (let k = scast seq; m = eh_responseMap (se_handlers s)
      in case m k of
           None \<Rightarrow> s\<lparr>se_handlers := (se_handlers s)\<lparr>eh_responseMap := m(k \<mapsto> (T, h))\<rparr>\<rparr>
         | Some _ \<Rightarrow> errorLocked (ResponseRegistered seq) s)"

definition handlers_event :: "('r, 'w, 'h) Session \<Rightarrow> string \<Rightarrow> (dap_type \<times> 'h) option" where
  "handlers_event s name = eh_eventMap (se_handlers s) name"

definition handlers_put_event ::
  "env \<Rightarrow> dap_type \<Rightarrow> 'h \<Rightarrow> ('r, 'w, 'h) Session \<Rightarrow> ('r, 'w, 'h) Session" where
  "handlers_put_event E T h s =
     (let name = TypeInfo_name E T; m = eh_eventMap (se_handlers s)
      in case m name of
           None \<Rightarrow> s\<lparr>se_handlers := (se_handlers s)\<lparr>eh_eventMap := m(name \<mapsto> (T, h))\<rparr>\<rparr>
         | Some _ \<Rightarrow> errorLocked (EventRegistered name) s)"

definition handlers_responseSent :: "('r, 'w, 'h) Session \<Rightarrow> dap_type \<Rightarrow> 'h option" where
  "handlers_responseSent s T = eh_responseSentMap (se_handlers s) T"

definition handlers_put_sent ::
  "env \<Rightarrow> dap_type \<Rightarrow> 'h \<Rightarrow> ('r, 'w, 'h) Session \<Rightarrow> ('r, 'w, 'h) Session" where
  "handlers_put_sent E T h s =
     (let m = eh_responseSentMap (se_handlers s)
      in case m T of
           None \<Rightarrow> s\<lparr>se_handlers := (se_handlers s)\<lparr>eh_responseSentMap := m(T \<mapsto> h)\<rparr>\<rparr>
         | Some _ \<Rightarrow> errorLocked (SentRegistered (TypeInfo_name E T)) s)"

subsection \<open>Sending\<close>

text \<open>
  \<^verbatim>\<open>s.object(...)\<close> on a fresh \<^verbatim>\<open>dap::json::Serializer\<close>, with a function that writes fields one after
  the other as long as the writes succeed.
\<close>

definition message_fields :: "(string \<times> dap_type \<times> val) list \<Rightarrow> Field list" where
  "message_fields fs =
     map (\<lambda>(i, (n, T, _)). \<lparr>fd_name = n, fd_offset = i, fd_type = T\<rparr>) (zip [0..<length fs] fs)"

definition message_object :: "'j json_setup \<Rightarrow> (string \<times> dap_type \<times> val) list \<Rightarrow> bool \<times> 'j" where
  "message_object J fs =
     ser_fields (js_out J) (js_env J) (message_fields fs) (map (\<lambda>(_, _, v). v) fs)
       (s_begin_object (js_out J) (s_new (js_out J)))"

definition send_string ::
  "'w Writer \<Rightarrow> string \<Rightarrow> ('r, 'w, 'h) Session \<Rightarrow> (bool \<times> ('r, 'w, 'h) Session) option" where
  "send_string W text s =
     (case ContentWriter_isOpen W (se_writer s) of (opened, cw) \<Rightarrow>
        let s = s\<lparr>se_writer := cw\<rparr>
        in if \<not> opened then Some (False, errorLocked SendClosed s)
           else map_option (map_prod id (\<lambda>cw. s\<lparr>se_writer := cw\<rparr>)) (ContentWriter_write W (se_writer s) text))"

definition request_message :: "env \<Rightarrow> 32 word \<Rightarrow> dap_type \<Rightarrow> val \<Rightarrow> (string \<times> dap_type \<times> val) list" where
  "request_message E seq T v =
     [(''seq'', TInteger, VInteger (scast seq)), (''type'', TString, VString ''request''),
      (''command'', TString, VString (TypeInfo_name E T)), (''arguments'', T, v)]"

text \<open>\<^verbatim>\<open>send(requestTypeInfo, responseTypeInfo, request, responseHandler)\<close>.\<close>

definition send_request ::
  "'w Writer \<Rightarrow> 'j json_setup \<Rightarrow> dap_type \<Rightarrow> dap_type \<Rightarrow> val \<Rightarrow> 'h
     \<Rightarrow> ('r, 'w, 'h) Session \<Rightarrow> (bool \<times> ('r, 'w, 'h) Session) option" where
  "send_request W J T R request h s =
     (let seq = se_nextSeq s;
          s = handlers_put_response seq R h (s\<lparr>se_nextSeq := seq + 1\<rparr>)
      in case message_object J (request_message (js_env J) seq T request) of (ok, j) \<Rightarrow>
           if \<not> ok then Some (False, s)
           else do { text \<leftarrow> js_dump J j; send_string W text s })"

text \<open>\<^verbatim>\<open>dap::integer(nextSeq++)\<close> converts an unsigned number, without its sign.\<close>

definition event_message :: "env \<Rightarrow> uint32 \<Rightarrow> dap_type \<Rightarrow> val \<Rightarrow> (string \<times> dap_type \<times> val) list" where
  "event_message E seq T v =
     [(''seq'', TInteger, VInteger (ucast seq)), (''type'', TString, VString ''event''),
      (''event'', TString, VString (TypeInfo_name E T)), (''body'', T, v)]"

definition send_event ::
  "'w Writer \<Rightarrow> 'j json_setup \<Rightarrow> dap_type \<Rightarrow> val
     \<Rightarrow> ('r, 'w, 'h) Session \<Rightarrow> (bool \<times> ('r, 'w, 'h) Session) option" where
  "send_event W J T event s =
     (let seq = se_nextSeq s; s = s\<lparr>se_nextSeq := seq + 1\<rparr>
      in case message_object J (event_message (js_env J) seq T event) of (ok, j) \<Rightarrow>
           if \<not> ok then Some (False, s)
           else do { text \<leftarrow> js_dump J j; send_string W text s })"

subsection \<open>The callbacks of a request handler\<close>

definition success_message ::
  "uint32 \<Rightarrow> request_context \<Rightarrow> dap_type \<Rightarrow> val \<Rightarrow> (string \<times> dap_type \<times> val) list" where
  "success_message seq ctx T v =
     [(''seq'', TInteger, VInteger (ucast seq)), (''type'', TString, VString ''response''),
      (''request_seq'', TInteger, VInteger (rc_sequence ctx)), (''success'', TBoolean, VBoolean True),
      (''command'', TString, VString (rc_command ctx)), (''body'', T, v)]"

definition failure_message ::
  "uint32 \<Rightarrow> request_context \<Rightarrow> string \<Rightarrow> (string \<times> dap_type \<times> val) list" where
  "failure_message seq ctx msg =
     [(''seq'', TInteger, VInteger (ucast seq)), (''type'', TString, VString ''response''),
      (''request_seq'', TInteger, VInteger (rc_sequence ctx)), (''success'', TBoolean, VBoolean False),
      (''command'', TString, VString (rc_command ctx)), (''message'', TString, VString msg)]"

definition response_sent ::
  "dap_type \<Rightarrow> val + string \<Rightarrow> ('r, 'w, 'h) Session \<Rightarrow> ('r, 'w, 'h) Session" where
  "response_sent T r s =
     (case handlers_responseSent s T of None \<Rightarrow> s | Some h \<Rightarrow> called (SentCall h r) s)"

text \<open>Neither callback looks at what the serialisation or the sending returns.\<close>

definition onSuccess ::
  "'w Writer \<Rightarrow> 'j json_setup \<Rightarrow> request_context \<Rightarrow> dap_type \<Rightarrow> val
     \<Rightarrow> ('r, 'w, 'h) Session \<Rightarrow> ('r, 'w, 'h) Session option" where
  "onSuccess W J ctx T v s =
     (let seq = se_nextSeq s; s = s\<lparr>se_nextSeq := seq + 1\<rparr>
      in do {
        text \<leftarrow> js_dump J (snd (message_object J (success_message seq ctx T v)));
        (_, s) \<leftarrow> send_string W text s;
        Some (response_sent T (Inl v) s) })"

definition onError ::
  "'w Writer \<Rightarrow> 'j json_setup \<Rightarrow> request_context \<Rightarrow> dap_type \<Rightarrow> string
     \<Rightarrow> ('r, 'w, 'h) Session \<Rightarrow> ('r, 'w, 'h) Session option" where
  "onError W J ctx T msg s =
     (let seq = se_nextSeq s; s = s\<lparr>se_nextSeq := seq + 1\<rparr>
      in do {
        text \<leftarrow> js_dump J (snd (message_object J (failure_message seq ctx msg)));
        (_, s) \<leftarrow> send_string W text s;
        Some (response_sent T (Inr msg) s) })"

subsection \<open>Receiving\<close>

text \<open>
  \<^verbatim>\<open>d.field(name, &v)\<close> for a scalar: the value, if the document has such a field and it is of the
  type. \<open>field_callback\<close> is \<^verbatim>\<open>d.field(name, f)\<close> with a function that deserialises into an object: what
  the function returned, if it was called at all, and the object.
\<close>

definition field_string :: "'j json_setup \<Rightarrow> 'j \<Rightarrow> string \<Rightarrow> string option" where
  "field_string J d name =
     Option.bind (d_field (js_in J) d name) (\<lambda>c. Option.bind c (d_string (js_in J)))"

definition field_integer :: "'j json_setup \<Rightarrow> 'j \<Rightarrow> string \<Rightarrow> int64 option" where
  "field_integer J d name =
     Option.bind (d_field (js_in J) d name) (\<lambda>c. Option.bind c (d_integer (js_in J)))"

definition field_boolean :: "'j json_setup \<Rightarrow> 'j \<Rightarrow> string \<Rightarrow> bool option" where
  "field_boolean J d name =
     Option.bind (d_field (js_in J) d name) (\<lambda>c. Option.bind c (d_boolean (js_in J)))"

definition field_callback ::
  "'j json_setup \<Rightarrow> 'j \<Rightarrow> string \<Rightarrow> dap_type \<Rightarrow> val \<Rightarrow> (bool option \<times> val) option" where
  "field_callback J d name T v =
     (case d_field (js_in J) d name of
        None \<Rightarrow> Some (None, v)
      | Some c \<Rightarrow> map_option (map_prod Some id) (deser (js_in J) (js_env J) (js_depth J d) T c v))"

text \<open>\<^verbatim>\<open>typeinfo->construct(data)\<close>.\<close>

abbreviation construct :: "'j json_setup \<Rightarrow> dap_type \<Rightarrow> val" where
  "construct J T \<equiv> default_of (e_decls (js_env J)) T"

definition processRequest ::
  "'j json_setup \<Rightarrow> 'j \<Rightarrow> int64 \<Rightarrow> ('r, 'w, 'h) Session
     \<Rightarrow> ('h Payload option \<times> ('r, 'w, 'h) Session) option" where
  "processRequest J d sequence s =
     (case field_string J d ''command'' of
        None \<Rightarrow> Some (None, errorLocked MissingCommand s)
      | Some command \<Rightarrow>
          (case handlers_request s command of
             None \<Rightarrow> Some (None, errorLocked (NoRequestHandler command) s)
           | Some (T, h) \<Rightarrow> do {
               (r, data) \<leftarrow> field_callback J d ''arguments'' T (construct J T);
               if r \<noteq> Some True then Some (None, errorLocked BadRequest s)
               else Some (Some (RequestPayload h data \<lparr>rc_sequence = sequence, rc_command = command\<rparr>), s) }))"

definition processEvent ::
  "'j json_setup \<Rightarrow> 'j \<Rightarrow> ('r, 'w, 'h) Session \<Rightarrow> ('h Payload option \<times> ('r, 'w, 'h) Session) option" where
  "processEvent J d s =
     (case field_string J d ''event'' of
        None \<Rightarrow> Some (None, errorLocked MissingEvent s)
      | Some event \<Rightarrow>
          (case handlers_event s event of
             None \<Rightarrow> Some (None, errorLocked (NoEventHandler event) s)
           | Some (T, h) \<Rightarrow> do {
               (r, data) \<leftarrow> field_callback J d ''body'' T (construct J T);
               if r = Some False then Some (None, errorLocked (BadEvent event) s)
               else Some (Some (EventPayload h data), s) }))"

definition processResponse ::
  "'j json_setup \<Rightarrow> 'j \<Rightarrow> ('r, 'w, 'h) Session \<Rightarrow> ('r, 'w, 'h) Session option" where
  "processResponse J d s =
     (case field_integer J d ''request_seq'' of
        None \<Rightarrow> Some (errorLocked MissingRequestSeq s)
      | Some requestSeq \<Rightarrow>
          (case handlers_response requestSeq s of
             (None, s) \<Rightarrow> Some (errorLocked (UnknownResponse requestSeq) s)
           | (Some (T, h), s) \<Rightarrow>
               (case field_boolean J d ''success'' of
                  None \<Rightarrow> Some (errorLocked MissingSuccess s)
                | Some success \<Rightarrow>
                    if success then do {
                      (_, data) \<leftarrow> field_callback J d ''body'' T (construct J T);
                      Some (called (ResponseCall h (Inl data)) s) }
                    else
                      (case field_string J d ''message'' of
                         None \<Rightarrow> Some (errorLocked BadMessage s)
                       | Some message \<Rightarrow>
                           Some (called (ResponseCall h (Inr (Error_format (c_str message)))) s)))))"

definition processMessage ::
  "'j json_setup \<Rightarrow> string \<Rightarrow> ('r, 'w, 'h) Session \<Rightarrow> ('h Payload option \<times> ('r, 'w, 'h) Session) option" where
  "processMessage J str s = do {
     d \<leftarrow> js_parse J str;
     case field_string J d ''type'' of
       None \<Rightarrow> Some (None, errorLocked MissingType s)
     | Some type \<Rightarrow>
         (case field_integer J d ''seq'' of
            None \<Rightarrow> Some (None, errorLocked MissingSeq s)
          | Some sequence \<Rightarrow>
              if type = ''request'' then processRequest J d sequence s
              else if type = ''event'' then processEvent J d s
              else if type = ''response'' then map_option (\<lambda>s. (None, s)) (processResponse J d s)
              else Some (None, errorLocked (UnknownType type) s)) }"

definition getPayload ::
  "'r Reader \<Rightarrow> 'j json_setup \<Rightarrow> ('r, 'w, 'h) Session \<Rightarrow> ('h Payload option \<times> ('r, 'w, 'h) Session) option" where
  "getPayload R J s = do {
     (request, cr) \<leftarrow> ContentReader_read R (se_reader s);
     let s = s\<lparr>se_reader := cr\<rparr>;
     if length request > 0 then processMessage J request s else Some (None, s) }"

text \<open>Calling the closure that \<^verbatim>\<open>getPayload\<close> returned.\<close>

definition run_payload :: "'h Payload \<Rightarrow> ('r, 'w, 'h) Session \<Rightarrow> ('r, 'w, 'h) Session" where
  "run_payload p s =
     (case p of
        RequestPayload h data ctx \<Rightarrow> called (RequestCall h data ctx) s
      | EventPayload h data \<Rightarrow> called (EventCall h data) s)"

subsection \<open>Binding and threads\<close>

definition setOnInvalidData :: "OnInvalidData \<Rightarrow> ('r, 'w, 'h) Session \<Rightarrow> ('r, 'w, 'h) Session" where
  "setOnInvalidData m s = s\<lparr>se_onInvalidData := m\<rparr>"

definition connect :: "'r \<Rightarrow> 'w \<Rightarrow> ('r, 'w, 'h) Session \<Rightarrow> ('r, 'w, 'h) Session" where
  "connect r w s =
     (if se_isBound s then errorLocked ConnectTwice s
      else s\<lparr>se_isBound := True, se_reader := ContentReader_new r (se_onInvalidData s), se_writer := Some w\<rparr>)"

definition startProcessingMessages :: "'h option \<Rightarrow> ('r, 'w, 'h) Session \<Rightarrow> ('r, 'w, 'h) Session" where
  "startProcessingMessages onClose s =
     (if se_isProcessingMessages s then errorLocked StartTwice s
      else s\<lparr>se_isProcessingMessages := True, se_recvThread := Some onClose, se_dispatchThread := True\<rparr>)"

definition bind :: "'r \<Rightarrow> 'w \<Rightarrow> 'h option \<Rightarrow> ('r, 'w, 'h) Session \<Rightarrow> ('r, 'w, 'h) Session" where
  "bind r w onClose s = startProcessingMessages onClose (connect r w s)"

text \<open>
  One turn of the loop of \<^verbatim>\<open>recvThread\<close>, entered while the thread runs with the given \<open>onClose\<close>, and one
  of \<^verbatim>\<open>dispatchThread\<close>, which is \<^term>\<open>None\<close> while \<^verbatim>\<open>inbox.take()\<close> has to wait.
\<close>

definition recv_turn ::
  "'r Reader \<Rightarrow> 'j json_setup \<Rightarrow> 'h option \<Rightarrow> ('r, 'w, 'h) Session \<Rightarrow> ('r, 'w, 'h) Session option" where
  "recv_turn R J onClose s =
     (case ContentReader_isOpen R (se_reader s) of (opened, cr) \<Rightarrow>
        let s = s\<lparr>se_reader := cr\<rparr>
        in if \<not> opened
           then Some ((case onClose of None \<Rightarrow> s | Some h \<Rightarrow> called (ClosedCall h) s)\<lparr>se_recvThread := None\<rparr>)
           else do {
             (p, s) \<leftarrow> getPayload R J s;
             Some (case p of
                     None \<Rightarrow> s
                   | Some payload \<Rightarrow> s\<lparr>se_inbox := fst (Chan_put (se_inbox s) payload)\<rparr>) })"

definition dispatch_turn :: "('r, 'w, 'h) Session \<Rightarrow> ('r, 'w, 'h) Session option" where
  "dispatch_turn s =
     (if \<not> Chan_take_ready (se_inbox s) then None
      else
        (case Chan_take (se_inbox s) of
           (None, c) \<Rightarrow> Some (s\<lparr>se_inbox := c, se_dispatchThread := False\<rparr>)
         | (Some payload, c) \<Rightarrow> Some (run_payload payload (s\<lparr>se_inbox := c\<rparr>))))"

text \<open>The destructor up to the joins, which wait for the two threads to end.\<close>

definition destroy :: "'r Reader \<Rightarrow> 'w Writer \<Rightarrow> ('r, 'w, 'h) Session \<Rightarrow> ('r, 'w, 'h) Session" where
  "destroy R W s =
     s\<lparr>se_inbox := fst (Chan_close (se_inbox s)),
       se_reader := ContentReader_close R (se_reader s),
       se_writer := ContentWriter_close W (se_writer s)\<rparr>"

subsection \<open>The typed interface\<close>

text \<open>
  \<^verbatim>\<open>ResponseOrError<T>\<close> and the functions that the templates of \<^verbatim>\<open>session.h\<close> wrap around the user's
  handlers. \<open>handle_request\<close> is what the wrapper does with the result of the user's handler, called at
  once (the first overload) or later (the overload with a callback); \<open>handle_response\<close> is the first
  argument's overload that knows no error.
\<close>

record ResponseOrError =
  roe_response :: val
  roe_error :: string

definition of_response :: "val \<Rightarrow> ResponseOrError" where
  "of_response v = \<lparr>roe_response = v, roe_error = []\<rparr>"

definition of_error :: "val \<Rightarrow> string \<Rightarrow> ResponseOrError" where
  "of_error dflt e = \<lparr>roe_response = dflt, roe_error = e\<rparr>"

definition handle_request ::
  "'w Writer \<Rightarrow> 'j json_setup \<Rightarrow> request_context \<Rightarrow> dap_type \<Rightarrow> ResponseOrError
     \<Rightarrow> ('r, 'w, 'h) Session \<Rightarrow> ('r, 'w, 'h) Session option" where
  "handle_request W J ctx T res s =
     (if is_error (roe_error res) then onError W J ctx T (roe_error res) s
      else onSuccess W J ctx T (roe_response res) s)"

definition handle_response ::
  "'w Writer \<Rightarrow> 'j json_setup \<Rightarrow> request_context \<Rightarrow> dap_type \<Rightarrow> val
     \<Rightarrow> ('r, 'w, 'h) Session \<Rightarrow> ('r, 'w, 'h) Session option" where
  "handle_response W J ctx T res s = onSuccess W J ctx T res s"

text \<open>The argument of a response-sent handler, and the value that a response gives to the promise of a request.\<close>

definition result_of :: "val \<Rightarrow> val + string \<Rightarrow> ResponseOrError" where
  "result_of dflt r = (case r of Inl v \<Rightarrow> of_response v | Inr e \<Rightarrow> of_error dflt e)"

text \<open>
  \<^verbatim>\<open>send(const T& request)\<close>: the response handler \<open>h\<close> stands for the function that sets the promise, so
  the value set when the sending fails is one more call of it. \<open>future_of\<close> is the state of the promise
  after the calls made so far.
\<close>

definition send_template ::
  "'w Writer \<Rightarrow> 'j json_setup \<Rightarrow> dap_type \<Rightarrow> dap_type \<Rightarrow> val \<Rightarrow> 'h
     \<Rightarrow> ('r, 'w, 'h) Session \<Rightarrow> ('r, 'w, 'h) Session option" where
  "send_template W J T R request h s = do {
     (sent, s) \<leftarrow> send_request W J T R request h s;
     Some (if \<not> sent then called (ResponseCall h (Inr (Error_format ''Failed to send request''))) s else s) }"

fun future_of :: "val \<Rightarrow> 'h \<Rightarrow> 'h call list \<Rightarrow> ResponseOrError promise_state" where
  "future_of dflt h cs =
     foldl (\<lambda>p c. case c of
        ResponseCall h' r \<Rightarrow> if h' = h then fst (promise_set_value p (result_of dflt r)) else p
      | _ \<Rightarrow> p) (promise_new (of_response dflt)) cs"

lemmas handler_defs =
  handlers_put_error_def handlers_request_def handlers_put_request_def handlers_response_def
  handlers_put_response_def handlers_event_def handlers_put_event_def handlers_responseSent_def
  handlers_put_sent_def

end
