(* ===== verification/SessionRun.thy ===== *)
theory SessionRun
  imports SessionCore
begin

section \<open>Runs of a session\<close>

text \<open>
  Everything that can happen to a session, as a list of operations: the calls of the public interface,
  the callbacks of request handlers, the turns of the two threads, and what others do to the shared
  reader and writer in between. What holds after every such run.
\<close>

datatype ('r, 'w, 'h) session_op =
    OnError "'h option"
  | RegisterRequest dap_type 'h
  | RegisterEvent dap_type 'h
  | RegisterSent dap_type 'h
  | SetOnInvalidData OnInvalidData
  | Connect 'r 'w
  | Start "'h option"
  | SendRequest dap_type dap_type val 'h
  | SendEvent dap_type val
  | Succeed request_context dap_type val
  | Fail request_context dap_type string
  | GetPayload
  | RunPayload "'h Payload"
  | Receive
  | Dispatch
  | Destroy
  | ReaderChanges 'r
  | WriterChanges 'w

fun session_do ::
  "'r Reader \<Rightarrow> 'w Writer \<Rightarrow> 'j json_setup \<Rightarrow> ('r, 'w, 'h) session_op
     \<Rightarrow> ('r, 'w, 'h) Session \<Rightarrow> ('r, 'w, 'h) Session option" where
  "session_do R W J (OnError h) s = Some (handlers_put_error h s)"
| "session_do R W J (RegisterRequest T h) s = Some (handlers_put_request (js_env J) T h s)"
| "session_do R W J (RegisterEvent T h) s = Some (handlers_put_event (js_env J) T h s)"
| "session_do R W J (RegisterSent T h) s = Some (handlers_put_sent (js_env J) T h s)"
| "session_do R W J (SetOnInvalidData m) s = Some (setOnInvalidData m s)"
| "session_do R W J (Connect r w) s = Some (connect r w s)"
| "session_do R W J (Start h) s = Some (startProcessingMessages h s)"
| "session_do R W J (SendRequest T U v h) s = map_option snd (send_request W J T U v h s)"
| "session_do R W J (SendEvent T v) s = map_option snd (send_event W J T v s)"
| "session_do R W J (Succeed ctx T v) s = onSuccess W J ctx T v s"
| "session_do R W J (Fail ctx T msg) s = onError W J ctx T msg s"
| "session_do R W J GetPayload s = map_option snd (getPayload R J s)"
| "session_do R W J (RunPayload p) s = Some (run_payload p s)"
| "session_do R W J Receive s =
     (case se_recvThread s of None \<Rightarrow> None | Some onClose \<Rightarrow> recv_turn R J onClose s)"
| "session_do R W J Dispatch s = (if se_dispatchThread s then dispatch_turn s else None)"
| "session_do R W J Destroy s = Some (destroy R W s)"
| "session_do R W J (ReaderChanges r) s = Some (s\<lparr>se_reader := (se_reader s)\<lparr>cr_reader := Some r\<rparr>\<rparr>)"
| "session_do R W J (WriterChanges w) s = Some (s\<lparr>se_writer := Some w\<rparr>)"

fun session_run ::
  "'r Reader \<Rightarrow> 'w Writer \<Rightarrow> 'j json_setup \<Rightarrow> ('r, 'w, 'h) session_op list
     \<Rightarrow> ('r, 'w, 'h) Session \<Rightarrow> ('r, 'w, 'h) Session option" where
  "session_run R W J [] s = Some s"
| "session_run R W J (op # ops) s =
     (case session_do R W J op s of None \<Rightarrow> None | Some s' \<Rightarrow> session_run R W J ops s')"

lemma session_run_invariant:
  assumes "session_run R W J ops s = Some t" and "P s"
    and "\<And>op s t. op \<in> set ops \<Longrightarrow> P s \<Longrightarrow> session_do R W J op s = Some t \<Longrightarrow> P t"
  shows "P t"
  using assms
proof (induction ops arbitrary: s)
  case (Cons op ops)
  from Cons.prems(1) obtain u where u: "session_do R W J op s = Some u" "session_run R W J ops u = Some t"
    by (auto split: option.splits)
  have "P u" using Cons.prems(3) [OF _ Cons.prems(2) u(1)] by simp
  then show ?case by (rule Cons.IH [OF u(2)]) (use Cons.prems(3) in auto)
qed simp

subsection \<open>What each method leaves alone\<close>

text \<open>The calls of response handlers, and the calls that are not: reporting an error makes none of the former.\<close>

definition response_calls :: "'h call list \<Rightarrow> ('h \<times> (val + string)) list" where
  "response_calls cs = List.map_filter (\<lambda>c. case c of ResponseCall h r \<Rightarrow> Some (h, r) | _ \<Rightarrow> None) cs"

lemma response_calls_append [simp]: "response_calls (cs @ ds) = response_calls cs @ response_calls ds"
  by (simp add: response_calls_def List.map_filter_def)

lemma response_calls_simps [simp]:
  "response_calls [] = []" "response_calls [ResponseCall h r] = [(h, r)]" "response_calls [ErrorCall h m] = []"
  "response_calls [RequestCall h v ctx] = []" "response_calls [EventCall h v] = []"
  "response_calls [SentCall h r] = []" "response_calls [ClosedCall h] = []"
  by (simp_all add: response_calls_def List.map_filter_def)

lemma called_simps [simp]:
  "se_handlers (called c s) = se_handlers s" "se_nextSeq (called c s) = se_nextSeq s"
  "se_reader (called c s) = se_reader s" "se_writer (called c s) = se_writer s"
  "se_inbox (called c s) = se_inbox s" "se_recvThread (called c s) = se_recvThread s"
  "se_dispatchThread (called c s) = se_dispatchThread s" "se_calls (called c s) = se_calls s @ [c]"
  "se_isBound (called c s) = se_isBound s"
  by (simp_all add: called_def)

lemma errorLocked_simps [simp]:
  "se_handlers (errorLocked e s) = se_handlers s" "se_nextSeq (errorLocked e s) = se_nextSeq s"
  "se_reader (errorLocked e s) = se_reader s" "se_writer (errorLocked e s) = se_writer s"
  "se_inbox (errorLocked e s) = se_inbox s" "se_recvThread (errorLocked e s) = se_recvThread s"
  "se_dispatchThread (errorLocked e s) = se_dispatchThread s" "se_isBound (errorLocked e s) = se_isBound s"
  "response_calls (se_calls (errorLocked e s)) = response_calls (se_calls s)"
  by (simp_all add: errorLocked_def split: option.splits)

text \<open>The part of the state that the numbering and the answering of requests is about.\<close>

definition traffic :: "('r, 'w, 'h) Session \<Rightarrow> (int64 \<rightharpoonup> dap_type \<times> 'h) \<times> uint32 \<times> ('h \<times> (val + string)) list" where
  "traffic s = (eh_responseMap (se_handlers s), se_nextSeq s, response_calls (se_calls s))"

definition drawn :: "('r, 'w, 'h) Session \<Rightarrow> ('r, 'w, 'h) Session" where
  "drawn s = s\<lparr>se_nextSeq := se_nextSeq s + 1\<rparr>"

lemma traffic_errorLocked [simp]: "traffic (errorLocked e s) = traffic s"
  by (simp add: traffic_def)

lemma traffic_put [simp]:
  "traffic (handlers_put_error eh s) = traffic s"
  "traffic (handlers_put_request E T h s) = traffic s"
  "traffic (handlers_put_event E T h s) = traffic s"
  "traffic (handlers_put_sent E T h s) = traffic s"
  by (simp_all add: traffic_def handler_defs Let_def split: option.splits)

lemma traffic_update [simp]:
  "traffic (s\<lparr>se_writer := cw\<rparr>) = traffic s" "traffic (s\<lparr>se_reader := cr\<rparr>) = traffic s"
  "traffic (s\<lparr>se_inbox := c\<rparr>) = traffic s" "traffic (s\<lparr>se_recvThread := r\<rparr>) = traffic s"
  "traffic (s\<lparr>se_dispatchThread := b\<rparr>) = traffic s" "traffic (s\<lparr>se_onInvalidData := m\<rparr>) = traffic s"
  "traffic (s\<lparr>se_isBound := b\<rparr>) = traffic s" "traffic (s\<lparr>se_isProcessingMessages := b\<rparr>) = traffic s"
  by (simp_all add: traffic_def)

lemma traffic_called [simp]:
  "traffic (called (ErrorCall h m) s) = traffic s" "traffic (called (RequestCall h v ctx) s) = traffic s"
  "traffic (called (EventCall h v) s) = traffic s" "traffic (called (SentCall h r) s) = traffic s"
  "traffic (called (ClosedCall h) s) = traffic s"
  by (simp_all add: traffic_def)

lemma traffic_response_sent [simp]: "traffic (response_sent T r s) = traffic s"
  by (simp add: response_sent_def split: option.splits)

lemma traffic_run_payload [simp]: "traffic (run_payload p s) = traffic s"
  by (simp add: run_payload_def split: Payload.splits)

lemma traffic_send_string: "send_string W text s = Some (b, t) \<Longrightarrow> traffic t = traffic s"
  by (auto simp: send_string_def Let_def split: prod.splits if_splits)

lemma traffic_send_event: "send_event W J T v s = Some (b, t) \<Longrightarrow> traffic t = traffic (drawn s)"
  by (auto simp: send_event_def Let_def drawn_def bind_eq_Some_conv split: prod.splits if_splits
      dest!: traffic_send_string)

lemma traffic_reply:
  "onSuccess W J ctx T v s = Some t \<Longrightarrow> traffic t = traffic (drawn s)"
  "onError W J ctx T m s = Some t \<Longrightarrow> traffic t = traffic (drawn s)"
  by (auto simp: onSuccess_def onError_def Let_def drawn_def bind_eq_Some_conv dest!: traffic_send_string)

lemma traffic_send_request:
  "send_request W J T U v h s = Some (b, t) \<Longrightarrow>
   traffic t = traffic (handlers_put_response (se_nextSeq s) U h (drawn s))"
  by (auto simp: send_request_def Let_def drawn_def bind_eq_Some_conv split: prod.splits if_splits
      dest!: traffic_send_string)

text \<open>A response removes at most the entry that it names, and then calls at most that entry's handler, once.\<close>

definition answers :: "('r, 'w, 'h) Session \<Rightarrow> ('r, 'w, 'h) Session \<Rightarrow> bool" where
  "answers s t \<longleftrightarrow> traffic t = traffic s \<or>
     (\<exists>k T h rs. eh_responseMap (se_handlers s) k = Some (T, h) \<and> (rs = [] \<or> (\<exists>r. rs = [(h, r)]))
       \<and> traffic t = ((eh_responseMap (se_handlers s))(k := None), se_nextSeq s, response_calls (se_calls s) @ rs))"

lemma answers_processResponse:
  assumes "processResponse J d s = Some t"
  shows "answers s t"
proof (cases "field_integer J d ''request_seq''")
  case None
  with assms show ?thesis by (auto simp: processResponse_def answers_def)
next
  case (Some k)
  note k = this
  show ?thesis
  proof (cases "eh_responseMap (se_handlers s) k")
    case None
    with k assms show ?thesis by (auto simp: processResponse_def handlers_response_def answers_def)
  next
    case (Some p)
    obtain T h where p: "p = (T, h)" by (cases p)
    have "\<exists>rs. (rs = [] \<or> (\<exists>r. rs = [(h, r)])) \<and> traffic t =
        ((eh_responseMap (se_handlers s))(k := None), se_nextSeq s, response_calls (se_calls s) @ rs)"
      using assms k Some p
      by (auto simp: processResponse_def handlers_response_def Let_def bind_eq_Some_conv traffic_def
          split: option.splits if_splits)
    with Some p show ?thesis unfolding answers_def by blast
  qed
qed

lemma answers_refl [simp]: "traffic t = traffic s \<Longrightarrow> answers s t"
  by (simp add: answers_def)

lemma answers_cong: "traffic s = traffic s' \<Longrightarrow> traffic t = traffic t' \<Longrightarrow> answers s t \<Longrightarrow> answers s' t'"
  by (simp add: answers_def traffic_def)

lemma traffic_processRequest: "processRequest J d q s = Some (p, t) \<Longrightarrow> traffic t = traffic s"
  by (auto simp: processRequest_def bind_eq_Some_conv split: option.splits if_splits)

lemma traffic_processEvent: "processEvent J d s = Some (p, t) \<Longrightarrow> traffic t = traffic s"
  by (auto simp: processEvent_def bind_eq_Some_conv split: option.splits if_splits)

text \<open>The four things that can become of a message.\<close>

lemma processMessage_cases:
  assumes "processMessage J str s = Some (p, t)"
  obtains (error) e where "p = None" "t = errorLocked e s"
  | (request) d q where "js_parse J str = Some d" "processRequest J d q s = Some (p, t)"
  | (event) d where "js_parse J str = Some d" "processEvent J d s = Some (p, t)"
  | (response) d where "js_parse J str = Some d" "p = None" "processResponse J d s = Some t"
proof -
  obtain d where d: "js_parse J str = Some d"
    using assms by (auto simp: processMessage_def bind_eq_Some_conv)
  show ?thesis
  proof (cases "field_string J d ''type''")
    case None
    then show ?thesis using assms d error by (auto simp: processMessage_def)
  next
    case (Some type)
    note type = this
    show ?thesis
    proof (cases "field_integer J d ''seq''")
      case None
      then show ?thesis using assms d type error by (auto simp: processMessage_def)
    next
      case (Some q)
      consider "type = ''request''" | "type = ''event''" | "type = ''response''"
        | "type \<notin> {''request'', ''event'', ''response''}" by auto
      then show ?thesis
      proof cases
        case 1
        with assms d type Some have "processRequest J d q s = Some (p, t)" by (simp add: processMessage_def)
        with d request show ?thesis by blast
      next
        case 2
        with assms d type Some have "processEvent J d s = Some (p, t)" by (simp add: processMessage_def)
        with d event show ?thesis by blast
      next
        case 3
        with assms d type Some have "p = None" "processResponse J d s = Some t" by (auto simp: processMessage_def)
        with d response show ?thesis by blast
      next
        case 4
        with assms d type Some have "p = None" "t = errorLocked (UnknownType type) s"
          by (auto simp: processMessage_def)
        with error show ?thesis by blast
      qed
    qed
  qed
qed

lemma answers_processMessage:
  assumes "processMessage J str s = Some (p, t)"
  shows "answers s t"
  using assms
  by (cases rule: processMessage_cases)
    (simp_all add: traffic_processRequest traffic_processEvent answers_processResponse)

lemma answers_getPayload:
  assumes "getPayload R J s = Some (p, t)"
  shows "answers s t"
proof -
  from assms obtain request cr where "ContentReader_read R (se_reader s) = Some (request, cr)"
      "(if length request > 0 then processMessage J request (s\<lparr>se_reader := cr\<rparr>) else Some (None, s\<lparr>se_reader := cr\<rparr>)) = Some (p, t)"
    by (auto simp: getPayload_def bind_eq_Some_conv Let_def)
  then show ?thesis
    using answers_cong [OF _ refl answers_processMessage [of J request "s\<lparr>se_reader := cr\<rparr>" p t], of s]
    by (auto split: if_splits)
qed

lemma answers_recv_turn:
  assumes "recv_turn R J oc s = Some t"
  shows "answers s t"
proof -
  obtain opened cr where op: "ContentReader_isOpen R (se_reader s) = (opened, cr)" by (cases "ContentReader_isOpen R (se_reader s)")
  show ?thesis
  proof (cases opened)
    case True
    with assms op obtain p u where u: "getPayload R J (s\<lparr>se_reader := cr\<rparr>) = Some (p, u)"
        "t = (case p of None \<Rightarrow> u | Some payload \<Rightarrow> u\<lparr>se_inbox := fst (Chan_put (se_inbox u) payload)\<rparr>)"
      by (auto simp: recv_turn_def Let_def bind_eq_Some_conv)
    have "traffic t = traffic u" using u(2) by (simp split: option.splits)
    then show ?thesis by (intro answers_cong [OF _ _ answers_getPayload [OF u(1)]]) simp_all
  qed (use assms op in \<open>auto simp: recv_turn_def Let_def split: option.splits\<close>)
qed

lemma traffic_dispatch_turn: "dispatch_turn s = Some t \<Longrightarrow> traffic t = traffic s"
  by (auto simp: dispatch_turn_def split: if_splits prod.splits option.splits)

text \<open>The three ways in which an operation touches the numbering and answering of requests.\<close>

fun draws :: "('r, 'w, 'h) session_op \<Rightarrow> bool" where
  "draws (SendRequest T U v h) = True"
| "draws (SendEvent T v) = True"
| "draws (Succeed ctx T v) = True"
| "draws (Fail ctx T m) = True"
| "draws _ = False"

lemma session_do_cases:
  assumes "session_do R W J op s = Some t"
  obtains (request) T U v h where "op = SendRequest T U v h"
      "traffic t = traffic (handlers_put_response (se_nextSeq s) U h (drawn s))"
  | (draw) "draws op" "\<forall>T U v h. op \<noteq> SendRequest T U v h" "traffic t = traffic (drawn s)"
  | (other) "\<not> draws op" "answers s t"
proof (cases op)
  case (SendRequest T U v h)
  with assms that(1) show ?thesis by (auto dest: traffic_send_request)
next
  case (SendEvent T v)
  with assms that(2) show ?thesis by (auto dest: traffic_send_event)
next
  case (Succeed ctx T v)
  with assms that(2) show ?thesis by (auto dest: traffic_reply)
next
  case (Fail ctx T m)
  with assms that(2) show ?thesis by (auto dest: traffic_reply)
next
  case GetPayload
  with assms that(3) show ?thesis by (auto dest: answers_getPayload)
next
  case Receive
  with assms that(3) show ?thesis by (auto dest: answers_recv_turn split: option.splits)
next
  case Dispatch
  with assms that(3) show ?thesis by (auto dest: traffic_dispatch_turn split: if_splits)
qed (use assms that(3) in \<open>auto simp: setOnInvalidData_def connect_def startProcessingMessages_def destroy_def\<close>)

subsection \<open>Numbering\<close>

text \<open>
  After \<open>n\<close> sequence numbers were drawn the counter is \<open>n + 1\<close> modulo 2^32, and the response handlers
  that still wait are registered under numbers drawn before.
\<close>

abbreviation key_of :: "nat \<Rightarrow> int64" where
  "key_of k \<equiv> scast (of_nat k :: uint32)"

definition numbered :: "nat \<Rightarrow> ('r, 'w, 'h) Session \<Rightarrow> bool" where
  "numbered n s \<longleftrightarrow> se_nextSeq s = of_nat (Suc n) \<and> dom (eh_responseMap (se_handlers s)) \<subseteq> key_of ` {1..n}"

lemma scast_inject: "(scast (a :: 32 word) :: 64 word) = scast b \<longleftrightarrow> a = b"
proof
  assume "(scast a :: 64 word) = scast b"
  then have "sint (scast a :: 64 word) = sint (scast b :: 64 word)" by simp
  then show "a = b" by (intro signed_word_eqI) (simp add: sint_up_scast is_up)
qed simp

lemma key_of_inject:
  assumes "key_of a = key_of b" and "1 \<le> a" "a \<le> 2 ^ 32" "1 \<le> b" "b \<le> 2 ^ 32"
  shows "a = b"
proof -
  have "a mod 2 ^ 32 = b mod 2 ^ 32"
    using assms(1) by (simp only: scast_inject word_of_nat_eq_iff take_bit_eq_mod) simp
  with assms(2-) show ?thesis by (cases "a = 2 ^ 32"; cases "b = 2 ^ 32") auto
qed

lemma numbered_key_fresh:
  assumes "numbered n s" and "n < 2 ^ 32"
  shows "eh_responseMap (se_handlers s) (scast (se_nextSeq s)) = None"
proof (rule ccontr)
  assume "eh_responseMap (se_handlers s) (scast (se_nextSeq s)) \<noteq> None"
  then have "key_of (Suc n) \<in> key_of ` {1..n}" using assms(1) unfolding numbered_def by (metis domI not_None_eq subsetD)
  then obtain k where "key_of (Suc n) = key_of k" "1 \<le> k" "k \<le> n" by auto
  with key_of_inject [of "Suc n" k] assms(2) show False by simp
qed

lemma numbered_mono: "dom m \<subseteq> key_of ` {1..n} \<Longrightarrow> dom m \<subseteq> key_of ` {1..Suc n}"
  by (erule subset_trans) auto

lemma numbered_step:
  assumes "session_do R W J op s = Some t" and "numbered n s"
  shows "numbered (if draws op then Suc n else n) t"
  using assms(1)
proof (cases rule: session_do_cases)
  case (request T U v h)
  have seq: "se_nextSeq s = of_nat (Suc n)" using assms(2) by (simp add: numbered_def)
  have "dom ((eh_responseMap (se_handlers s))(key_of (Suc n) \<mapsto> (U, h))) \<subseteq> key_of ` {1..Suc n}"
    using assms(2) by (auto simp: numbered_def simp del: of_nat_Suc dest!: subsetD)
  moreover have "dom (eh_responseMap (se_handlers s)) \<subseteq> key_of ` {1..Suc n}"
    using assms(2) by (intro numbered_mono) (simp add: numbered_def)
  ultimately show ?thesis
    using request seq
    by (auto simp: numbered_def traffic_def drawn_def handlers_put_response_def Let_def add.commute
        simp del: dom_fun_upd split: option.splits)
next
  case draw
  then show ?thesis
    using assms(2) numbered_mono by (auto simp: numbered_def traffic_def drawn_def add.commute)
next
  case other
  then show ?thesis
    using assms(2) by (auto simp: answers_def numbered_def traffic_def split: if_splits)
qed

lemma numbered_run:
  "session_run R W J ops s = Some t \<Longrightarrow> numbered n s \<Longrightarrow> numbered (n + length (filter draws ops)) t"
proof (induction ops arbitrary: s n)
  case (Cons op ops)
  from Cons.prems(1) obtain u where u: "session_do R W J op s = Some u" "session_run R W J ops u = Some t"
    by (auto split: option.splits)
  from Cons.IH [OF u(2) numbered_step [OF u(1) Cons.prems(2)]] show ?case by (auto split: if_splits)
qed simp

lemma numbered_create: "numbered 0 Session_create"
  by (simp add: numbered_def Session_create_def)

subsection \<open>Answering\<close>

definition entries_for :: "'h \<Rightarrow> (int64 \<rightharpoonup> dap_type \<times> 'h) \<Rightarrow> nat" where
  "entries_for h m = card {k. \<exists>T. m k = Some (T, h)}"

abbreviation pending :: "'h \<Rightarrow> ('r, 'w, 'h) Session \<Rightarrow> nat" where
  "pending h s \<equiv> entries_for h (eh_responseMap (se_handlers s))"

definition answered :: "'h \<Rightarrow> ('r, 'w, 'h) Session \<Rightarrow> nat" where
  "answered h s = length (filter (\<lambda>p. fst p = h) (response_calls (se_calls s)))"

fun requests :: "'h \<Rightarrow> ('r, 'w, 'h) session_op \<Rightarrow> bool" where
  "requests h (SendRequest T U v h') = (h' = h)"
| "requests h _ = False"

lemma entries_for_remove:
  assumes "m k = Some (T, g)"
  shows "entries_for h (m(k := None)) + (if g = h then 1 else 0) = entries_for h m"
proof (cases "g = h")
  case True
  let ?A = "{i. \<exists>T. m i = Some (T, h)}"
  have "{i. \<exists>T. (m(k := None)) i = Some (T, h)} = ?A - {k}" by auto
  moreover have "k \<in> ?A" using assms True by simp
  then have "card ?A = Suc (card (?A - {k}))" by (intro card.remove) simp
  ultimately show ?thesis using True by (simp add: entries_for_def)
next
  case False
  with assms have "{i. \<exists>T. (m(k := None)) i = Some (T, h)} = {i. \<exists>T. m i = Some (T, h)}" by auto
  with False show ?thesis by (simp add: entries_for_def)
qed

lemma entries_for_put:
  assumes "m k = None"
  shows "entries_for h (m(k \<mapsto> (U, g))) = entries_for h m + (if g = h then 1 else 0)"
proof -
  have "(m(k \<mapsto> (U, g)))(k := None) = m" using assms by auto
  then show ?thesis using entries_for_remove [of "m(k \<mapsto> (U, g))" k U g h] by simp
qed

lemma answered_step:
  assumes "session_do R W J op s = Some t"
  shows "answered h t + pending h t \<le> answered h s + pending h s + (if requests h op then 1 else 0)"
  using assms
proof (cases rule: session_do_cases)
  case (request T U v g)
  let ?m = "eh_responseMap (se_handlers s)"
  show ?thesis
  proof (cases "?m (scast (se_nextSeq s))")
    case None
    then show ?thesis
      using request entries_for_put [of ?m "scast (se_nextSeq s)" h U g]
      by (auto simp: answered_def traffic_def drawn_def handlers_put_response_def Let_def)
  next
    case (Some p)
    then show ?thesis
      using request by (auto simp: answered_def traffic_def drawn_def handlers_put_response_def Let_def)
  qed
next
  case draw
  then show ?thesis by (auto simp: answered_def traffic_def drawn_def)
next
  case other
  show ?thesis
  proof (cases "traffic t = traffic s")
    case True
    then show ?thesis by (simp add: answered_def traffic_def)
  next
    case False
    then obtain k T g rs where k: "eh_responseMap (se_handlers s) k = Some (T, g)"
        "rs = [] \<or> (\<exists>r. rs = [(g, r)])"
        "traffic t = ((eh_responseMap (se_handlers s))(k := None), se_nextSeq s, response_calls (se_calls s) @ rs)"
      using other(2) by (auto simp: answers_def)
    then show ?thesis
      using entries_for_remove [of "eh_responseMap (se_handlers s)", OF k(1), of h]
      by (auto simp: answered_def traffic_def split: if_splits)
  qed
qed

lemma answered_run:
  "session_run R W J ops s = Some t \<Longrightarrow>
   answered h t + pending h t \<le> answered h s + pending h s + length (filter (requests h) ops)"
proof (induction ops arbitrary: s)
  case (Cons op ops)
  from Cons.prems obtain u where u: "session_do R W J op s = Some u" "session_run R W J ops u = Some t"
    by (auto split: option.splits)
  from Cons.IH [OF u(2)] answered_step [OF u(1), of h] show ?case by (auto split: if_splits)
qed simp

end
