(* ===== verification/JsonText.thy ===== *)
theory JsonText
  imports SessionRun NlohmannJson
begin

section \<open>Messages as texts\<close>

text \<open>
  What a session relies on of the JSON library beyond the back end's document operations: the text that
  \<^verbatim>\<open>dump()\<close> produces is not empty and parses into a document with the same content. This holds for the
  documents that the library's text form carries, for instance because their strings are valid UTF-8,
  their numbers are finite and the text fits into memory. The depth of a node is at least the nesting of
  the document it holds.
\<close>

definition message_words :: "string list" where
  "message_words = [''seq'', ''type'', ''command'', ''event'', ''arguments'', ''body'', ''request_seq'', ''success'',
     ''message'', ''request'', ''response'']"

locale session_json = json_backend "js_in J" "js_out J" repr str_ok any_int
  for J :: "'j json_setup" and repr str_ok any_int +
  fixes carried :: "json \<Rightarrow> bool"
  assumes words: "k \<in> set message_words \<Longrightarrow> str_ok k"
    and dump_parse: "repr j X \<Longrightarrow> carried X \<Longrightarrow>
      \<exists>t i. js_dump J j = Some t \<and> message_ok t \<and> js_parse J t = Some i \<and> repr i X"
    and nesting: "repr j X \<Longrightarrow> jdepth X \<le> js_depth J j"
begin

lemma words_ok:
  "str_ok ''seq''" "str_ok ''type''" "str_ok ''command''" "str_ok ''event''" "str_ok ''arguments''" "str_ok ''body''"
  "str_ok ''request_seq''" "str_ok ''success''" "str_ok ''message''" "str_ok ''request''" "str_ok ''response''"
  using words by (simp_all add: message_words_def)

subsection \<open>Reading the fields of a message\<close>

lemma field_string_reads:
  assumes "repr i (JObj m)" "distinct (map fst m)" "map_of m k = Some (JStr x)" "str_ok k" "str_ok x"
  shows "field_string J i k = Some x"
  using get_field [OF assms(1,2,4,3)] get_string [OF _ assms(5)] by (auto simp: field_string_def)

lemma field_integer_reads:
  assumes "repr i (JObj m)" "distinct (map fst m)" "map_of m k = Some (JInt w)" "str_ok k"
  shows "field_integer J i k = Some w"
  using get_field [OF assms(1,2,4,3)] get_integer by (auto simp: field_integer_def)

lemma field_boolean_reads:
  assumes "repr i (JObj m)" "distinct (map fst m)" "map_of m k = Some (JBool b)" "str_ok k"
  shows "field_boolean J i k = Some b"
  using get_field [OF assms(1,2,4,3)] get_boolean by (auto simp: field_boolean_def)

lemma field_callback_reads:
  assumes "repr i (JObj m)" "distinct (map fst m)" "map_of m k = Some X" "str_ok k"
    and "wf_env (js_env J)" "type_ok (js_env J) T" "ok (js_env J) T v" "json_of (js_env J) T v = Some X"
  shows "\<exists>v'. field_callback J i k T (construct J T) = Some (Some True, v') \<and> norm v' = norm v"
proof -
  obtain c where c: "d_field (js_in J) i k = Some (Some c)" "repr c X"
    using get_field [OF assms(1,2,4,3)] by auto
  have "jdepth X < jdepth (JObj m)" using jdepth_member [OF map_of_SomeD [OF assms(3)]] .
  then have "jdepth X \<le> js_depth J i" using nesting [OF assms(1)] by simp
  from readsD [OF portable_reads [OF assms(5-7)] assms(8) c(2) this default_of_type_ok [OF assms(5,6)]]
  obtain v' where "deser (js_in J) (js_env J) (js_depth J i) T (Some c) (construct J T) = Some (True, v')"
      "norm v' = norm v" by blast
  then show ?thesis using c(1) by (simp add: field_callback_def)
qed

lemma message_object_builds:
  assumes "portable_fields str_ok any_int (js_env J) (message_fields fs) (map (\<lambda>(_, _, v). v) fs)"
    and "distinct (map fst fs)"
  shows "\<exists>j. message_object J fs = (True, j)
    \<and> repr j (JObj (json_fields (js_env J) (message_fields fs) (map (\<lambda>(_, _, v). v) fs)))"
proof -
  have "map fd_name (message_fields fs) = map fst fs"
    by (rule nth_equalityI) (simp_all add: message_fields_def split: prod.splits)
  then have d: "distinct (map fst [] @ map fd_name (message_fields fs))" using assms(2) by simp
  from ser_builds_aux(4) [OF refl assms(1) begin_object [OF new_node] d]
  show ?thesis unfolding message_object_def by auto
qed

end

subsection \<open>The documents of the four kinds of message\<close>

definition request_doc :: "env \<Rightarrow> 32 word \<Rightarrow> dap_type \<Rightarrow> json \<Rightarrow> json" where
  "request_doc E seq T X = JObj
     [(''seq'', JInt (scast seq)), (''type'', JStr ''request''), (''command'', JStr (TypeInfo_name E T)), (''arguments'', X)]"

definition event_doc :: "env \<Rightarrow> uint32 \<Rightarrow> dap_type \<Rightarrow> json \<Rightarrow> json" where
  "event_doc E seq T X = JObj
     [(''seq'', JInt (ucast seq)), (''type'', JStr ''event''), (''event'', JStr (TypeInfo_name E T)), (''body'', X)]"

definition success_doc :: "uint32 \<Rightarrow> request_context \<Rightarrow> json \<Rightarrow> json" where
  "success_doc seq ctx X = JObj
     [(''seq'', JInt (ucast seq)), (''type'', JStr ''response''), (''request_seq'', JInt (rc_sequence ctx)),
      (''success'', JBool True), (''command'', JStr (rc_command ctx)), (''body'', X)]"

definition failure_doc :: "uint32 \<Rightarrow> request_context \<Rightarrow> string \<Rightarrow> json" where
  "failure_doc seq ctx msg = JObj
     [(''seq'', JInt (ucast seq)), (''type'', JStr ''response''), (''request_seq'', JInt (rc_sequence ctx)),
      (''success'', JBool False), (''command'', JStr (rc_command ctx)), (''message'', JStr msg)]"

text \<open>A response takes the handler of its request out of the map and calls it.\<close>

definition taken :: "int64 \<Rightarrow> ('r, 'w, 'h) Session \<Rightarrow> ('r, 'w, 'h) Session" where
  "taken k s = s\<lparr>se_handlers := (se_handlers s)\<lparr>eh_responseMap := (eh_responseMap (se_handlers s))(k := None)\<rparr>\<rparr>"

lemmas message_defs = message_fields_def request_message_def event_message_def success_message_def failure_message_def
lemmas doc_defs = request_doc_def event_doc_def success_doc_def failure_doc_def

context session_json
begin

lemma request_builds:
  assumes "str_ok (TypeInfo_name (js_env J) T)" "ok (js_env J) T v" "json_of (js_env J) T v = Some X"
  shows "\<exists>j. message_object J (request_message (js_env J) seq T v) = (True, j) \<and> repr j (request_doc (js_env J) seq T X)"
  using message_object_builds [of "request_message (js_env J) seq T v"] assms words_ok
  by (simp add: message_defs request_doc_def upt_rec)

lemma event_builds:
  assumes "str_ok (TypeInfo_name (js_env J) T)" "ok (js_env J) T v" "json_of (js_env J) T v = Some X"
  shows "\<exists>j. message_object J (event_message (js_env J) seq T v) = (True, j) \<and> repr j (event_doc (js_env J) seq T X)"
  using message_object_builds [of "event_message (js_env J) seq T v"] assms words_ok
  by (simp add: message_defs event_doc_def upt_rec)

lemma success_builds:
  assumes "str_ok (rc_command ctx)" "ok (js_env J) T v" "json_of (js_env J) T v = Some X"
  shows "\<exists>j. message_object J (success_message seq ctx T v) = (True, j) \<and> repr j (success_doc seq ctx X)"
  using message_object_builds [of "success_message seq ctx T v"] assms words_ok
  by (simp add: message_defs success_doc_def upt_rec)

lemma failure_builds:
  assumes "str_ok (rc_command ctx)" "str_ok msg"
  shows "\<exists>j. message_object J (failure_message seq ctx msg) = (True, j) \<and> repr j (failure_doc seq ctx msg)"
  using message_object_builds [of "failure_message seq ctx msg"] assms words_ok
  by (simp add: message_defs failure_doc_def upt_rec)

subsection \<open>Processing the four kinds of message\<close>

lemma request_processed:
  assumes "js_parse J t = Some i" "repr i (request_doc (js_env J) seq T X)"
    and "wf_env (js_env J)" "type_ok (js_env J) T" "ok (js_env J) T v" "json_of (js_env J) T v = Some X"
    and "str_ok (TypeInfo_name (js_env J) T)" "handlers_request s (TypeInfo_name (js_env J) T) = Some (T, h)"
  shows "\<exists>v'. processMessage J t s = Some (Some (RequestPayload h v'
      \<lparr>rc_sequence = scast seq, rc_command = TypeInfo_name (js_env J) T\<rparr>), s) \<and> norm v' = norm v"
proof -
  note r = assms(2) [unfolded request_doc_def]
  have f: "field_string J i ''type'' = Some ''request''" "field_integer J i ''seq'' = Some (scast seq)"
      "field_string J i ''command'' = Some (TypeInfo_name (js_env J) T)"
    using field_string_reads [OF r] field_integer_reads [OF r] words_ok assms(7) by simp_all
  obtain v' where "field_callback J i ''arguments'' T (construct J T) = Some (Some True, v')" "norm v' = norm v"
    using field_callback_reads [OF r _ _ _ assms(3-6), of "''arguments''"] words_ok by auto
  with f assms(1,8) show ?thesis by (auto simp: processMessage_def processRequest_def)
qed

lemma event_processed:
  assumes "js_parse J t = Some i" "repr i (event_doc (js_env J) seq T X)"
    and "wf_env (js_env J)" "type_ok (js_env J) T" "ok (js_env J) T v" "json_of (js_env J) T v = Some X"
    and "str_ok (TypeInfo_name (js_env J) T)" "handlers_event s (TypeInfo_name (js_env J) T) = Some (T, h)"
  shows "\<exists>v'. processMessage J t s = Some (Some (EventPayload h v'), s) \<and> norm v' = norm v"
proof -
  note r = assms(2) [unfolded event_doc_def]
  have f: "field_string J i ''type'' = Some ''event''" "field_integer J i ''seq'' = Some (ucast seq)"
      "field_string J i ''event'' = Some (TypeInfo_name (js_env J) T)"
    using field_string_reads [OF r] field_integer_reads [OF r] words_ok assms(7) by simp_all
  obtain v' where "field_callback J i ''body'' T (construct J T) = Some (Some True, v')" "norm v' = norm v"
    using field_callback_reads [OF r _ _ _ assms(3-6), of "''body''"] words_ok by auto
  with f assms(1,8) show ?thesis by (auto simp: processMessage_def processEvent_def)
qed

lemma success_processed:
  assumes "js_parse J t = Some i" "repr i (success_doc seq ctx X)"
    and "wf_env (js_env J)" "type_ok (js_env J) T" "ok (js_env J) T v" "json_of (js_env J) T v = Some X"
    and "eh_responseMap (se_handlers s) (rc_sequence ctx) = Some (T, h)"
  shows "\<exists>v'. processMessage J t s = Some (None, called (ResponseCall h (Inl v')) (taken (rc_sequence ctx) s))
    \<and> norm v' = norm v"
proof -
  note r = assms(2) [unfolded success_doc_def]
  have f: "field_string J i ''type'' = Some ''response''" "field_integer J i ''seq'' = Some (ucast seq)"
      "field_integer J i ''request_seq'' = Some (rc_sequence ctx)" "field_boolean J i ''success'' = Some True"
    using field_string_reads [OF r] field_integer_reads [OF r] field_boolean_reads [OF r] words_ok by simp_all
  obtain v' where "field_callback J i ''body'' T (construct J T) = Some (Some True, v')" "norm v' = norm v"
    using field_callback_reads [OF r _ _ _ assms(3-6), of "''body''"] words_ok by auto
  with f assms(1,7) show ?thesis
    by (auto simp: processMessage_def processResponse_def handlers_response_def taken_def Let_def)
qed

lemma failure_processed:
  assumes "js_parse J t = Some i" "repr i (failure_doc seq ctx msg)" "str_ok msg"
    and "eh_responseMap (se_handlers s) (rc_sequence ctx) = Some (T, h)"
  shows "processMessage J t s
    = Some (None, called (ResponseCall h (Inr (Error_format (c_str msg)))) (taken (rc_sequence ctx) s))"
proof -
  note r = assms(2) [unfolded failure_doc_def]
  have "field_string J i ''type'' = Some ''response''" "field_integer J i ''seq'' = Some (ucast seq)"
      "field_integer J i ''request_seq'' = Some (rc_sequence ctx)" "field_boolean J i ''success'' = Some False"
      "field_string J i ''message'' = Some msg"
    using field_string_reads [OF r] field_integer_reads [OF r] field_boolean_reads [OF r] words_ok assms(3)
    by simp_all
  with assms(1,4) show ?thesis
    by (simp add: processMessage_def processResponse_def handlers_response_def taken_def Let_def)
qed

end

end
