(* ===== verification/Endpoints.thy ===== *)
theory Endpoints
  imports JsonText
begin

section \<open>Two endpoints\<close>

text \<open>
  Two sessions connected by two devices: what the one writes the other reads. A device is shared by a
  content writer in the one session and a content reader in the other, so a step of the one session is
  followed by an update of the other's view of the device.
\<close>

definition reader_follows :: "('r, 'd, 'h) Session \<Rightarrow> ('d, 'w, 'g) Session \<Rightarrow> ('d, 'w, 'g) Session" where
  "reader_follows A B = B\<lparr>se_reader := (se_reader B)\<lparr>cr_reader := se_writer A\<rparr>\<rparr>"

definition writer_follows :: "('d, 'w, 'h) Session \<Rightarrow> ('r, 'd, 'g) Session \<Rightarrow> ('r, 'd, 'g) Session" where
  "writer_follows B A = A\<lparr>se_writer := cr_reader (se_reader B)\<rparr>"

text \<open>
  \<open>exchange\<close> is one request from \<open>A\<close> to \<open>B\<close> and its response: \<^verbatim>\<open>A->send(request)\<close>, \<open>B\<close> receives and
  dispatches the message, its handler returns \<open>res\<close>, and \<open>A\<close> receives the response.
\<close>

definition exchange ::
  "'d Reader \<Rightarrow> 'd Writer \<Rightarrow> 'j json_setup \<Rightarrow> dap_type \<Rightarrow> dap_type \<Rightarrow> val \<Rightarrow> 'h \<Rightarrow> ResponseOrError
     \<Rightarrow> ('d, 'd, 'h) Session \<Rightarrow> ('d, 'd, 'h) Session \<Rightarrow> (('d, 'd, 'h) Session \<times> ('d, 'd, 'h) Session) option" where
  "exchange R W J T U v g res A B = do {
     A \<leftarrow> send_template W J T U v g A;
     (p, B) \<leftarrow> getPayload R J (reader_follows A B);
     let A = writer_follows B A;
     case p of
       Some (RequestPayload h data ctx) \<Rightarrow> do {
         B \<leftarrow> handle_request W J ctx U res (run_payload (RequestPayload h data ctx) B);
         (_, A) \<leftarrow> getPayload R J (reader_follows B A);
         Some (A, writer_follows A B) }
     | _ \<Rightarrow> Some (A, B) }"

text \<open>The client once it has drawn a number and registered the response handler, and the context of its request.\<close>

definition expecting :: "dap_type \<Rightarrow> 'h \<Rightarrow> ('r, 'w, 'h) Session \<Rightarrow> ('r, 'w, 'h) Session" where
  "expecting U g A = handlers_put_response (se_nextSeq A) U g (drawn A)"

definition context_of :: "env \<Rightarrow> dap_type \<Rightarrow> ('r, 'w, 'h) Session \<Rightarrow> request_context" where
  "context_of E T A = \<lparr>rc_sequence = scast (se_nextSeq A), rc_command = TypeInfo_name E T\<rparr>"

text \<open>Both sessions are bound to open devices, each reads what the other writes, and nothing is on its way.\<close>

definition connected ::
  "'d Reader \<Rightarrow> ('d \<Rightarrow> bytes) \<Rightarrow> ('d \<Rightarrow> bool) \<Rightarrow> ('d, 'd, 'g) Session \<Rightarrow> ('d, 'd, 'h) Session \<Rightarrow> bool" where
  "connected R contents invar A B \<longleftrightarrow>
     reader_at R contents invar True (cr_on_invalid_data (se_reader A)) [] (se_reader A)
     \<and> reader_at R contents invar True (cr_on_invalid_data (se_reader B)) [] (se_reader B)
     \<and> se_writer A = cr_reader (se_reader B) \<and> se_writer B = cr_reader (se_reader A)"

definition sent_calls :: "('r, 'w, 'h) Session \<Rightarrow> dap_type \<Rightarrow> val + string \<Rightarrow> 'h call list" where
  "sent_calls B U r = (case handlers_responseSent B U of None \<Rightarrow> [] | Some k \<Rightarrow> [SentCall k r])"

lemma response_sent_simps [simp]:
  "se_reader (response_sent U r B) = se_reader B"
  "se_calls (response_sent U r B) = se_calls B @ sent_calls B U r"
  by (simp_all add: response_sent_def sent_calls_def split: option.splits)

lemma sent_calls_cong: "se_handlers B = se_handlers B' \<Longrightarrow> sent_calls B U r = sent_calls B' U r"
  by (simp add: sent_calls_def handlers_responseSent_def)

lemma taken_simps [simp]:
  "se_calls (taken k s) = se_calls s" "se_reader (taken k s) = se_reader s" "se_writer (taken k s) = se_writer s"
  "eh_responseMap (se_handlers (taken k s)) = (eh_responseMap (se_handlers s))(k := None)"
  by (simp_all add: taken_def)

lemma drawn_simps [simp]:
  "se_writer (drawn s) = se_writer s" "se_reader (drawn s) = se_reader s" "se_handlers (drawn s) = se_handlers s"
  "se_calls (drawn s) = se_calls s" "se_nextSeq (drawn s) = se_nextSeq s + 1"
  by (simp_all add: drawn_def)

lemma expecting_simps [simp]:
  "se_writer (expecting U g A) = se_writer A" "se_reader (expecting U g A) = se_reader A"
  by (simp_all add: expecting_def handlers_put_response_def Let_def split: option.splits)

lemma expecting_fresh:
  assumes "eh_responseMap (se_handlers A) (scast (se_nextSeq A)) = None"
  shows "eh_responseMap (se_handlers (expecting U g A))
      = (eh_responseMap (se_handlers A))(scast (se_nextSeq A) \<mapsto> (U, g))"
    and "se_calls (expecting U g A) = se_calls A"
  using assms by (simp_all add: expecting_def handlers_put_response_def Let_def)

lemma reader_follows_sent: "reader_follows (response_sent U r B) A = reader_follows B A"
  by (simp add: reader_follows_def response_sent_def split: option.splits)

locale session_link = session_json J repr str_ok any_int carried + loopback R contents invar W
  for J :: "'j json_setup" and repr :: "'j \<Rightarrow> json \<Rightarrow> bool" and str_ok any_int carried
    and R :: "'d Reader" and contents invar and W :: "'d Writer"
begin

abbreviation listens :: "bytes \<Rightarrow> ('d, 'w, 'g) Session \<Rightarrow> bool" where
  "listens p B \<equiv> at True (cr_on_invalid_data (se_reader B)) p (se_reader B)"

lemma send_string_arrives:
  assumes "listens p B" and "se_writer A = cr_reader (se_reader B)" and "message_ok t"
  shows "\<exists>w. send_string W t A = Some (True, A\<lparr>se_writer := w\<rparr>)
    \<and> listens (p @ frame t) (reader_follows (A\<lparr>se_writer := w\<rparr>) B)"
proof -
  obtain d where d: "cr_reader (se_reader B) = Some d" "fst (r_isOpen R d)"
    using assms(1) by (auto simp: reader_at_def)
  then have "ContentWriter_isOpen W (se_writer A) = (True, se_writer A)"
    using assms(2) writer_isOpen by (simp add: ContentWriter_isOpen_def)
  moreover obtain d' where "ContentWriter_write W (cr_reader (se_reader B)) t = Some (True, Some d')"
      "at True (cr_on_invalid_data (se_reader B)) (p @ frame t) ((se_reader B)\<lparr>cr_reader := Some d'\<rparr>)"
    using write_message [OF assms(1,3) TrueI TrueI] by blast
  ultimately show ?thesis
    using assms(2) by (intro exI [of _ "Some d'"]) (simp add: send_string_def reader_follows_def)
qed

lemma getPayload_message:
  assumes "listens (frame t @ p) B" and "message_ok t"
  shows "\<exists>cr. getPayload R J B = processMessage J t (B\<lparr>se_reader := cr\<rparr>) \<and> listens p (B\<lparr>se_reader := cr\<rparr>)"
proof -
  obtain cr where "ContentReader_read R (se_reader B) = Some (t, cr)" "at True (cr_on_invalid_data (se_reader B)) p cr"
    using read_message [OF assms] by blast
  moreover from this(2) have "cr_on_invalid_data cr = cr_on_invalid_data (se_reader B)" by (simp add: reader_at_def)
  ultimately show ?thesis
    using assms(2) by (intro exI [of _ cr]) (simp add: getPayload_def message_ok_def)
qed

text \<open>A document that one session sends is the document that the other processes.\<close>

lemma message_arrives:
  assumes "listens [] B" and "se_writer A = cr_reader (se_reader B)"
    and "repr j X" and "carried X"
  shows "\<exists>t i w cr. js_dump J j = Some t \<and> send_string W t A = Some (True, A\<lparr>se_writer := w\<rparr>)
    \<and> js_parse J t = Some i \<and> repr i X
    \<and> getPayload R J (reader_follows (A\<lparr>se_writer := w\<rparr>) B) = processMessage J t (B\<lparr>se_reader := cr\<rparr>)
    \<and> listens [] (B\<lparr>se_reader := cr\<rparr>)"
proof -
  obtain t i where t: "js_dump J j = Some t" "message_ok t" "js_parse J t = Some i" "repr i X"
    using dump_parse [OF assms(3,4)] by blast
  obtain w where w: "send_string W t A = Some (True, A\<lparr>se_writer := w\<rparr>)"
      "listens (frame t @ []) (reader_follows (A\<lparr>se_writer := w\<rparr>) B)"
    using send_string_arrives [OF assms(1,2) t(2)] by auto
  have "(reader_follows (A\<lparr>se_writer := w\<rparr>) B)\<lparr>se_reader := cr\<rparr> = B\<lparr>se_reader := cr\<rparr>" for cr
    by (simp add: reader_follows_def)
  with getPayload_message [OF w(2) t(2)] t w show ?thesis by fastforce
qed

lemma request_arrives:
  assumes "listens [] B" "se_writer A = cr_reader (se_reader B)"
    and "wf_env (js_env J)" "type_ok (js_env J) T" "ok (js_env J) T v" "json_of (js_env J) T v = Some X"
    and "str_ok (TypeInfo_name (js_env J) T)" "carried (request_doc (js_env J) (se_nextSeq A) T X)"
    and "handlers_request B (TypeInfo_name (js_env J) T) = Some (T, h)"
  shows "\<exists>w cr v'. send_request W J T U v g A = Some (True, (expecting U g A)\<lparr>se_writer := w\<rparr>)
    \<and> getPayload R J (reader_follows ((expecting U g A)\<lparr>se_writer := w\<rparr>) B)
        = Some (Some (RequestPayload h v' (context_of (js_env J) T A)), B\<lparr>se_reader := cr\<rparr>)
    \<and> listens [] (B\<lparr>se_reader := cr\<rparr>) \<and> norm v' = norm v"
proof -
  let ?A = "expecting U g A"
  have wr: "se_writer ?A = cr_reader (se_reader B)" using assms(2) by simp
  obtain j where j: "message_object J (request_message (js_env J) (se_nextSeq A) T v) = (True, j)"
      "repr j (request_doc (js_env J) (se_nextSeq A) T X)"
    using request_builds [OF assms(7,5,6)] by blast
  obtain t i w cr where t: "js_dump J j = Some t" "send_string W t ?A = Some (True, ?A\<lparr>se_writer := w\<rparr>)"
      "js_parse J t = Some i" "repr i (request_doc (js_env J) (se_nextSeq A) T X)"
      "getPayload R J (reader_follows (?A\<lparr>se_writer := w\<rparr>) B) = processMessage J t (B\<lparr>se_reader := cr\<rparr>)"
      "listens [] (B\<lparr>se_reader := cr\<rparr>)"
    using message_arrives [OF assms(1) wr j(2) assms(8)] by blast
  have "handlers_request (B\<lparr>se_reader := cr\<rparr>) (TypeInfo_name (js_env J) T) = Some (T, h)"
    using assms(9) by (simp add: handlers_request_def)
  from request_processed [OF t(3,4) assms(3-7) this] obtain v' where v': "processMessage J t (B\<lparr>se_reader := cr\<rparr>)
      = Some (Some (RequestPayload h v' (context_of (js_env J) T A)), B\<lparr>se_reader := cr\<rparr>)" "norm v' = norm v"
    by (auto simp: context_of_def)
  have "send_request W J T U v g A = Some (True, ?A\<lparr>se_writer := w\<rparr>)"
    using t(1,2) j(1) by (simp add: send_request_def expecting_def drawn_def Let_def)
  then show ?thesis
    using t(5,6) v' by (intro exI [of _ w] exI [of _ cr] exI [of _ v']) simp
qed

lemma event_arrives:
  assumes "listens [] B" "se_writer A = cr_reader (se_reader B)"
    and "wf_env (js_env J)" "type_ok (js_env J) T" "ok (js_env J) T v" "json_of (js_env J) T v = Some X"
    and "str_ok (TypeInfo_name (js_env J) T)" "carried (event_doc (js_env J) (se_nextSeq A) T X)"
    and "handlers_event B (TypeInfo_name (js_env J) T) = Some (T, h)"
  shows "\<exists>w cr v'. send_event W J T v A = Some (True, (drawn A)\<lparr>se_writer := w\<rparr>)
    \<and> getPayload R J (reader_follows ((drawn A)\<lparr>se_writer := w\<rparr>) B)
        = Some (Some (EventPayload h v'), B\<lparr>se_reader := cr\<rparr>)
    \<and> listens [] (B\<lparr>se_reader := cr\<rparr>) \<and> norm v' = norm v"
proof -
  have wr: "se_writer (drawn A) = cr_reader (se_reader B)" using assms(2) by simp
  obtain j where j: "message_object J (event_message (js_env J) (se_nextSeq A) T v) = (True, j)"
      "repr j (event_doc (js_env J) (se_nextSeq A) T X)"
    using event_builds [OF assms(7,5,6)] by blast
  obtain t i w cr where t: "js_dump J j = Some t" "send_string W t (drawn A) = Some (True, (drawn A)\<lparr>se_writer := w\<rparr>)"
      "js_parse J t = Some i" "repr i (event_doc (js_env J) (se_nextSeq A) T X)"
      "getPayload R J (reader_follows ((drawn A)\<lparr>se_writer := w\<rparr>) B) = processMessage J t (B\<lparr>se_reader := cr\<rparr>)"
      "listens [] (B\<lparr>se_reader := cr\<rparr>)"
    using message_arrives [OF assms(1) wr j(2) assms(8)] by blast
  have "handlers_event (B\<lparr>se_reader := cr\<rparr>) (TypeInfo_name (js_env J) T) = Some (T, h)"
    using assms(9) by (simp add: handlers_event_def)
  from event_processed [OF t(3,4) assms(3-7) this] obtain v' where v': "processMessage J t (B\<lparr>se_reader := cr\<rparr>) = Some (Some (EventPayload h v'), B\<lparr>se_reader := cr\<rparr>)"
      "norm v' = norm v"
    by auto
  have "send_event W J T v A = Some (True, (drawn A)\<lparr>se_writer := w\<rparr>)"
    using t(1,2) j(1) by (simp add: send_event_def drawn_def)
  then show ?thesis
    using t(5,6) v' by (intro exI [of _ w] exI [of _ cr] exI [of _ v']) simp
qed

lemma success_arrives:
  assumes "listens [] A" "se_writer B = cr_reader (se_reader A)"
    and "wf_env (js_env J)" "type_ok (js_env J) U" "ok (js_env J) U r" "json_of (js_env J) U r = Some X"
    and "str_ok (rc_command ctx)" "carried (success_doc (se_nextSeq B) ctx X)"
    and "eh_responseMap (se_handlers A) (rc_sequence ctx) = Some (U, g)"
  shows "\<exists>w cr r'. onSuccess W J ctx U r B = Some (response_sent U (Inl r) ((drawn B)\<lparr>se_writer := w\<rparr>))
    \<and> getPayload R J (reader_follows (response_sent U (Inl r) ((drawn B)\<lparr>se_writer := w\<rparr>)) A)
        = Some (None, called (ResponseCall g (Inl r')) (taken (rc_sequence ctx) (A\<lparr>se_reader := cr\<rparr>)))
    \<and> listens [] (A\<lparr>se_reader := cr\<rparr>) \<and> norm r' = norm r"
proof -
  have wr: "se_writer (drawn B) = cr_reader (se_reader A)" using assms(2) by simp
  obtain j where j: "message_object J (success_message (se_nextSeq B) ctx U r) = (True, j)"
      "repr j (success_doc (se_nextSeq B) ctx X)"
    using success_builds [OF assms(7,5,6)] by blast
  obtain t i w cr where t: "js_dump J j = Some t" "send_string W t (drawn B) = Some (True, (drawn B)\<lparr>se_writer := w\<rparr>)"
      "js_parse J t = Some i" "repr i (success_doc (se_nextSeq B) ctx X)"
      "getPayload R J (reader_follows ((drawn B)\<lparr>se_writer := w\<rparr>) A) = processMessage J t (A\<lparr>se_reader := cr\<rparr>)"
      "listens [] (A\<lparr>se_reader := cr\<rparr>)"
    using message_arrives [OF assms(1) wr j(2) assms(8)] by blast
  have "eh_responseMap (se_handlers (A\<lparr>se_reader := cr\<rparr>)) (rc_sequence ctx) = Some (U, g)" using assms(9) by simp
  from success_processed [OF t(3,4) assms(3-6) this] obtain r' where r': "processMessage J t (A\<lparr>se_reader := cr\<rparr>)
      = Some (None, called (ResponseCall g (Inl r')) (taken (rc_sequence ctx) (A\<lparr>se_reader := cr\<rparr>)))" "norm r' = norm r"
    by blast
  have "onSuccess W J ctx U r B = Some (response_sent U (Inl r) ((drawn B)\<lparr>se_writer := w\<rparr>))"
    using t(1,2) j(1) by (simp add: onSuccess_def drawn_def)
  then show ?thesis
    using t(5,6) r' by (intro exI [of _ w] exI [of _ cr] exI [of _ r']) (simp add: reader_follows_sent)
qed

lemma failure_arrives:
  assumes "listens [] A" "se_writer B = cr_reader (se_reader A)" "str_ok msg"
    and "str_ok (rc_command ctx)" "carried (failure_doc (se_nextSeq B) ctx msg)"
    and "eh_responseMap (se_handlers A) (rc_sequence ctx) = Some (U, g)"
  shows "\<exists>w cr. onError W J ctx U msg B = Some (response_sent U (Inr msg) ((drawn B)\<lparr>se_writer := w\<rparr>))
    \<and> getPayload R J (reader_follows (response_sent U (Inr msg) ((drawn B)\<lparr>se_writer := w\<rparr>)) A)
        = Some (None, called (ResponseCall g (Inr (Error_format (c_str msg)))) (taken (rc_sequence ctx) (A\<lparr>se_reader := cr\<rparr>)))
    \<and> listens [] (A\<lparr>se_reader := cr\<rparr>)"
proof -
  have wr: "se_writer (drawn B) = cr_reader (se_reader A)" using assms(2) by simp
  obtain j where j: "message_object J (failure_message (se_nextSeq B) ctx msg) = (True, j)"
      "repr j (failure_doc (se_nextSeq B) ctx msg)"
    using failure_builds [OF assms(4,3)] by blast
  obtain t i w cr where t: "js_dump J j = Some t" "send_string W t (drawn B) = Some (True, (drawn B)\<lparr>se_writer := w\<rparr>)"
      "js_parse J t = Some i" "repr i (failure_doc (se_nextSeq B) ctx msg)"
      "getPayload R J (reader_follows ((drawn B)\<lparr>se_writer := w\<rparr>) A) = processMessage J t (A\<lparr>se_reader := cr\<rparr>)"
      "listens [] (A\<lparr>se_reader := cr\<rparr>)"
    using message_arrives [OF assms(1) wr j(2) assms(5)] by blast
  have "eh_responseMap (se_handlers (A\<lparr>se_reader := cr\<rparr>)) (rc_sequence ctx) = Some (U, g)" using assms(6) by simp
  note r = failure_processed [OF t(3,4) assms(3) this]
  have "onError W J ctx U msg B = Some (response_sent U (Inr msg) ((drawn B)\<lparr>se_writer := w\<rparr>))"
    using t(1,2) j(1) by (simp add: onError_def drawn_def)
  then show ?thesis
    using t(5,6) r by (intro exI [of _ w] exI [of _ cr]) (simp add: reader_follows_sent)
qed

subsection \<open>A request and its response\<close>

text \<open>
  The exchange up to the reply, for every way of replying that reaches the client with a response that
  satisfies \<open>Q\<close>.
\<close>

lemma exchange_reply:
  fixes A B :: "('d, 'd, 'h) Session"
  assumes conn: "connected R contents invar A B"
    and req: "wf_env (js_env J)" "type_ok (js_env J) T" "ok (js_env J) T v" "json_of (js_env J) T v = Some X"
      "str_ok (TypeInfo_name (js_env J) T)" "carried (request_doc (js_env J) (se_nextSeq A) T X)"
      "handlers_request B (TypeInfo_name (js_env J) T) = Some (T, h)"
    and fresh: "eh_responseMap (se_handlers A) (scast (se_nextSeq A)) = None"
    and ctx: "ctx = context_of (js_env J) T A"
    and reply: "\<And>(A1 :: ('d, 'd, 'h) Session) (B1 :: ('d, 'd, 'h) Session). listens [] A1 \<Longrightarrow> se_writer B1 = cr_reader (se_reader A1) \<Longrightarrow> se_nextSeq B1 = se_nextSeq B \<Longrightarrow>
      eh_responseMap (se_handlers A1) (rc_sequence ctx) = Some (U, g) \<Longrightarrow>
      \<exists>w cr q. handle_request W J ctx U res B1 = Some (response_sent U sent ((drawn B1)\<lparr>se_writer := w\<rparr>))
        \<and> getPayload R J (reader_follows (response_sent U sent ((drawn B1)\<lparr>se_writer := w\<rparr>)) A1)
            = Some (None, called (ResponseCall g q) (taken (rc_sequence ctx) (A1\<lparr>se_reader := cr\<rparr>)))
        \<and> listens [] (A1\<lparr>se_reader := cr\<rparr>) \<and> Q q"
  shows "\<exists>A' B' v' q. exchange R W J T U v g res A B = Some (A', B')
    \<and> connected R contents invar A' B' \<and> norm v' = norm v \<and> Q q
    \<and> se_calls B' = se_calls B @ RequestCall h v' ctx # sent_calls B U sent
    \<and> se_calls A' = se_calls A @ [ResponseCall g q]
    \<and> eh_responseMap (se_handlers A') = eh_responseMap (se_handlers A)"
proof -
  have "listens [] B" "se_writer A = cr_reader (se_reader B)" using conn by (simp_all add: connected_def)
  from request_arrives [OF this req, of U g] obtain w cr v' where
    s: "send_request W J T U v g A = Some (True, (expecting U g A)\<lparr>se_writer := w\<rparr>)"
      "getPayload R J (reader_follows ((expecting U g A)\<lparr>se_writer := w\<rparr>) B)
        = Some (Some (RequestPayload h v' ctx), B\<lparr>se_reader := cr\<rparr>)"
      "listens [] (B\<lparr>se_reader := cr\<rparr>)" "norm v' = norm v"
    unfolding ctx by blast
  let ?B = "called (RequestCall h v' ctx) (B\<lparr>se_reader := cr\<rparr>)"
    and ?A = "(expecting U g A)\<lparr>se_writer := cr_reader cr\<rparr>"
  have "listens [] ?A" "se_writer ?B = cr_reader (se_reader ?A)" "se_nextSeq ?B = se_nextSeq B"
      "eh_responseMap (se_handlers ?A) (rc_sequence ctx) = Some (U, g)"
    using conn expecting_fresh(1) [OF fresh] ctx by (simp_all add: connected_def context_of_def)
  from reply [OF this] obtain w' cr' q where
    r: "handle_request W J ctx U res ?B = Some (response_sent U sent ((drawn ?B)\<lparr>se_writer := w'\<rparr>))"
      "getPayload R J (reader_follows (response_sent U sent ((drawn ?B)\<lparr>se_writer := w'\<rparr>)) ?A)
        = Some (None, called (ResponseCall g q) (taken (rc_sequence ctx) (?A\<lparr>se_reader := cr'\<rparr>)))"
      "listens [] (?A\<lparr>se_reader := cr'\<rparr>)" "Q q"
    by blast
  let ?A' = "called (ResponseCall g q) (taken (rc_sequence ctx) (?A\<lparr>se_reader := cr'\<rparr>))"
    and ?B' = "response_sent U sent ((drawn ?B)\<lparr>se_writer := w'\<rparr>)"
  have "exchange R W J T U v g res A B = Some (?A', writer_follows ?A' ?B')"
    using s(1,2) r(1,2) by (simp add: exchange_def send_template_def run_payload_def writer_follows_def)
  moreover have "connected R contents invar ?A' (writer_follows ?A' ?B')"
    using s(3) r(3) by (simp add: connected_def writer_follows_def)
  moreover have "se_calls (writer_follows ?A' ?B') = se_calls B @ RequestCall h v' ctx # sent_calls B U sent"
    using sent_calls_cong [of B "(drawn ?B)\<lparr>se_writer := w'\<rparr>"] by (simp add: writer_follows_def)
  moreover have "se_calls ?A' = se_calls A @ [ResponseCall g q]"
    using expecting_fresh(2) [OF fresh] by simp
  moreover have "eh_responseMap (se_handlers ?A') = eh_responseMap (se_handlers A)"
    using expecting_fresh(1) [OF fresh] fresh ctx by (simp add: context_of_def fun_upd_idem)
  ultimately show ?thesis using s(4) r(4) by blast
qed

lemma exchange_succeeds:
  fixes A B :: "('d, 'd, 'h) Session"
  assumes conn: "connected R contents invar A B"
    and req: "wf_env (js_env J)" "type_ok (js_env J) T" "ok (js_env J) T v" "json_of (js_env J) T v = Some X"
      "str_ok (TypeInfo_name (js_env J) T)" "carried (request_doc (js_env J) (se_nextSeq A) T X)"
      "handlers_request B (TypeInfo_name (js_env J) T) = Some (T, h)"
    and fresh: "eh_responseMap (se_handlers A) (scast (se_nextSeq A)) = None"
    and resp: "type_ok (js_env J) U" "ok (js_env J) U r" "json_of (js_env J) U r = Some Y"
      "carried (success_doc (se_nextSeq B) (context_of (js_env J) T A) Y)"
  shows "\<exists>A' B' v' q. exchange R W J T U v g (of_response r) A B = Some (A', B')
    \<and> connected R contents invar A' B' \<and> norm v' = norm v \<and> (\<exists>r'. q = Inl r' \<and> norm r' = norm r)
    \<and> se_calls B' = se_calls B @ RequestCall h v' (context_of (js_env J) T A) # sent_calls B U (Inl r)
    \<and> se_calls A' = se_calls A @ [ResponseCall g q]
    \<and> eh_responseMap (se_handlers A') = eh_responseMap (se_handlers A)"
proof (rule exchange_reply [OF conn req fresh refl])
  fix A1 B1 :: "('d, 'd, 'h) Session"
  let ?ctx = "context_of (js_env J) T A"
  assume a: "listens [] A1" "se_writer B1 = cr_reader (se_reader A1)" and seq: "se_nextSeq B1 = se_nextSeq B"
    and g: "eh_responseMap (se_handlers A1) (rc_sequence ?ctx) = Some (U, g)"
  have c: "str_ok (rc_command ?ctx)" "carried (success_doc (se_nextSeq B1) ?ctx Y)"
    using req(5) resp(4) seq by (simp_all add: context_of_def)
  have "handle_request W J ?ctx U (of_response r) B1 = onSuccess W J ?ctx U r B1"
    by (simp add: handle_request_def of_response_def is_error_def)
  then show "\<exists>w cr q. handle_request W J ?ctx U (of_response r) B1 = Some (response_sent U (Inl r) ((drawn B1)\<lparr>se_writer := w\<rparr>))
      \<and> getPayload R J (reader_follows (response_sent U (Inl r) ((drawn B1)\<lparr>se_writer := w\<rparr>)) A1)
          = Some (None, called (ResponseCall g q) (taken (rc_sequence ?ctx) (A1\<lparr>se_reader := cr\<rparr>)))
      \<and> listens [] (A1\<lparr>se_reader := cr\<rparr>) \<and> (\<exists>r'. q = Inl r' \<and> norm r' = norm r)"
    using success_arrives [OF a req(1) resp(1-3) c g] by metis
qed

lemma exchange_fails:
  fixes A B :: "('d, 'd, 'h) Session"
  assumes conn: "connected R contents invar A B"
    and req: "wf_env (js_env J)" "type_ok (js_env J) T" "ok (js_env J) T v" "json_of (js_env J) T v = Some X"
      "str_ok (TypeInfo_name (js_env J) T)" "carried (request_doc (js_env J) (se_nextSeq A) T X)"
      "handlers_request B (TypeInfo_name (js_env J) T) = Some (T, h)"
    and fresh: "eh_responseMap (se_handlers A) (scast (se_nextSeq A)) = None"
    and resp: "msg \<noteq> []" "str_ok msg" "carried (failure_doc (se_nextSeq B) (context_of (js_env J) T A) msg)"
  shows "\<exists>A' B' v' q. exchange R W J T U v g (of_error dflt msg) A B = Some (A', B')
    \<and> connected R contents invar A' B' \<and> norm v' = norm v \<and> q = Inr (Error_format (c_str msg))
    \<and> se_calls B' = se_calls B @ RequestCall h v' (context_of (js_env J) T A) # sent_calls B U (Inr msg)
    \<and> se_calls A' = se_calls A @ [ResponseCall g q]
    \<and> eh_responseMap (se_handlers A') = eh_responseMap (se_handlers A)"
proof (rule exchange_reply [OF conn req fresh refl])
  fix A1 B1 :: "('d, 'd, 'h) Session"
  let ?ctx = "context_of (js_env J) T A"
  assume a: "listens [] A1" "se_writer B1 = cr_reader (se_reader A1)" and seq: "se_nextSeq B1 = se_nextSeq B"
    and g: "eh_responseMap (se_handlers A1) (rc_sequence ?ctx) = Some (U, g)"
  have c: "str_ok (rc_command ?ctx)" "carried (failure_doc (se_nextSeq B1) ?ctx msg)"
    using req(5) resp(3) seq by (simp_all add: context_of_def)
  have "handle_request W J ?ctx U (of_error dflt msg) B1 = onError W J ?ctx U msg B1"
    using resp(1) by (simp add: handle_request_def of_error_def is_error_def)
  then show "\<exists>w cr q. handle_request W J ?ctx U (of_error dflt msg) B1 = Some (response_sent U (Inr msg) ((drawn B1)\<lparr>se_writer := w\<rparr>))
      \<and> getPayload R J (reader_follows (response_sent U (Inr msg) ((drawn B1)\<lparr>se_writer := w\<rparr>)) A1)
          = Some (None, called (ResponseCall g q) (taken (rc_sequence ?ctx) (A1\<lparr>se_reader := cr\<rparr>)))
      \<and> listens [] (A1\<lparr>se_reader := cr\<rparr>) \<and> q = Inr (Error_format (c_str msg))"
    using failure_arrives [OF a resp(2) c g] by metis
qed

end

end
