(* ===== verification/TextCodec.thy ===== *)
theory TextCodec
  imports RoundTrip
begin

section \<open>A text form of documents\<close>

text \<open>
  The JSON libraries are not part of the sources, and what the sessions rely on of their text forms is
  stated as hypotheses. Here is a text form for which the hypotheses hold: every value starts with a
  character for its kind, strings are preceded by their length, and arrays and objects end with an \<open>e\<close>.
\<close>

definition print_str :: "string \<Rightarrow> string" where
  "print_str s = to_string (length s) @ '':'' @ s"

fun print_json :: "json \<Rightarrow> string"
and print_elems :: "json list \<Rightarrow> string"
and print_members :: "(string \<times> json) list \<Rightarrow> string" where
  "print_json JNull = ''n''"
| "print_json (JBool b) = (if b then ''t'' else ''f'')"
| "print_json (JInt w) = ''i'' @ to_string (unat w) @ ''e''"
| "print_json (JNum w) = ''d'' @ to_string (unat w) @ ''e''"
| "print_json (JStr s) = ''s'' @ print_str s"
| "print_json (JArr js) = ''a'' @ print_elems js"
| "print_json (JObj m) = ''o'' @ print_members m"
| "print_elems [] = ''e''"
| "print_elems (j # js) = print_json j @ print_elems js"
| "print_members [] = ''e''"
| "print_members ((k, j) # m) = print_str k @ print_json j @ print_members m"

text \<open>A number and the character after it.\<close>

definition parse_nat :: "char \<Rightarrow> string \<Rightarrow> (nat \<times> string) option" where
  "parse_nat stop t =
     (case dropWhile is_digit t of
        [] \<Rightarrow> None
      | c # rest \<Rightarrow> if c = stop then Some (decimal (takeWhile is_digit t), rest) else None)"

definition parse_str :: "string \<Rightarrow> (string \<times> string) option" where
  "parse_str t =
     (case parse_nat (CHR '':'') t of
        None \<Rightarrow> None
      | Some (n, rest) \<Rightarrow> if n \<le> length rest then Some (take n rest, drop n rest) else None)"

fun parse_json :: "nat \<Rightarrow> string \<Rightarrow> (json \<times> string) option"
and parse_elems :: "nat \<Rightarrow> string \<Rightarrow> (json list \<times> string) option"
and parse_members :: "nat \<Rightarrow> string \<Rightarrow> ((string \<times> json) list \<times> string) option" where
  "parse_json 0 t = None"
| "parse_json (Suc f) t =
     (case t of
        [] \<Rightarrow> None
      | c # rest \<Rightarrow>
          if c = CHR ''n'' then Some (JNull, rest)
          else if c = CHR ''t'' then Some (JBool True, rest)
          else if c = CHR ''f'' then Some (JBool False, rest)
          else if c = CHR ''i'' then map_option (map_prod (\<lambda>n. JInt (of_nat n)) id) (parse_nat (CHR ''e'') rest)
          else if c = CHR ''d'' then map_option (map_prod (\<lambda>n. JNum (of_nat n)) id) (parse_nat (CHR ''e'') rest)
          else if c = CHR ''s'' then map_option (map_prod JStr id) (parse_str rest)
          else if c = CHR ''a'' then map_option (map_prod JArr id) (parse_elems f rest)
          else if c = CHR ''o'' then map_option (map_prod JObj id) (parse_members f rest)
          else None)"
| "parse_elems 0 t = None"
| "parse_elems (Suc f) t =
     (case t of
        [] \<Rightarrow> None
      | c # rest \<Rightarrow>
          if c = CHR ''e'' then Some ([], rest)
          else
            (case parse_json f t of
               None \<Rightarrow> None
             | Some (j, t') \<Rightarrow> map_option (map_prod ((#) j) id) (parse_elems f t')))"
| "parse_members 0 t = None"
| "parse_members (Suc f) t =
     (case t of
        [] \<Rightarrow> None
      | c # rest \<Rightarrow>
          if c = CHR ''e'' then Some ([], rest)
          else
            (case parse_str t of
               None \<Rightarrow> None
             | Some (k, t') \<Rightarrow>
                 (case parse_json f t' of
                    None \<Rightarrow> None
                  | Some (j, t'') \<Rightarrow> map_option (map_prod ((#) (k, j)) id) (parse_members f t''))))"

subsection \<open>Parsing a printed document\<close>

lemma parse_nat_print: "\<not> is_digit stop \<Longrightarrow> parse_nat stop (to_string n @ stop # rest) = Some (n, rest)"
proof -
  assume "\<not> is_digit stop"
  then have "takeWhile is_digit (to_string n @ stop # rest) = to_string n"
      "dropWhile is_digit (to_string n @ stop # rest) = stop # rest"
    using to_string_digits [of n] by (simp_all add: takeWhile_append2 dropWhile_append2)
  then show ?thesis by (simp add: parse_nat_def)
qed

lemma letters_no_digit [simp]: "\<not> is_digit (CHR ''e'')" "\<not> is_digit (CHR '':'')"
  by (simp_all add: is_digit_def)

lemma parse_str_print: "parse_str (print_str s @ rest) = Some (s, rest)"
  using parse_nat_print [of "CHR '':''" "length s" "s @ rest"] by (simp add: parse_str_def print_str_def)

lemma print_str_head: "\<exists>c cs. print_str s = c # cs \<and> c \<noteq> CHR ''e''"
proof -
  obtain c cs where c: "to_string (length s) = c # cs" using to_string_nonempty by (cases "to_string (length s)") auto
  then have "is_digit c" using to_string_digits [of "length s"] by simp
  with c show ?thesis by (auto simp: print_str_def)
qed

lemma print_json_head: "\<exists>c cs. print_json j = c # cs \<and> c \<noteq> CHR ''e''"
  by (cases j) auto

lemma print_json_nonempty [simp]: "print_json j \<noteq> []"
  using print_json_head [of j] by auto

lemma print_json_length: "Suc 0 \<le> length (print_json j)"
  by (simp add: Suc_le_eq)

lemma parse_print_aux:
  shows "\<And>f rest. length (print_json j) \<le> f \<Longrightarrow> parse_json f (print_json j @ rest) = Some (j, rest)"
    and "\<And>f rest. length (print_elems js) \<le> f \<Longrightarrow> parse_elems f (print_elems js @ rest) = Some (js, rest)"
    and "\<And>f rest. length (print_members m) \<le> f \<Longrightarrow> parse_members f (print_members m @ rest) = Some (m, rest)"
proof (induction j and js and m rule: print_json_print_elems_print_members.induct)
  case (3 w)
  then show ?case using parse_nat_print [of "CHR ''e''" "unat w" rest] by (cases f) auto
next
  case (4 w)
  then show ?case using parse_nat_print [of "CHR ''e''" "unat w" rest] by (cases f) auto
next
  case (5 s)
  then show ?case using parse_str_print [of s rest] by (cases f) auto
next
  case (9 j js)
  obtain c cs where c: "print_json j = c # cs" "c \<noteq> CHR ''e''" using print_json_head by blast
  obtain g where g: "f = Suc g" using 9(3) print_json_length [of j] by (cases f) auto
  have "Suc 0 \<le> length (print_elems js)" by (cases js) (auto simp: Suc_le_eq)
  then have "length (print_json j) \<le> g" "length (print_elems js) \<le> g" using 9(3) g print_json_length [of j] by auto
  from 9(1) [OF this(1), of "print_elems js @ rest"] 9(2) [OF this(2), of rest] c g show ?case by simp
next
  case (11 k j m)
  obtain c cs where c: "print_str k = c # cs" "c \<noteq> CHR ''e''" using print_str_head by blast
  obtain g where g: "f = Suc g" using 11(3) print_json_length [of j] by (cases f) auto
  have "length (print_json j) \<le> g" "length (print_members m) \<le> g" using 11(3) g c by auto
  from 11(1) [OF this(1), of "print_members m @ rest"] 11(2) [OF this(2), of rest]
    parse_str_print [of k "print_json j @ print_members m @ rest"] c g show ?case by simp
next
  case 1
  then show ?case by (cases f) simp_all
next
  case (2 b)
  then show ?case by (cases f; cases b) simp_all
next
  case (6 js)
  then show ?case by (cases f) simp_all
next
  case (7 m)
  then show ?case by (cases f) simp_all
next
  case 8
  then show ?case by (cases f) simp_all
next
  case 10
  then show ?case by (cases f) simp_all
qed

definition ref_parse :: "string \<Rightarrow> json" where
  "ref_parse t = (case parse_json (length t) t of Some (j, []) \<Rightarrow> j | _ \<Rightarrow> JNull)"

lemma ref_parse_print: "ref_parse (print_json j) = j"
  using parse_print_aux(1) [of j "length (print_json j)" "[]"] by (simp add: ref_parse_def)

end
