(* ===== verification/Sessions.thy ===== *)
theory Sessions
  imports Endpoints TextCodec
begin

section \<open>Properties of sessions\<close>

subsection \<open>Sessions over nlohmann/json\<close>

text \<open>
  The session compiled against the nlohmann back end. \<^verbatim>\<open>NlohmannDeserializer(str)\<close> parses without
  exceptions: a text that is no JSON gives the value \<^verbatim>\<open>discarded\<close>. \<^verbatim>\<open>dump()\<close> stops the program on
  strings that are not UTF-8.
\<close>

definition nlohmann_setup ::
  "env \<Rightarrow> 'j nlohmann \<Rightarrow> (string \<Rightarrow> 'j) \<Rightarrow> ('j \<Rightarrow> string option) \<Rightarrow> ('j \<Rightarrow> nat) \<Rightarrow> 'j json_setup" where
  "nlohmann_setup E N parse dump depth =
     \<lparr>js_env = E, js_in = NlohmannDeserializer N, js_out = NlohmannSerializer N,
      js_parse = (\<lambda>t. Some (parse t)), js_dump = dump, js_depth = depth\<rparr>"

locale nlohmann_text = nlohmann_lib N repr depth
  for N :: "'j nlohmann" and repr depth +
  fixes parse :: "string \<Rightarrow> 'j" and dump :: "'j \<Rightarrow> string option" and carried :: "json \<Rightarrow> bool"
  assumes dump_parses: "repr j X \<Longrightarrow> carried X \<Longrightarrow> \<exists>t. dump j = Some t \<and> message_ok t \<and> repr (parse t) X"
    and depth_enough: "repr j X \<Longrightarrow> jdepth X \<le> depth j"
begin

lemma session_json: "session_json (nlohmann_setup E N parse dump depth) repr (\<lambda>_. True) (\<lambda>_. True) carried"
proof (rule session_json.intro)
  show "json_backend (js_in (nlohmann_setup E N parse dump depth)) (js_out (nlohmann_setup E N parse dump depth))
      repr (\<lambda>_. True) (\<lambda>_. True)"
    using json_backend_axioms by (simp add: nlohmann_setup_def)
  show "session_json_axioms (nlohmann_setup E N parse dump depth) repr (\<lambda>_. True) carried"
    by unfold_locales (use dump_parses depth_enough in \<open>auto simp: nlohmann_setup_def\<close>)
qed

lemma pipe_link:
  "session_link (nlohmann_setup E N parse dump depth) repr (\<lambda>_. True) (\<lambda>_. True) carried
     Pipe_Reader pipe_contents (\<lambda>_. True) Pipe_Writer"
  by (intro session_link.intro session_json pipe.loopback_axioms)

end

text \<open>The hypotheses hold for the document and text forms of \<open>NlohmannJson\<close> and \<open>TextCodec\<close>.\<close>

definition ref_dump :: "json \<Rightarrow> string option" where
  "ref_dump j = Some (print_json j)"

definition ref_carried :: "json \<Rightarrow> bool" where
  "ref_carried j \<longleftrightarrow> length (print_json j) < 2 ^ 64"

interpretation ref_text: nlohmann_text ref_nlohmann "(=)" jdepth ref_parse ref_dump ref_carried
  by unfold_locales (simp_all add: ref_dump_def ref_carried_def ref_parse_print message_ok_def)

abbreviation ref_setup :: "env \<Rightarrow> json json_setup" where
  "ref_setup E \<equiv> nlohmann_setup E ref_nlohmann ref_parse ref_dump jdepth"

interpretation ref_link: session_link "ref_setup E" "(=)" "\<lambda>_. True" "\<lambda>_. True" ref_carried
  Pipe_Reader pipe_contents "\<lambda>_. True" Pipe_Writer for E
  by (rule ref_text.pipe_link)

subsection \<open>The sessions of \<^verbatim>\<open>session_test.cpp\<close>\<close>

text \<open>
  The structs that the repository's session tests declare, a request, its response and an event, and the
  two sessions of the test \<^verbatim>\<open>SingleThread\<close>: the inputs of the examples below. Handlers are numbers.
\<close>

definition test_members :: "member list" where
  "test_members = [mem ''b'' TBoolean, mem ''i'' TInteger, mem ''n'' TNumber, mem ''a'' (TArray TInteger),
     mem ''o'' TObject, mem ''s'' TString, mem ''o1'' (TOptional TInteger), mem ''o2'' (TOptional TInteger)]"

definition test_names :: "string \<Rightarrow> (string \<times> string) list" where
  "test_names pre = map (\<lambda>m. (m_name m, pre @ m_name m)) test_members"

definition session_env :: env where
  "session_env = \<lparr>e_decls =
     [\<lparr>sd_name = ''TestEvent'', sd_base = None, sd_members = test_members\<rparr>,
      \<lparr>sd_name = ''TestRequest'', sd_base = None, sd_members = test_members\<rparr>,
      \<lparr>sd_name = ''TestResponse'', sd_base = None, sd_members = test_members\<rparr>],
     e_infos =
     [\<lparr>ti_struct = ''TestResponse'', ti_name = ''test-response'', ti_base = None, ti_fields = test_names ''res_''\<rparr>,
      \<lparr>ti_struct = ''TestRequest'', ti_name = ''test-request'', ti_base = None, ti_fields = test_names ''req_''\<rparr>,
      \<lparr>ti_struct = ''TestEvent'', ti_name = ''test-event'', ti_base = None, ti_fields = test_names ''evt_''\<rparr>]\<rparr>"

abbreviation TestRequest :: dap_type where "TestRequest \<equiv> TStruct ''TestRequest''"
abbreviation TestResponse :: dap_type where "TestResponse \<equiv> TStruct ''TestResponse''"
abbreviation TestEvent :: dap_type where "TestEvent \<equiv> TStruct ''TestEvent''"

definition test_data :: val where
  "test_data = VStruct
     [VBoolean False, VInteger 72, VNumber 9, VArray [VInteger 2, VInteger 5],
      VObject [(''a'', VAny (Some (TInteger, VInteger 1))), (''b'', VAny (Some (TString, VString ''3'')))],
      VString ''request'', VOptional True (VInteger 42), VOptional False (VInteger 0)]"

type_synonym test_session = "(Pipe, Pipe, nat) Session"

definition client_ops :: "(Pipe, Pipe, nat) session_op list" where
  "client_ops = [OnError (Some 9), Connect Pipe_create Pipe_create]"

definition client :: test_session where
  "client = connect Pipe_create Pipe_create (handlers_put_error (Some 9) Session_create)"

definition server :: test_session where
  "server = connect Pipe_create Pipe_create
     (handlers_put_event session_env TestEvent 2 (handlers_put_request session_env TestRequest 1
       (handlers_put_error (Some 9) Session_create)))"

lemma client_run: "session_run Pipe_Reader Pipe_Writer J client_ops Session_create = Some client"
  by (simp add: client_ops_def client_def)

lemma test_env_facts:
  "wf_env session_env" "type_ok session_env TestRequest" "type_ok session_env TestResponse" "type_ok session_env TestEvent"
  by code_simp+

lemma test_data_portable:
  "portable (\<lambda>_. True) (\<lambda>_. True) session_env TestRequest test_data"
  "portable (\<lambda>_. True) (\<lambda>_. True) session_env TestResponse test_data"
  "portable (\<lambda>_. True) (\<lambda>_. True) session_env TestEvent test_data"
  by code_simp+

lemma test_names_eq:
  "TypeInfo_name session_env TestRequest = ''test-request''" "TypeInfo_name session_env TestEvent = ''test-event''"
  by code_simp+

lemma server_handlers:
  "handlers_request server (TypeInfo_name session_env TestRequest) = Some (TestRequest, 1)"
  "handlers_event server (TypeInfo_name session_env TestEvent) = Some (TestEvent, 2)"
  by (simp_all add: server_def connect_def handler_defs Session_create_def test_names_eq Let_def)

lemma test_connected: "connected Pipe_Reader pipe_contents (\<lambda>_. True) client server"
  using pipe_at_create [of kIgnore]
  by (simp add: connected_def client_def server_def connect_def handler_defs Session_create_def
      ContentReader_new_def Let_def)

lemma test_seq: "se_nextSeq client = 1" "se_nextSeq server = 1"
  by (simp_all add: client_def server_def connect_def handler_defs Session_create_def Let_def)

lemma ref_carried_short: "length (print_json X) < 400 \<Longrightarrow> ref_carried X"
  by (simp add: ref_carried_def)

lemma test_docs:
  "\<exists>X. json_of session_env TestRequest test_data = Some X \<and> ref_carried (request_doc session_env 1 TestRequest X)"
  "\<exists>X. json_of session_env TestResponse test_data = Some X
     \<and> ref_carried (success_doc 1 \<lparr>rc_sequence = 1, rc_command = ''test-request''\<rparr> X)"
  "\<exists>X. json_of session_env TestEvent test_data = Some X \<and> ref_carried (event_doc session_env 1 TestEvent X)"
proof -
  have "case json_of session_env TestRequest test_data of None \<Rightarrow> False
    | Some X \<Rightarrow> length (print_json (request_doc session_env 1 TestRequest X)) < 400" by code_simp
  then show "\<exists>X. json_of session_env TestRequest test_data = Some X
      \<and> ref_carried (request_doc session_env 1 TestRequest X)"
    by (auto intro: ref_carried_short split: option.splits)
  have "case json_of session_env TestResponse test_data of None \<Rightarrow> False
    | Some X \<Rightarrow> length (print_json (success_doc 1 \<lparr>rc_sequence = 1, rc_command = ''test-request''\<rparr> X)) < 400" by code_simp
  then show "\<exists>X. json_of session_env TestResponse test_data = Some X
      \<and> ref_carried (success_doc 1 \<lparr>rc_sequence = 1, rc_command = ''test-request''\<rparr> X)"
    by (auto intro: ref_carried_short split: option.splits)
  have "case json_of session_env TestEvent test_data of None \<Rightarrow> False
    | Some X \<Rightarrow> length (print_json (event_doc session_env 1 TestEvent X)) < 400" by code_simp
  then show "\<exists>X. json_of session_env TestEvent test_data = Some X
      \<and> ref_carried (event_doc session_env 1 TestEvent X)"
    by (auto intro: ref_carried_short split: option.splits)
qed

subsection \<open>Properties\<close>

lemma future_of_answer:
  "future_of dflt g (cs @ [ResponseCall g q]) = \<lparr>ps_val = result_of dflt q, ps_hasVal = True\<rparr>"
  by (simp add: promise_set_value_def)

lemma Error_format_c_str: "Error_format (c_str msg) = take 2047 (takeWhile (\<lambda>c. c \<noteq> NUL) msg)"
proof -
  have "takeWhile (\<lambda>c. c \<noteq> NUL) (take n (takeWhile (\<lambda>c. c \<noteq> NUL) msg)) = take n (takeWhile (\<lambda>c. c \<noteq> NUL) msg)" for n
  proof (rule takeWhile_eq_all_conv [THEN iffD2], rule ballI)
    fix c
    assume "c \<in> set (take n (takeWhile (\<lambda>c. c \<noteq> NUL) msg))"
    then have "c \<in> set (takeWhile (\<lambda>c. c \<noteq> NUL) msg)" by (rule in_set_takeD)
    then show "c \<noteq> NUL" using set_takeWhileD by fast
  qed
  then have "Error_format (c_str msg) = take (2048 - 1) (takeWhile (\<lambda>c. c \<noteq> NUL) msg)"
    unfolding Error_format_def vsnprintf_c_str_def c_str_def .
  then show ?thesis by (simp only: diff_numeral_special numeral_eq_iff) simp
qed

text \<open>
  C1. A request and its response, end to end: for every two sessions connected by two open pipes with
  nothing on its way, where the client has sent fewer than 2^32 messages and the server has a handler for
  the request, sending a request, receiving and handling it, replying and receiving the reply calls the
  server's handler once with an object equal to the request, and the client's response handler once with
  an object equal to the response. The future of the request then holds the response, no entry for the
  request is left behind, and the sessions are connected with nothing on its way as before.
\<close>

theorem session_exchange:
  assumes "nlohmann_text N repr depth parse dump carried" and J: "J = nlohmann_setup E N parse dump depth"
    and run: "session_run Pipe_Reader Pipe_Writer J ops Session_create = Some A" "length (filter draws ops) < 2 ^ 32"
    and conn: "connected Pipe_Reader pipe_contents (\<lambda>_. True) A B"
      "handlers_request B (TypeInfo_name E T) = Some (T, h)"
    and wf: "wf_env E" "type_ok E T" "type_ok E U"
    and req: "portable (\<lambda>_. True) (\<lambda>_. True) E T v" "json_of E T v = Some X"
      "carried (request_doc E (se_nextSeq A) T X)"
    and resp: "portable (\<lambda>_. True) (\<lambda>_. True) E U r" "json_of E U r = Some Y"
      "carried (success_doc (se_nextSeq B) (context_of E T A) Y)"
  shows "\<exists>A' B' v' r'. exchange Pipe_Reader Pipe_Writer J T U v g (of_response r) A B = Some (A', B')
    \<and> connected Pipe_Reader pipe_contents (\<lambda>_. True) A' B' \<and> norm v' = norm v \<and> norm r' = norm r
    \<and> se_calls B' = se_calls B @ RequestCall h v' (context_of E T A) # sent_calls B U (Inl r)
    \<and> se_calls A' = se_calls A @ [ResponseCall g (Inl r')]
    \<and> future_of dflt g (se_calls A') = \<lparr>ps_val = of_response r', ps_hasVal = True\<rparr>
    \<and> eh_responseMap (se_handlers A') = eh_responseMap (se_handlers A)"
proof -
  note link = nlohmann_text.pipe_link [OF assms(1), of E, folded J]
  have E: "js_env J = E" by (simp add: J nlohmann_setup_def)
  have fresh: "eh_responseMap (se_handlers A) (scast (se_nextSeq A)) = None"
    using numbered_key_fresh [OF numbered_run [OF run(1) numbered_create]] run(2) by simp
  obtain A' B' v' q where x: "exchange Pipe_Reader Pipe_Writer J T U v g (of_response r) A B = Some (A', B')"
      "connected Pipe_Reader pipe_contents (\<lambda>_. True) A' B'" "norm v' = norm v" "\<exists>r'. q = Inl r' \<and> norm r' = norm r"
      "se_calls B' = se_calls B @ RequestCall h v' (context_of E T A) # sent_calls B U (Inl r)"
      "se_calls A' = se_calls A @ [ResponseCall g q]" "eh_responseMap (se_handlers A') = eh_responseMap (se_handlers A)"
    using session_link.exchange_succeeds [OF link conn(1), unfolded E, OF wf(1,2) req(1,2) TrueI req(3) conn(2) fresh
        wf(3) resp] by blast
  then show ?thesis by (auto simp: future_of_answer result_of_def simp del: future_of.simps)
qed

theorem session_exchange_witness:
  "\<exists>A' B' v' r'. exchange Pipe_Reader Pipe_Writer (ref_setup session_env) TestRequest TestResponse test_data 5
      (of_response test_data) client server = Some (A', B')
    \<and> connected Pipe_Reader pipe_contents (\<lambda>_. True) A' B' \<and> norm v' = norm test_data \<and> norm r' = norm test_data
    \<and> se_calls B' = se_calls server @ RequestCall 1 v' (context_of session_env TestRequest client)
        # sent_calls server TestResponse (Inl test_data)
    \<and> se_calls A' = se_calls client @ [ResponseCall 5 (Inl r')]
    \<and> future_of VNull 5 (se_calls A') = \<lparr>ps_val = of_response r', ps_hasVal = True\<rparr>
    \<and> eh_responseMap (se_handlers A') = eh_responseMap (se_handlers client)"
proof -
  have ctx: "context_of session_env TestRequest client = \<lparr>rc_sequence = 1, rc_command = ''test-request''\<rparr>"
    by (simp add: context_of_def test_seq test_names_eq)
  obtain X Y where X: "json_of session_env TestRequest test_data = Some X"
      "ref_carried (request_doc session_env (se_nextSeq client) TestRequest X)"
    and Y: "json_of session_env TestResponse test_data = Some Y"
      "ref_carried (success_doc (se_nextSeq server) (context_of session_env TestRequest client) Y)"
    using test_docs unfolding ctx test_seq by blast
  have "length (filter draws client_ops) < 2 ^ 32" by (simp add: client_ops_def)
  from session_exchange [OF ref_text.nlohmann_text_axioms refl client_run this test_connected server_handlers(1)
      test_env_facts(1-3) test_data_portable(1) X test_data_portable(2) Y]
  show ?thesis .
qed

text \<open>
  C9. A request that fails: when the server's handler returns an error instead, the client's response
  handler is called once with that error's message, cut at the first zero byte and to 2047 bytes.
\<close>

theorem session_exchange_error:
  assumes "nlohmann_text N repr depth parse dump carried" and J: "J = nlohmann_setup E N parse dump depth"
    and run: "session_run Pipe_Reader Pipe_Writer J ops Session_create = Some A" "length (filter draws ops) < 2 ^ 32"
    and conn: "connected Pipe_Reader pipe_contents (\<lambda>_. True) A B"
      "handlers_request B (TypeInfo_name E T) = Some (T, h)"
    and wf: "wf_env E" "type_ok E T"
    and req: "portable (\<lambda>_. True) (\<lambda>_. True) E T v" "json_of E T v = Some X"
      "carried (request_doc E (se_nextSeq A) T X)"
    and resp: "msg \<noteq> []" "carried (failure_doc (se_nextSeq B) (context_of E T A) msg)"
  shows "\<exists>A' B' v'. exchange Pipe_Reader Pipe_Writer J T U v g (of_error dflt msg) A B = Some (A', B')
    \<and> connected Pipe_Reader pipe_contents (\<lambda>_. True) A' B' \<and> norm v' = norm v
    \<and> se_calls B' = se_calls B @ RequestCall h v' (context_of E T A) # sent_calls B U (Inr msg)
    \<and> se_calls A' = se_calls A @ [ResponseCall g (Inr (take 2047 (takeWhile (\<lambda>c. c \<noteq> NUL) msg)))]
    \<and> eh_responseMap (se_handlers A') = eh_responseMap (se_handlers A)"
proof -
  note link = nlohmann_text.pipe_link [OF assms(1), of E, folded J]
  have E: "js_env J = E" by (simp add: J nlohmann_setup_def)
  have fresh: "eh_responseMap (se_handlers A) (scast (se_nextSeq A)) = None"
    using numbered_key_fresh [OF numbered_run [OF run(1) numbered_create]] run(2) by simp
  have "Error_format (c_str msg) = take 2047 (takeWhile (\<lambda>c. c \<noteq> NUL) msg)"
    by (rule Error_format_c_str)
  then show ?thesis
    using session_link.exchange_fails [OF link conn(1), unfolded E, OF wf(1,2) req(1,2) TrueI req(3) conn(2) fresh
        resp(1) TrueI resp(2), of U g dflt] by auto
qed

theorem session_exchange_error_witness:
  "\<exists>A' B' v'. exchange Pipe_Reader Pipe_Writer (ref_setup session_env) TestRequest TestResponse test_data 5
      (of_error VNull ''Oh noes!'') client server = Some (A', B')
    \<and> connected Pipe_Reader pipe_contents (\<lambda>_. True) A' B' \<and> norm v' = norm test_data
    \<and> se_calls B' = se_calls server @ RequestCall 1 v' (context_of session_env TestRequest client)
        # sent_calls server TestResponse (Inr ''Oh noes!'')
    \<and> se_calls A' = se_calls client @ [ResponseCall 5 (Inr ''Oh noes!'')]
    \<and> eh_responseMap (se_handlers A') = eh_responseMap (se_handlers client)"
proof -
  have ctx: "context_of session_env TestRequest client = \<lparr>rc_sequence = 1, rc_command = ''test-request''\<rparr>"
    by (simp add: context_of_def test_seq test_names_eq)
  obtain X where X: "json_of session_env TestRequest test_data = Some X"
      "ref_carried (request_doc session_env (se_nextSeq client) TestRequest X)"
    using test_docs unfolding test_seq by blast
  have "length (print_json (failure_doc 1 \<lparr>rc_sequence = 1, rc_command = ''test-request''\<rparr> ''Oh noes!'')) < 400"
    by code_simp
  then have Y: "ref_carried (failure_doc (se_nextSeq server) (context_of session_env TestRequest client) ''Oh noes!'')"
    unfolding ctx test_seq by (rule ref_carried_short)
  have "length (filter draws client_ops) < 2 ^ 32" by (simp add: client_ops_def)
  from session_exchange_error [OF ref_text.nlohmann_text_axioms refl client_run this test_connected server_handlers(1)
      test_env_facts(1,2) test_data_portable(1) X _ Y]
  show ?thesis by simp
qed

text \<open>
  An event arrives: the handler that the receiver registered for the event is called once, with an
  object equal to the one sent, and the receiver is ready for the next message.
\<close>

theorem session_event:
  assumes "nlohmann_text N repr depth parse dump carried" and J: "J = nlohmann_setup E N parse dump depth"
    and conn: "connected Pipe_Reader pipe_contents (\<lambda>_. True) A B" "handlers_event B (TypeInfo_name E T) = Some (T, h)"
    and wf: "wf_env E" "type_ok E T"
    and ev: "portable (\<lambda>_. True) (\<lambda>_. True) E T v" "json_of E T v = Some X" "carried (event_doc E (se_nextSeq A) T X)"
  shows "\<exists>A' p B' v'. send_event Pipe_Writer J T v A = Some (True, A')
    \<and> getPayload Pipe_Reader J (reader_follows A' B) = Some (Some p, B') \<and> norm v' = norm v
    \<and> connected Pipe_Reader pipe_contents (\<lambda>_. True) (writer_follows B' A') B'
    \<and> se_calls (run_payload p B') = se_calls B @ [EventCall h v'] \<and> se_calls A' = se_calls A"
proof -
  note link = nlohmann_text.pipe_link [OF assms(1), of E, folded J]
  have E: "js_env J = E" by (simp add: J nlohmann_setup_def)
  have l: "pipe_at True (cr_on_invalid_data (se_reader B)) [] (se_reader B)" "se_writer A = cr_reader (se_reader B)"
    using conn(1) by (simp_all add: connected_def)
  obtain w cr v' where x: "send_event Pipe_Writer J T v A = Some (True, (drawn A)\<lparr>se_writer := w\<rparr>)"
      "getPayload Pipe_Reader J (reader_follows ((drawn A)\<lparr>se_writer := w\<rparr>) B)
        = Some (Some (EventPayload h v'), B\<lparr>se_reader := cr\<rparr>)"
      "pipe_at True (cr_on_invalid_data cr) [] cr" "norm v' = norm v"
    using session_link.event_arrives [OF link l, unfolded E, OF wf ev(1,2) TrueI ev(3) conn(2)] by auto
  then show ?thesis
    using conn(1)
    by (intro exI [of _ "(drawn A)\<lparr>se_writer := w\<rparr>"] exI [of _ "EventPayload h v'"] exI [of _ "B\<lparr>se_reader := cr\<rparr>"] exI [of _ v'])
      (simp add: connected_def writer_follows_def run_payload_def)
qed

theorem session_event_witness:
  "\<exists>A' p B' v'. send_event Pipe_Writer (ref_setup session_env) TestEvent test_data client = Some (True, A')
    \<and> getPayload Pipe_Reader (ref_setup session_env) (reader_follows A' server) = Some (Some p, B')
    \<and> norm v' = norm test_data
    \<and> connected Pipe_Reader pipe_contents (\<lambda>_. True) (writer_follows B' A') B'
    \<and> se_calls (run_payload p B') = se_calls server @ [EventCall 2 v'] \<and> se_calls A' = se_calls client"
proof -
  obtain X where X: "json_of session_env TestEvent test_data = Some X"
      "ref_carried (event_doc session_env (se_nextSeq client) TestEvent X)"
    using test_docs unfolding test_seq by blast
  from session_event [OF ref_text.nlohmann_text_axioms refl test_connected server_handlers(2)
      test_env_facts(1,4) test_data_portable(3) X]
  show ?thesis .
qed

end
