(* ===== verification/SessionProperties.thy ===== *)
theory SessionProperties
  imports Sessions
begin

section \<open>What holds in every run of a session\<close>

text \<open>
  Answering, numbering, error reporting, termination and shutdown of a session, and the requests that
  stay unanswered.
\<close>

text \<open>
  C6. Every response handler is called at most once per request that was sent with it, whatever the peer
  sends: after any run of a session, the calls made of a response handler and the entries that still wait
  for a response with it are together at most the requests sent with it.
\<close>

theorem response_at_most_once:
  assumes "session_run R W J ops Session_create = Some s"
  shows "answered h s + pending h s \<le> length (filter (requests h) ops)"
  using answered_run [OF assms, of h]
  by (simp add: answered_def entries_for_def Session_create_def)

lemma client_sends:
  "session_run Pipe_Reader Pipe_Writer (ref_setup session_env)
     (client_ops @ [SendRequest TestRequest TestResponse test_data 5]) Session_create \<noteq> None"
  by code_simp

theorem response_at_most_once_witness:
  "\<exists>s. session_run Pipe_Reader Pipe_Writer (ref_setup session_env)
      (client_ops @ [SendRequest TestRequest TestResponse test_data 5]) Session_create = Some s
    \<and> answered 5 s + pending 5 s \<le> 1"
proof -
  obtain s where s: "session_run Pipe_Reader Pipe_Writer (ref_setup session_env)
      (client_ops @ [SendRequest TestRequest TestResponse test_data 5]) Session_create = Some s"
    using client_sends by auto
  have "length (filter (requests 5) (client_ops @ [SendRequest TestRequest TestResponse test_data 5])) = 1"
    by (simp add: client_ops_def)
  with s response_at_most_once [OF s, of 5] show ?thesis by auto
qed

text \<open>
  C10. Sequence numbers: a session numbers its messages 1, 2, 3 and so on modulo 2^32, and as long as it has
  sent fewer than 2^32 messages, the next request's number is not in use: its response handler is
  registered under that number and no error is reported.
\<close>

theorem sequence_numbers:
  assumes "session_run R W J ops Session_create = Some s" and "n = length (filter draws ops)" and "n < 2 ^ 32"
  shows "se_nextSeq s = of_nat (Suc n)
    \<and> eh_responseMap (se_handlers (handlers_put_response (se_nextSeq s) U h s))
        = (eh_responseMap (se_handlers s))(scast (se_nextSeq s) \<mapsto> (U, h))
    \<and> se_calls (handlers_put_response (se_nextSeq s) U h s) = se_calls s"
proof -
  have n: "numbered n s" using numbered_run [OF assms(1) numbered_create] assms(2) by simp
  then have "se_nextSeq s = of_nat (Suc n)" by (simp add: numbered_def)
  with numbered_key_fresh [OF n assms(3)] show ?thesis
    by (simp add: handlers_put_response_def)
qed

theorem sequence_numbers_witness:
  "\<exists>s. session_run Pipe_Reader Pipe_Writer (ref_setup session_env)
      (client_ops @ [SendRequest TestRequest TestResponse test_data 5]) Session_create = Some s
    \<and> se_nextSeq s = 2
    \<and> eh_responseMap (se_handlers (handlers_put_response (se_nextSeq s) TestResponse 6 s))
        = (eh_responseMap (se_handlers s))(scast (se_nextSeq s) \<mapsto> (TestResponse, 6))"
proof -
  obtain s where s: "session_run Pipe_Reader Pipe_Writer (ref_setup session_env)
      (client_ops @ [SendRequest TestRequest TestResponse test_data 5]) Session_create = Some s"
    using client_sends by auto
  have "1 = length (filter draws (client_ops @ [SendRequest TestRequest TestResponse test_data (5 :: nat)]))"
    by (simp add: client_ops_def)
  from sequence_numbers [OF s this, of TestResponse 6] s show ?thesis by auto
qed

lemma errorLocked_calls:
  "eh_errorHandler (se_handlers s) = Some h \<Longrightarrow> se_calls (errorLocked e s) =
     se_calls s @ [ErrorCall h (vsnprintf_c_str 2048 (error_text e))]"
  by (simp add: errorLocked_def)

lemma processRequest_reports:
  "processRequest J d q s = Some (None, t) \<Longrightarrow> \<exists>e. t = errorLocked e s"
  by (auto simp: processRequest_def bind_eq_Some_conv split: option.splits if_splits)

lemma processEvent_reports:
  "processEvent J d s = Some (None, t) \<Longrightarrow> \<exists>e. t = errorLocked e s"
  by (auto simp: processEvent_def bind_eq_Some_conv split: option.splits if_splits)

lemma processResponse_reports:
  assumes "processResponse J d s = Some t" and "eh_errorHandler (se_handlers s) = Some h"
  shows "\<exists>c cs. se_calls t = se_calls s @ c # cs"
  using assms
  by (auto simp: processResponse_def handlers_response_def errorLocked_calls Let_def bind_eq_Some_conv
      split: option.splits if_splits)



definition handlers_ok :: "env \<Rightarrow> ('r, 'w, 'h) Session \<Rightarrow> bool" where
  "handlers_ok E s \<longleftrightarrow> (\<forall>n p. handlers_request s n = Some p \<longrightarrow> type_ok E (fst p))
     \<and> (\<forall>n p. handlers_event s n = Some p \<longrightarrow> type_ok E (fst p))
     \<and> (\<forall>k p. eh_responseMap (se_handlers s) k = Some p \<longrightarrow> type_ok E (fst p))"

context nlohmann_text
begin

lemma field_callback_returns:
  assumes J: "J = nlohmann_setup E N parse dump depth" and "wf_env E" and "type_ok E T"
  shows "\<exists>b v. field_callback J d k T (construct J T) = Some (b, v)"
proof (cases "d_field (js_in J) d k")
  case (Some c)
  have "depth j \<le> depth d" if "c = Some j" for j
    using field_depth [of d k j] Some that J by (simp add: nlohmann_setup_def)
  then have "deser (js_in J) E (depth d) T c (construct J T) \<noteq> None"
    using deser_returns_aux(1) [OF assms(2) refl refl assms(3)] default_of_type_ok [OF assms(2,3)] J
    by (auto simp: nlohmann_setup_def)
  with Some J show ?thesis by (auto simp: field_callback_def nlohmann_setup_def)
qed (simp add: field_callback_def)

lemma processMessage_returns:
  assumes J: "J = nlohmann_setup E N parse dump depth" and "wf_env E" and ok: "handlers_ok E s"
  shows "\<exists>p t. processMessage J str s = Some (p, t)"
proof -
  note cb = field_callback_returns [OF J assms(2)]
  obtain d where d: "js_parse J str = Some d" by (simp add: J nlohmann_setup_def)
  have "processRequest J d q s \<noteq> None" for q
  proof (cases "field_string J d ''command''")
    case (Some n)
    show ?thesis
    proof (cases "handlers_request s n")
      case (Some p)
      then obtain T h where "p = (T, h)" "type_ok E T" using ok unfolding handlers_ok_def by (metis fst_conv surj_pair)
      with cb [of T d "''arguments''"] Some \<open>field_string J d _ = Some n\<close> show ?thesis by (auto simp: processRequest_def)
    qed (simp add: Some processRequest_def)
  qed (simp add: processRequest_def)
  moreover have "processEvent J d s \<noteq> None"
  proof (cases "field_string J d ''event''")
    case (Some n)
    show ?thesis
    proof (cases "handlers_event s n")
      case (Some p)
      then obtain T h where "p = (T, h)" "type_ok E T" using ok unfolding handlers_ok_def by (metis fst_conv surj_pair)
      with cb [of T d "''body''"] Some \<open>field_string J d _ = Some n\<close> show ?thesis by (auto simp: processEvent_def)
    qed (simp add: Some processEvent_def)
  qed (simp add: processEvent_def)
  moreover have "processResponse J d s \<noteq> None"
  proof (cases "field_integer J d ''request_seq''")
    case (Some k)
    show ?thesis
    proof (cases "eh_responseMap (se_handlers s) k")
      case (Some p)
      then obtain T h where "p = (T, h)" "type_ok E T" using ok unfolding handlers_ok_def by (metis fst_conv surj_pair)
      with cb [of T d "''body''"] Some \<open>field_integer J d _ = Some k\<close> show ?thesis
        by (auto simp: processResponse_def handlers_response_def Let_def split: option.splits)
    qed (simp add: Some processResponse_def handlers_response_def)
  qed (simp add: processResponse_def)
  ultimately show ?thesis
    using d by (auto simp: processMessage_def split: option.splits)
qed

end



subsection \<open>The end of a session, and requests that stay unanswered\<close>

definition payload_call :: "'h Payload \<Rightarrow> 'h call" where
  "payload_call p = (case p of RequestPayload h v ctx \<Rightarrow> RequestCall h v ctx | EventPayload h v \<Rightarrow> EventCall h v)"

lemma run_payload_call: "run_payload p s = called (payload_call p) s"
  by (simp add: run_payload_def payload_call_def split: Payload.splits)

lemma dispatch_drains:
  assumes "ch_closed (se_inbox s)" and "se_dispatchThread s" and "ch_queue (se_inbox s) = ps"
  shows "\<exists>t. session_run R W J (replicate (Suc (length ps)) Dispatch) s = Some t \<and> \<not> se_dispatchThread t
    \<and> se_recvThread t = se_recvThread s \<and> se_calls t = se_calls s @ map payload_call ps"
  using assms
proof (induction ps arbitrary: s)
  case Nil
  then show ?case by (simp add: dispatch_turn_def chan_defs)
next
  case (Cons p ps)
  let ?u = "run_payload p (s\<lparr>se_inbox := (se_inbox s)\<lparr>ch_queue := ps\<rparr>\<rparr>)"
  have step: "session_do R W J Dispatch s = Some ?u"
    using Cons.prems by (simp add: dispatch_turn_def chan_defs)
  have "ch_closed (se_inbox ?u)" "se_dispatchThread ?u" "ch_queue (se_inbox ?u) = ps"
    using Cons.prems by (simp_all add: run_payload_call)
  from Cons.IH [OF this] step show ?case by (simp add: run_payload_call)
qed



text \<open>
  A response without \<^verbatim>\<open>success\<close> loses its request: the entry of the request is removed before the field
  is looked at, and the response handler is not called, so the future of the request is never set.
\<close>

theorem response_without_success_is_lost:
  assumes "js_parse J str = Some d" and "field_string J d ''type'' = Some ''response''"
    and "field_integer J d ''seq'' = Some q" and "field_integer J d ''request_seq'' = Some k"
    and "field_boolean J d ''success'' = None"
  shows "\<exists>t. processMessage J str s = Some (None, t) \<and> eh_responseMap (se_handlers t) k = None
    \<and> response_calls (se_calls t) = response_calls (se_calls s)"
  using assms
  by (simp add: processMessage_def processResponse_def handlers_response_def Let_def split: option.splits)

theorem response_without_success_is_lost_witness:
  "\<exists>t. processMessage (ref_setup session_env) ''o4:types8:response3:seqi1e11:request_seqi1ee'' (expecting TestResponse 5 client)
      = Some (None, t) \<and> eh_responseMap (se_handlers t) 1 = None
    \<and> response_calls (se_calls t) = response_calls (se_calls (expecting TestResponse 5 client))"
proof (rule response_without_success_is_lost)
  let ?d = "JObj [(''type'', JStr ''response''), (''seq'', JInt 1), (''request_seq'', JInt 1)]"
  show "js_parse (ref_setup session_env) ''o4:types8:response3:seqi1e11:request_seqi1ee'' = Some ?d" by code_simp
  show "field_string (ref_setup session_env) ?d ''type'' = Some ''response''" by code_simp
  show "field_integer (ref_setup session_env) ?d ''seq'' = Some 1" by code_simp
  show "field_integer (ref_setup session_env) ?d ''request_seq'' = Some 1" by code_simp
  show "field_boolean (ref_setup session_env) ?d ''success'' = None" by code_simp
qed

lemma Error_format_short:
  assumes "length msg < 2048" and "NUL \<notin> set msg"
  shows "Error_format msg = msg"
proof -
  have "take (2048 - 1) msg = msg" using assms(1) by (intro take_all) simp
  moreover have "takeWhile (\<lambda>c. c \<noteq> NUL) msg = msg"
    using assms(2) by (intro takeWhile_eq_all_conv [THEN iffD2]) auto
  ultimately show ?thesis unfolding Error_format_def vsnprintf_c_str_def by (simp only:)
qed

text \<open>
  A request that cannot be sent because the writer is closed: the future of the request is set to the
  error \<^verbatim>\<open>Failed to send request\<close>, but the response handler stays registered under the request's number.
\<close>

theorem failed_send_keeps_handler:
  assumes "ContentWriter_isOpen W (se_writer s) = (False, cw)"
    and "message_object J (request_message (js_env J) (se_nextSeq s) T v) = (True, j)" and "js_dump J j = Some text"
    and "eh_responseMap (se_handlers s) (scast (se_nextSeq s)) = None"
  shows "\<exists>t. send_template W J T U v h s = Some t
    \<and> future_of dflt h (se_calls t) = \<lparr>ps_val = of_error dflt ''Failed to send request'', ps_hasVal = True\<rparr>
    \<and> eh_responseMap (se_handlers t) (scast (se_nextSeq s)) = Some (U, h)"
proof -
  let ?s = "errorLocked SendClosed ((expecting U h s)\<lparr>se_writer := cw\<rparr>)"
  have "send_request W J T U v h s = Some (False, ?s)"
    using assms by (simp add: send_request_def send_string_def expecting_def drawn_def handlers_put_response_def Let_def)
  moreover have "Error_format ''Failed to send request'' = ''Failed to send request''"
    by (rule Error_format_short) simp_all
  ultimately have "send_template W J T U v h s = Some (called (ResponseCall h (Inr ''Failed to send request'')) ?s)"
    by (simp add: send_template_def)
  then show ?thesis
    using expecting_fresh(1) [OF assms(4), of U h]
    by (simp add: future_of_answer result_of_def del: future_of.simps)
qed

lemma setup_env: "js_env (nlohmann_setup E N parse dump depth) = E"
  by (simp add: nlohmann_setup_def)

theorem failed_send_keeps_handler_witness:
  "\<exists>t :: test_session. send_template Pipe_Writer (ref_setup session_env) TestRequest TestResponse test_data 5 Session_create = Some t
    \<and> future_of VNull 5 (se_calls t) = \<lparr>ps_val = of_error VNull ''Failed to send request'', ps_hasVal = True\<rparr>
    \<and> eh_responseMap (se_handlers t) 1 = Some (TestResponse, 5)"
proof -
  let ?J = "ref_setup session_env"
  have seq: "se_nextSeq (Session_create :: test_session) = 1" by (simp add: Session_create_def)
  obtain j where j: "message_object ?J (request_message (js_env ?J) (se_nextSeq (Session_create :: test_session)) TestRequest test_data) = (True, j)"
    using ref_link.request_builds [of session_env TestRequest test_data, unfolded setup_env, OF TrueI test_data_portable(1)]
      test_docs(1) by (auto simp: setup_env)
  have d: "js_dump ?J j = Some (print_json j)" by (simp add: nlohmann_setup_def ref_dump_def)
  have "ContentWriter_isOpen Pipe_Writer (se_writer (Session_create :: test_session)) = (False, None)"
      "eh_responseMap (se_handlers (Session_create :: test_session)) (scast (se_nextSeq (Session_create :: test_session))) = None"
    by (simp_all add: Session_create_def ContentWriter_isOpen_def)
  from failed_send_keeps_handler [OF this(1) j d this(2), of TestResponse 5 VNull] show ?thesis
    by (simp add: seq del: future_of.simps)
qed

end
