(* ===== verification/RapidJson.thy ===== *)
theory RapidJson
  imports NlohmannJson
begin

section \<open>The RapidJSON back end\<close>

text \<open>
  \<^verbatim>\<open>src/rapid_json_serializer.{h,cpp}\<close>. The library RapidJSON is not part of the sources: the record \<open>rapid\<close>
  has the operations that the back end calls, and the locale \<open>rapid_lib\<close> what it relies on of them.
  \<^term>\<open>None\<close> as the result of \<open>rj_size\<close> and \<open>rj_members\<close> is a failed assertion of the library. A
  \<^verbatim>\<open>std::string\<close> that is made from, or passed as, a \<^verbatim>\<open>const char*\<close> ends at its first zero byte, and
  lengths are 32-bit numbers. An array of 2^32 or more elements cannot be written: the index of the loop
  in \<^verbatim>\<open>RapidSerializer::array\<close> is a \<^verbatim>\<open>uint32_t\<close>.
\<close>

record 'j rapid =
  rj_document :: "'j"
  rj_null :: "'j"
  rj_of_bool :: "bool \<Rightarrow> 'j"
  rj_of_int64 :: "int64 \<Rightarrow> 'j"
  rj_of_double :: "number \<Rightarrow> 'j"
  rj_of_string :: "string \<Rightarrow> 'j"
  rj_empty_object :: "'j"
  rj_empty_array :: "'j"
  rj_is_bool :: "'j \<Rightarrow> bool"
  rj_is_int :: "'j \<Rightarrow> bool"
  rj_is_uint :: "'j \<Rightarrow> bool"
  rj_is_int64 :: "'j \<Rightarrow> bool"
  rj_is_uint64 :: "'j \<Rightarrow> bool"
  rj_is_number :: "'j \<Rightarrow> bool"
  rj_is_double :: "'j \<Rightarrow> bool"
  rj_is_string :: "'j \<Rightarrow> bool"
  rj_is_null :: "'j \<Rightarrow> bool"
  rj_is_object :: "'j \<Rightarrow> bool"
  rj_is_array :: "'j \<Rightarrow> bool"
  rj_get_bool :: "'j \<Rightarrow> bool"
  rj_get_int :: "'j \<Rightarrow> 32 word"
  rj_get_uint :: "'j \<Rightarrow> 32 word"
  rj_get_int64 :: "'j \<Rightarrow> int64"
  rj_get_uint64 :: "'j \<Rightarrow> int64"
  rj_get_double :: "'j \<Rightarrow> number"
  rj_get_string :: "'j \<Rightarrow> string"
  rj_members :: "'j \<Rightarrow> (string \<times> 'j) list option"
  rj_size :: "'j \<Rightarrow> nat option"
  rj_at :: "'j \<Rightarrow> nat \<Rightarrow> 'j"
  rj_put_at :: "'j \<Rightarrow> nat \<Rightarrow> 'j \<Rightarrow> 'j"
  rj_push_back :: "'j \<Rightarrow> 'j \<Rightarrow> 'j"
  rj_find_member :: "'j \<Rightarrow> string \<Rightarrow> 'j option"
  rj_add_member :: "'j \<Rightarrow> string \<Rightarrow> 'j \<Rightarrow> 'j"
  rj_put_member :: "'j \<Rightarrow> string \<Rightarrow> 'j \<Rightarrow> 'j"
  rj_remove_member :: "'j \<Rightarrow> string \<Rightarrow> 'j"

subsection \<open>RapidDeserializer\<close>

definition RapidDeserializer_boolean :: "'j rapid \<Rightarrow> 'j \<Rightarrow> bool option" where
  "RapidDeserializer_boolean N j = (if \<not> rj_is_bool N j then None else Some (rj_get_bool N j))"

definition RapidDeserializer_integer :: "'j rapid \<Rightarrow> 'j \<Rightarrow> int64 option" where
  "RapidDeserializer_integer N j =
     (if rj_is_int N j then Some (scast (rj_get_int N j))
      else if rj_is_uint N j then Some (ucast (rj_get_uint N j))
      else if rj_is_int64 N j then Some (rj_get_int64 N j)
      else if rj_is_uint64 N j then Some (rj_get_uint64 N j)
      else None)"

definition RapidDeserializer_number :: "'j rapid \<Rightarrow> 'j \<Rightarrow> number option" where
  "RapidDeserializer_number N j = (if \<not> rj_is_number N j then None else Some (rj_get_double N j))"

definition RapidDeserializer_string :: "'j rapid \<Rightarrow> 'j \<Rightarrow> string option" where
  "RapidDeserializer_string N j = (if \<not> rj_is_string N j then None else Some (c_str (rj_get_string N j)))"

definition RapidDeserializer_items :: "'j rapid \<Rightarrow> 'j \<Rightarrow> (string \<times> 'j) list option" where
  "RapidDeserializer_items N j = map_option (map (\<lambda>(k, c). (c_str k, c))) (rj_members N j)"

definition RapidDeserializer_any :: "'j rapid \<Rightarrow> 'j \<Rightarrow> any_case" where
  "RapidDeserializer_any N j =
     (if rj_is_bool N j then AnyScalar TBoolean (VBoolean (rj_get_bool N j))
      else if rj_is_double N j then AnyScalar TNumber (VNumber (rj_get_double N j))
      else if rj_is_int N j then AnyScalar TInteger (VInteger (scast (rj_get_int N j)))
      else if rj_is_string N j then AnyScalar TString (VString (c_str (rj_get_string N j)))
      else if rj_is_null N j then AnyScalar TNull VNull
      else if rj_is_object N j then AnyObject
      else if rj_is_array N j then AnyArray
      else AnyNothing)"

definition RapidDeserializer_array :: "'j rapid \<Rightarrow> 'j \<Rightarrow> 'j list option" where
  "RapidDeserializer_array N j =
     (if \<not> rj_is_array N j then None else map_option (\<lambda>n. map (rj_at N j) [0..<n]) (rj_size N j))"

definition RapidDeserializer_field :: "'j rapid \<Rightarrow> 'j \<Rightarrow> string \<Rightarrow> 'j option option" where
  "RapidDeserializer_field N j name =
     (if \<not> rj_is_object N j then None else Some (rj_find_member N j (c_str name)))"

definition RapidDeserializer :: "'j rapid \<Rightarrow> 'j Deserializer" where
  "RapidDeserializer N =
     \<lparr>d_boolean = RapidDeserializer_boolean N,
      d_integer = RapidDeserializer_integer N,
      d_number = RapidDeserializer_number N,
      d_string = RapidDeserializer_string N,
      d_items = RapidDeserializer_items N,
      d_any = RapidDeserializer_any N,
      d_count = rj_size N,
      d_array = RapidDeserializer_array N,
      d_field = RapidDeserializer_field N\<rparr>"

subsection \<open>RapidSerializer\<close>

text \<open>Both \<^verbatim>\<open>serialize(const object&)\<close> and \<^verbatim>\<open>object()\<close> keep a node that already is an object, \<^verbatim>\<open>array()\<close> one
  that is an array, which it fills up with nulls to the number of elements.\<close>

definition RapidSerializer_string :: "'j rapid \<Rightarrow> string \<Rightarrow> 'j" where
  "RapidSerializer_string N s = rj_of_string N (take (length s mod 2 ^ 32) s)"

definition RapidSerializer_object :: "'j rapid \<Rightarrow> 'j \<Rightarrow> 'j" where
  "RapidSerializer_object N j = (if \<not> rj_is_object N j then rj_empty_object N else j)"

definition RapidSerializer_array :: "'j rapid \<Rightarrow> 'j \<Rightarrow> nat \<Rightarrow> 'j" where
  "RapidSerializer_array N j n =
     (let j = (if \<not> rj_is_array N j then rj_empty_array N else j);
          size = (case rj_size N j of None \<Rightarrow> n | Some k \<Rightarrow> k)
      in ((\<lambda>j. rj_push_back N j (rj_null N)) ^^ (n - size)) j)"

definition RapidSerializer_ensure :: "'j rapid \<Rightarrow> 'j \<Rightarrow> string \<Rightarrow> 'j" where
  "RapidSerializer_ensure N j k =
     (if rj_find_member N j (c_str k) = None then rj_add_member N j (c_str k) (rj_null N) else j)"

definition RapidSerializer_member :: "'j rapid \<Rightarrow> 'j \<Rightarrow> string \<Rightarrow> 'j" where
  "RapidSerializer_member N j k =
     (case rj_find_member N (RapidSerializer_ensure N j k) (c_str k) of None \<Rightarrow> rj_null N | Some c \<Rightarrow> c)"

definition RapidSerializer :: "'j rapid \<Rightarrow> 'j Serializer" where
  "RapidSerializer N =
     \<lparr>s_new = rj_document N,
      s_boolean = rj_of_bool N,
      s_integer = rj_of_int64 N,
      s_number = rj_of_double N,
      s_string = RapidSerializer_string N,
      s_open_object = RapidSerializer_object N,
      s_begin_object = RapidSerializer_object N,
      s_begin_array = RapidSerializer_array N,
      s_member = RapidSerializer_member N,
      s_set_member = (\<lambda>j k c. rj_put_member N (RapidSerializer_ensure N j k) (c_str k) c),
      s_elem = rj_at N,
      s_set_elem = rj_put_at N,
      s_erase = (\<lambda>j k. rj_remove_member N j (c_str k))\<rparr>"

lemmas rapid_defs =
  RapidDeserializer_def RapidDeserializer_boolean_def RapidDeserializer_integer_def
  RapidDeserializer_number_def RapidDeserializer_string_def RapidDeserializer_any_def
  RapidDeserializer_items_def RapidDeserializer_array_def RapidDeserializer_field_def
  RapidSerializer_def RapidSerializer_string_def RapidSerializer_object_def

subsection \<open>What the back end relies on\<close>

definition fits_int32 :: "int64 \<Rightarrow> bool" where
  "fits_int32 i \<longleftrightarrow> - (2 ^ 31) \<le> sint i \<and> sint i < 2 ^ 31"

definition z_ok :: "string \<Rightarrow> bool" where
  "z_ok s \<longleftrightarrow> NUL \<notin> set s \<and> int (length s) < 2 ^ 32"

text \<open>
  The documented behaviour: a value is of one kind, an integer \<^verbatim>\<open>IsInt()\<close> exactly if it fits into an
  \<^verbatim>\<open>int\<close>, and always \<^verbatim>\<open>IsInt64()\<close> when it was set as such; members and elements are what was stored.
\<close>

locale rapid_lib =
  fixes N :: "'j rapid"
    and repr :: "'j \<Rightarrow> json \<Rightarrow> bool"
  assumes kind_bool: "repr j J \<Longrightarrow> rj_is_bool N j \<longleftrightarrow> (\<exists>b. J = JBool b)"
    and kind_int: "repr j J \<Longrightarrow> rj_is_int N j \<longleftrightarrow> (\<exists>i. J = JInt i \<and> fits_int32 i)"
    and kind_uint: "repr j (JInt i) \<Longrightarrow> rj_is_uint N j \<longleftrightarrow> 0 \<le> sint i \<and> sint i < 2 ^ 32"
    and kind_int64: "repr j (JInt i) \<Longrightarrow> rj_is_int64 N j"
    and kind_number: "repr j J \<Longrightarrow> rj_is_number N j \<longleftrightarrow> (\<exists>i. J = JInt i) \<or> (\<exists>x. J = JNum x)"
    and kind_double: "repr j J \<Longrightarrow> rj_is_double N j \<longleftrightarrow> (\<exists>x. J = JNum x)"
    and kind_string: "repr j J \<Longrightarrow> rj_is_string N j \<longleftrightarrow> (\<exists>s. J = JStr s)"
    and kind_null: "repr j J \<Longrightarrow> rj_is_null N j \<longleftrightarrow> J = JNull"
    and kind_object: "repr j J \<Longrightarrow> rj_is_object N j \<longleftrightarrow> (\<exists>m. J = JObj m)"
    and kind_array: "repr j J \<Longrightarrow> rj_is_array N j \<longleftrightarrow> (\<exists>Js. J = JArr Js)"
    and array_size: "rj_is_array N j \<Longrightarrow> rj_size N j \<noteq> None"
    and make: "repr (rj_document N) (JObj [])" "repr (rj_null N) JNull" "repr (rj_of_bool N b) (JBool b)"
      "repr (rj_of_int64 N i) (JInt i)" "repr (rj_of_double N x) (JNum x)" "repr (rj_of_string N s) (JStr s)"
      "repr (rj_empty_object N) (JObj [])" "repr (rj_empty_array N) (JArr [])"
    and get: "repr j (JBool b) \<Longrightarrow> rj_get_bool N j = b"
      "repr j (JInt i) \<Longrightarrow> fits_int32 i \<Longrightarrow> scast (rj_get_int N j) = i"
      "repr j (JInt i) \<Longrightarrow> 0 \<le> sint i \<Longrightarrow> sint i < 2 ^ 32 \<Longrightarrow> ucast (rj_get_uint N j) = i"
      "repr j (JInt i) \<Longrightarrow> rj_get_int64 N j = i"
      "repr j (JNum x) \<Longrightarrow> rj_get_double N j = x" "repr j (JStr s) \<Longrightarrow> rj_get_string N j = s"
    and arr_size: "repr j (JArr Js) \<Longrightarrow> rj_size N j = Some (length Js)"
    and arr_at: "repr j (JArr Js) \<Longrightarrow> n < length Js \<Longrightarrow> repr (rj_at N j n) (Js ! n)"
    and arr_put: "repr j (JArr Js) \<Longrightarrow> n < length Js \<Longrightarrow> repr c J \<Longrightarrow> repr (rj_put_at N j n c) (JArr (Js[n := J]))"
    and arr_push: "repr j (JArr Js) \<Longrightarrow> Suc (length Js) < 2 ^ 32 \<Longrightarrow> repr c J \<Longrightarrow> repr (rj_push_back N j c) (JArr (Js @ [J]))"
    and obj_members: "repr j (JObj m) \<Longrightarrow> distinct (map fst m) \<Longrightarrow>
      \<exists>its. rj_members N j = Some its \<and> distinct (map fst its) \<and> fst ` set its = fst ` set m
        \<and> (\<forall>(k, c) \<in> set its. \<exists>J. (k, J) \<in> set m \<and> repr c J)"
    and obj_find: "repr j (JObj m) \<Longrightarrow> distinct (map fst m) \<Longrightarrow> map_of m k = Some J \<Longrightarrow>
      \<exists>c. rj_find_member N j k = Some c \<and> repr c J"
    and obj_find_none: "repr j (JObj m) \<Longrightarrow> k \<notin> fst ` set m \<Longrightarrow> rj_find_member N j k = None"
    and obj_add: "repr j (JObj m) \<Longrightarrow> k \<notin> fst ` set m \<Longrightarrow> repr c J \<Longrightarrow>
      repr (rj_add_member N j k c) (JObj (m @ [(k, J)]))"
    and obj_add_find: "repr j (JObj m) \<Longrightarrow> k \<notin> fst ` set m \<Longrightarrow> repr c J \<Longrightarrow>
      \<exists>c'. rj_find_member N (rj_add_member N j k c) k = Some c' \<and> repr c' J"
    and obj_put: "repr j (JObj (m @ [(k, I)])) \<Longrightarrow> k \<notin> fst ` set m \<Longrightarrow> repr c J \<Longrightarrow>
      repr (rj_put_member N j k c) (JObj (m @ [(k, J)]))"
    and obj_remove: "repr j (JObj (m @ [(k, J)])) \<Longrightarrow> k \<notin> fst ` set m \<Longrightarrow> repr (rj_remove_member N j k) (JObj m)"
begin

lemma z_ok_c_str [simp]: "z_ok s \<Longrightarrow> c_str s = s"
  by (simp add: z_ok_def c_str_id)

lemma fill:
  assumes "repr j (JArr Js)" and "length Js + k < 2 ^ 32"
  shows "repr (((\<lambda>j. rj_push_back N j (rj_null N)) ^^ k) j) (JArr (Js @ replicate k JNull))"
  using assms(2)
proof (induction k)
  case 0
  then show ?case using assms(1) by simp
next
  case (Suc k)
  then show ?case using arr_push [OF _ _ make(2), of _ "Js @ replicate k JNull"] by (simp add: replicate_append_same)
qed

lemma begins_array:
  assumes "repr j JNull" and "n < 2 ^ 32"
  shows "repr (RapidSerializer_array N j n) (JArr (replicate n JNull))"
proof -
  have "\<not> rj_is_array N j" using kind_array [OF assms(1)] by simp
  then show ?thesis
    using fill [OF make(8), of n] arr_size [OF make(8)] assms(2) by (simp add: RapidSerializer_array_def)
qed

lemma ensures_member:
  assumes "repr j (JObj m)" and "z_ok k" and "k \<notin> fst ` set m"
  shows "RapidSerializer_ensure N j k = rj_add_member N j k (rj_null N)"
    and "repr (RapidSerializer_ensure N j k) (JObj (m @ [(k, JNull)]))"
    and "repr (RapidSerializer_member N j k) JNull"
  using obj_find_none [OF assms(1,3)] obj_add [OF assms(1,3) make(2)] obj_add_find [OF assms(1,3) make(2)] assms(2)
  by (auto simp: RapidSerializer_ensure_def RapidSerializer_member_def)

lemma rapid_any:
  assumes "repr j J"
  shows "RapidDeserializer_any N j =
    (case J of
       JNull \<Rightarrow> AnyScalar TNull VNull
     | JBool b \<Rightarrow> AnyScalar TBoolean (VBoolean b)
     | JInt i \<Rightarrow> if fits_int32 i then AnyScalar TInteger (VInteger i) else AnyNothing
     | JNum x \<Rightarrow> AnyScalar TNumber (VNumber x)
     | JStr s \<Rightarrow> AnyScalar TString (VString (c_str s))
     | JArr Js \<Rightarrow> AnyArray
     | JObj m \<Rightarrow> AnyObject)"
  using kind_bool [OF assms] kind_int [OF assms] kind_double [OF assms] kind_string [OF assms] kind_null [OF assms]
    kind_object [OF assms] kind_array [OF assms] get [of j] assms
  by (cases J) (simp_all add: RapidDeserializer_any_def)

lemma rapid_integer:
  assumes "repr j (JInt i)"
  shows "RapidDeserializer_integer N j = Some i"
  using kind_int [OF assms] kind_uint [OF assms] kind_int64 [OF assms] get(2-4) [OF assms]
  by (auto simp: RapidDeserializer_integer_def)

lemma rapid_array:
  assumes "repr j (JArr Js)"
  shows "\<exists>js. RapidDeserializer_array N j = Some js \<and> list_all2 repr js Js"
  using kind_array [OF assms] arr_at [OF assms] arr_size [OF assms]
  by (simp add: RapidDeserializer_array_def list_all2_conv_all_nth)

lemma rapid_items:
  assumes "repr j (JObj m)" and "distinct (map fst m)" and "\<forall>k \<in> fst ` set m. z_ok k"
  shows "\<exists>its. RapidDeserializer_items N j = Some its \<and> distinct (map fst its) \<and> fst ` set its = fst ` set m
    \<and> (\<forall>(k, c) \<in> set its. \<exists>J. (k, J) \<in> set m \<and> repr c J)"
proof -
  obtain its where its: "rj_members N j = Some its" "distinct (map fst its)" "fst ` set its = fst ` set m"
      "\<forall>(k, c) \<in> set its. \<exists>J. (k, J) \<in> set m \<and> repr c J"
    using obj_members [OF assms(1,2)] by blast
  have "map (\<lambda>(k, c). (c_str k, c)) its = its"
  proof (rule map_idI)
    fix p assume "p \<in> set its"
    then have "z_ok (fst p)" using its(3) assms(3) by (metis imageI)
    then show "(case p of (k, c) \<Rightarrow> (c_str k, c)) = p" by (cases p) simp
  qed
  with its show ?thesis by (simp add: RapidDeserializer_items_def)
qed

end

sublocale rapid_lib \<subseteq> deserializer "RapidDeserializer N"
proof (unfold_locales, goal_cases)
  case (1 j t x ds)
  then show ?case by (auto simp: RapidDeserializer_def RapidDeserializer_any_def split: if_splits)
next
  case (2 j js)
  then show ?case by (auto simp: RapidDeserializer_def RapidDeserializer_array_def split: if_splits)
qed

sublocale rapid_lib \<subseteq> json_backend "RapidDeserializer N" "RapidSerializer N" repr z_ok fits_int32
proof (unfold_locales, goal_cases)
  case 1
  then show ?case using make(1) by (simp add: RapidSerializer_def)
next
  case (5 s)
  then show ?case using make(6) by (simp add: RapidSerializer_def RapidSerializer_string_def z_ok_def)
next
  case (6 j)
  then show ?case using kind_object [OF 6] make(7) by (simp add: RapidSerializer_def RapidSerializer_object_def)
next
  case (7 j)
  then show ?case
    using kind_object [of j] make(7) by (auto simp: RapidSerializer_def RapidSerializer_object_def)
next
  case (8 j n)
  then show ?case using begins_array [OF 8] by (auto simp: RapidSerializer_def intro!: exI [of _ "replicate n JNull"])
next
  case (9 j Js i)
  then show ?case using arr_at by (simp add: RapidSerializer_def)
next
  case (10 j Js i c J)
  then show ?case using arr_put by (simp add: RapidSerializer_def)
next
  case (11 j m k)
  then show ?case using ensures_member(3) by (simp add: RapidSerializer_def)
next
  case (12 j m k c J)
  then show ?case using obj_put [OF ensures_member(2)] by (simp add: RapidSerializer_def)
next
  case (13 j m k c J)
  then show ?case using obj_remove [OF obj_put [OF ensures_member(2)]] by (simp add: RapidSerializer_def)
next
  case (14 j b)
  then show ?case
    using kind_bool [OF 14] get(1) rapid_any [OF 14] by (simp add: RapidDeserializer_def RapidDeserializer_boolean_def)
next
  case (15 j w)
  then show ?case using rapid_integer by (simp add: RapidDeserializer_def)
next
  case (16 j w)
  then show ?case using rapid_any [OF 16(1)] by (simp add: RapidDeserializer_def)
next
  case (17 j x)
  then show ?case
    using kind_number [OF 17] get(5) rapid_any [OF 17] by (simp add: RapidDeserializer_def RapidDeserializer_number_def)
next
  case (18 j s)
  then show ?case
    using kind_string [OF 18(1)] get(6) rapid_any [OF 18(1)]
    by (simp add: RapidDeserializer_def RapidDeserializer_string_def)
next
  case (19 j)
  then show ?case using rapid_any [OF 19] by (simp add: RapidDeserializer_def)
next
  case (20 j Js)
  then show ?case
    using rapid_array [OF 20] rapid_any [OF 20] arr_size [OF 20] by (simp add: RapidDeserializer_def)
next
  case (21 j m)
  then show ?case using rapid_items [OF 21] rapid_any [OF 21(1)] by (simp add: RapidDeserializer_def)
next
  case (22 j m k J)
  then show ?case
    using obj_find [OF 22(1,2,4)] kind_object [OF 22(1)] by (simp add: RapidDeserializer_def RapidDeserializer_field_def)
next
  case (23 j m k)
  then show ?case
    using obj_find_none [OF 23(1,3)] kind_object [OF 23(1)]
    by (simp add: RapidDeserializer_def RapidDeserializer_field_def)
qed (simp_all add: RapidSerializer_def make)

context rapid_lib
begin

lemmas rapid_reads_back = round_trip

end

subsection \<open>A library that satisfies the requirements\<close>

definition ref_rapid :: "json rapid" where
  "ref_rapid =
     \<lparr>rj_document = JObj [], rj_null = JNull, rj_of_bool = JBool, rj_of_int64 = JInt, rj_of_double = JNum,
      rj_of_string = JStr, rj_empty_object = JObj [], rj_empty_array = JArr [],
      rj_is_bool = (\<lambda>j. case j of JBool _ \<Rightarrow> True | _ \<Rightarrow> False),
      rj_is_int = (\<lambda>j. case j of JInt i \<Rightarrow> fits_int32 i | _ \<Rightarrow> False),
      rj_is_uint = (\<lambda>j. case j of JInt i \<Rightarrow> 0 \<le> sint i \<and> sint i < 2 ^ 32 | _ \<Rightarrow> False),
      rj_is_int64 = (\<lambda>j. case j of JInt i \<Rightarrow> True | _ \<Rightarrow> False),
      rj_is_uint64 = (\<lambda>j. case j of JInt i \<Rightarrow> 0 \<le> sint i | _ \<Rightarrow> False),
      rj_is_number = (\<lambda>j. case j of JInt _ \<Rightarrow> True | JNum _ \<Rightarrow> True | _ \<Rightarrow> False),
      rj_is_double = (\<lambda>j. case j of JNum _ \<Rightarrow> True | _ \<Rightarrow> False),
      rj_is_string = (\<lambda>j. case j of JStr _ \<Rightarrow> True | _ \<Rightarrow> False),
      rj_is_null = (\<lambda>j. j = JNull),
      rj_is_object = (\<lambda>j. case j of JObj _ \<Rightarrow> True | _ \<Rightarrow> False),
      rj_is_array = (\<lambda>j. case j of JArr _ \<Rightarrow> True | _ \<Rightarrow> False),
      rj_get_bool = (\<lambda>j. case j of JBool b \<Rightarrow> b | _ \<Rightarrow> False),
      rj_get_int = (\<lambda>j. case j of JInt i \<Rightarrow> ucast i | _ \<Rightarrow> 0),
      rj_get_uint = (\<lambda>j. case j of JInt i \<Rightarrow> ucast i | _ \<Rightarrow> 0),
      rj_get_int64 = (\<lambda>j. case j of JInt i \<Rightarrow> i | _ \<Rightarrow> 0),
      rj_get_uint64 = (\<lambda>j. case j of JInt i \<Rightarrow> i | _ \<Rightarrow> 0),
      rj_get_double = (\<lambda>j. case j of JNum x \<Rightarrow> x | _ \<Rightarrow> 0),
      rj_get_string = (\<lambda>j. case j of JStr s \<Rightarrow> s | _ \<Rightarrow> []),
      rj_members = (\<lambda>j. case j of JObj m \<Rightarrow> Some m | _ \<Rightarrow> None),
      rj_size = (\<lambda>j. case j of JArr js \<Rightarrow> Some (length js) | _ \<Rightarrow> None),
      rj_at = ref_get_index, rj_put_at = ref_put_index,
      rj_push_back = (\<lambda>j c. case j of JArr js \<Rightarrow> JArr (js @ [c]) | _ \<Rightarrow> j),
      rj_find_member = ref_get_key,
      rj_add_member = (\<lambda>j k c. case j of JObj m \<Rightarrow> JObj (m @ [(k, c)]) | _ \<Rightarrow> j),
      rj_put_member = ref_put_key, rj_remove_member = ref_erase\<rparr>"

lemma scast_ucast_small:
  assumes "fits_int32 i"
  shows "scast (ucast i :: 32 word) = (i :: 64 word)"
proof (rule signed_word_eqI)
  have "sint (ucast i :: 32 word) = signed_take_bit 31 (sint i)"
    by (simp add: sint_uint signed_take_bit_take_bit uint_up_ucast unsigned_ucast_eq)
  also have "\<dots> = sint i"
    using assms by (intro signed_take_bit_int_eq_self) (auto simp: fits_int32_def)
  finally show "sint (scast (ucast i :: 32 word) :: 64 word) = sint i" by (simp add: sint_up_scast is_up)
qed

lemma ucast_ucast_small:
  assumes "0 \<le> sint (i :: 64 word)" and "sint i < 2 ^ 32"
  shows "ucast (ucast i :: 32 word) = i"
proof (rule unsigned_word_eqI)
  have "uint i = take_bit 64 (sint i)" by (simp add: uint_sint)
  also have "\<dots> = sint i" using assms by (intro take_bit_int_eq_self) auto
  finally have u: "uint i < 2 ^ 32" using assms by simp
  have "uint (ucast (ucast i :: 32 word) :: 64 word) = take_bit 32 (uint i)"
    by (simp add: unsigned_ucast_eq unsigned_take_bit_eq)
  also have "\<dots> = uint i" using u by (intro take_bit_int_eq_self) auto
  finally show "uint (ucast (ucast i :: 32 word) :: 64 word) = uint i" .
qed

lemma obj_put_last: "k \<notin> fst ` set m \<Longrightarrow> obj_put (m @ [(k, I)]) k J = m @ [(k, J)]"
  by (induction m) auto

interpretation rj: rapid_lib ref_rapid "(=)"
proof (unfold_locales, goal_cases)
  case (21 j i)
  then show ?case by (auto simp: ref_rapid_def scast_ucast_small)
next
  case (22 j i)
  then show ?case by (auto simp: ref_rapid_def ucast_ucast_small)
next
  case (34 j m k c J)
  then have "map_of m k = None" by (simp add: map_of_eq_None_iff)
  with 34 show ?case by (auto simp: ref_rapid_def map_add_def)
next
  case (36 j m k J)
  then show ?case by (force simp: ref_rapid_def filter_id_conv)
qed (auto simp: ref_rapid_def obj_put_last map_of_eq_None_iff split: json.splits)

subsection \<open>Properties\<close>

text \<open>
  Round trip through the RapidJSON back end, for every library that behaves as documented: an object
  whose strings have no zero byte and fewer than 2^32 bytes, and whose integers inside an \<^verbatim>\<open>any\<close> fit into
  32 bits, is serialised without error, and deserialising the document gives an equal object.
\<close>

theorem rapid_round_trip:
  assumes "rapid_lib N repr" and "wf_env E" and "type_ok E T"
    and "portable z_ok fits_int32 E T v" and "\<not> is_optional T"
  shows "\<exists>j J. ser (RapidSerializer N) E T v (rj_null N) False = (True, j, False) \<and> repr j J
    \<and> (\<forall>i f. repr i J \<longrightarrow> jdepth J \<le> f \<longrightarrow>
         (\<exists>v'. deser (RapidDeserializer N) E f T (Some i) (default_of (e_decls E) T) = Some (True, v')
            \<and> norm v' = norm v))"
  using rapid_lib.rapid_reads_back [OF assms rapid_lib.make(2) [OF assms(1)]] by blast

lemma test_object_z_portable: "portable z_ok fits_int32 test_env (TStruct ''JSONTestObject'') test_object"
  by code_simp

theorem rapid_round_trip_witness:
  "\<exists>j v'. ser (RapidSerializer ref_rapid) test_env (TStruct ''JSONTestObject'') test_object JNull False = (True, j, False)
    \<and> deser (RapidDeserializer ref_rapid) test_env (jdepth j) (TStruct ''JSONTestObject'') (Some j)
        (default_of (e_decls test_env) (TStruct ''JSONTestObject'')) = Some (True, v')
    \<and> norm v' = norm test_object"
proof -
  have null: "rj_null ref_rapid = JNull" by (simp add: ref_rapid_def)
  show ?thesis
    using rapid_round_trip [OF rj.rapid_lib_axioms test_env_ok(1,2) test_object_z_portable]
    unfolding null by force
qed

text \<open>
  The back ends disagree on integers: an \<^verbatim>\<open>any\<close> that holds an integer of more than 32 bits is serialised
  by the RapidJSON back end, but its deserialisation fails and leaves the \<^verbatim>\<open>any\<close> as it was, where the
  nlohmann back end reads the integer back.
\<close>

theorem rapid_any_rejects_wide_integers:
  assumes "rapid_lib N repr" and "\<not> fits_int32 i"
  shows "\<exists>j. ser (RapidSerializer N) E TAny (VAny (Some (TInteger, VInteger i))) (rj_null N) False = (True, j, False)
    \<and> deser (RapidDeserializer N) E f TAny (Some j) (VAny None) = Some (False, VAny None)
    \<and> deser (NlohmannDeserializer ref_nlohmann) E f TAny (Some (JInt i)) (VAny None)
        = Some (True, VAny (Some (TInteger, VInteger i)))"
proof -
  have "d_any (RapidDeserializer N) (rj_of_int64 N i) = AnyNothing"
    using rapid_lib.rapid_any [OF assms(1) rapid_lib.make(4) [OF assms(1)], of i] assms(2)
    by (simp add: RapidDeserializer_def)
  moreover have "d_any (NlohmannDeserializer ref_nlohmann) (JInt i) = AnyScalar TInteger (VInteger i)"
    by (simp add: nlohmann_defs ref_nlohmann_def)
  ultimately show ?thesis by (simp add: RapidSerializer_def)
qed

theorem rapid_any_rejects_wide_integers_witness:
  "\<exists>j. ser (RapidSerializer ref_rapid) test_env TAny (VAny (Some (TInteger, VInteger 0x80000000))) (rj_null ref_rapid) False
      = (True, j, False)
    \<and> deser (RapidDeserializer ref_rapid) test_env 1 TAny (Some j) (VAny None) = Some (False, VAny None)
    \<and> deser (NlohmannDeserializer ref_nlohmann) test_env 1 TAny (Some (JInt 0x80000000)) (VAny None)
        = Some (True, VAny (Some (TInteger, VInteger 0x80000000)))"
proof (rule rapid_any_rejects_wide_integers [OF rj.rapid_lib_axioms])
  show "\<not> fits_int32 0x80000000" by (simp add: fits_int32_def)
qed

end
