(* ===== verification/JsonCppJson.thy ===== *)
theory JsonCppJson
  imports NlohmannJson
begin

section \<open>The JsonCpp back end\<close>

text \<open>
  \<^verbatim>\<open>src/jsoncpp_json_serializer.{h,cpp}\<close>. The library JsonCpp is not part of the sources: the record
  \<open>jsoncpp\<close> has the operations of \<^verbatim>\<open>Json::Value\<close> that the back end calls, and the locale \<open>jsoncpp_lib\<close> what it
  relies on of them. Indices are numbers of type \<^verbatim>\<open>ArrayIndex\<close>, 32 bits wide.
\<close>

record 'j jsoncpp =
  jc_null :: "'j"
  jc_of_bool :: "bool \<Rightarrow> 'j"
  jc_of_int64 :: "int64 \<Rightarrow> 'j"
  jc_of_double :: "number \<Rightarrow> 'j"
  jc_of_string :: "string \<Rightarrow> 'j"
  jc_object_value :: "'j"
  jc_array_value :: "'j"
  jc_isBool :: "'j \<Rightarrow> bool"
  jc_isInt64 :: "'j \<Rightarrow> bool"
  jc_isNumeric :: "'j \<Rightarrow> bool"
  jc_is_realValue :: "'j \<Rightarrow> bool"
  jc_isString :: "'j \<Rightarrow> bool"
  jc_isObject :: "'j \<Rightarrow> bool"
  jc_isArray :: "'j \<Rightarrow> bool"
  jc_isNull :: "'j \<Rightarrow> bool"
  jc_asBool :: "'j \<Rightarrow> bool"
  jc_asInt64 :: "'j \<Rightarrow> int64"
  jc_asDouble :: "'j \<Rightarrow> number"
  jc_asString :: "'j \<Rightarrow> string"
  jc_size :: "'j \<Rightarrow> nat"
  jc_entries :: "'j \<Rightarrow> (string \<times> 'j) list"
  jc_find :: "'j \<Rightarrow> string \<Rightarrow> 'j option"
  jc_ref_key :: "'j \<Rightarrow> string \<Rightarrow> 'j"
  jc_put_key :: "'j \<Rightarrow> string \<Rightarrow> 'j \<Rightarrow> 'j"
  jc_ref_index :: "'j \<Rightarrow> 32 word \<Rightarrow> 'j"
  jc_put_index :: "'j \<Rightarrow> 32 word \<Rightarrow> 'j \<Rightarrow> 'j"
  jc_removeMember :: "'j \<Rightarrow> string \<Rightarrow> 'j"

subsection \<open>JsonCppDeserializer\<close>

definition JsonCppDeserializer_boolean :: "'j jsoncpp \<Rightarrow> 'j \<Rightarrow> bool option" where
  "JsonCppDeserializer_boolean N j = (if \<not> jc_isBool N j then None else Some (jc_asBool N j))"

definition JsonCppDeserializer_integer :: "'j jsoncpp \<Rightarrow> 'j \<Rightarrow> int64 option" where
  "JsonCppDeserializer_integer N j = (if \<not> jc_isInt64 N j then None else Some (jc_asInt64 N j))"

definition JsonCppDeserializer_number :: "'j jsoncpp \<Rightarrow> 'j \<Rightarrow> number option" where
  "JsonCppDeserializer_number N j = (if \<not> jc_isNumeric N j then None else Some (jc_asDouble N j))"

definition JsonCppDeserializer_string :: "'j jsoncpp \<Rightarrow> 'j \<Rightarrow> string option" where
  "JsonCppDeserializer_string N j = (if \<not> jc_isString N j then None else Some (jc_asString N j))"

definition JsonCppDeserializer_any :: "'j jsoncpp \<Rightarrow> 'j \<Rightarrow> any_case" where
  "JsonCppDeserializer_any N j =
     (if jc_isBool N j then AnyScalar TBoolean (VBoolean (jc_asBool N j))
      else if jc_is_realValue N j then AnyScalar TNumber (VNumber (jc_asDouble N j))
      else if jc_isInt64 N j then AnyScalar TInteger (VInteger (jc_asInt64 N j))
      else if jc_isString N j then AnyScalar TString (VString (jc_asString N j))
      else if jc_isObject N j then AnyObject
      else if jc_isArray N j then AnyArray
      else if jc_isNull N j then AnyScalar TNull VNull
      else AnyNothing)"

text \<open>The range-based loop over an array visits the values that the iterators visit.\<close>

definition JsonCppDeserializer_array :: "'j jsoncpp \<Rightarrow> 'j \<Rightarrow> 'j list option" where
  "JsonCppDeserializer_array N j = (if \<not> jc_isArray N j then None else Some (map snd (jc_entries N j)))"

definition JsonCppDeserializer_field :: "'j jsoncpp \<Rightarrow> 'j \<Rightarrow> string \<Rightarrow> 'j option option" where
  "JsonCppDeserializer_field N j name = (if \<not> jc_isObject N j then None else Some (jc_find N j name))"

definition JsonCppDeserializer :: "'j jsoncpp \<Rightarrow> 'j Deserializer" where
  "JsonCppDeserializer N =
     \<lparr>d_boolean = JsonCppDeserializer_boolean N,
      d_integer = JsonCppDeserializer_integer N,
      d_number = JsonCppDeserializer_number N,
      d_string = JsonCppDeserializer_string N,
      d_items = (\<lambda>j. Some (jc_entries N j)),
      d_any = JsonCppDeserializer_any N,
      d_count = (\<lambda>j. Some (jc_size N j)),
      d_array = JsonCppDeserializer_array N,
      d_field = JsonCppDeserializer_field N\<rparr>"

subsection \<open>JsonCppSerializer\<close>

definition JsonCppSerializer_open_object :: "'j jsoncpp \<Rightarrow> 'j \<Rightarrow> 'j" where
  "JsonCppSerializer_open_object N j = (if \<not> jc_isObject N j then jc_object_value N else j)"

definition JsonCppSerializer :: "'j jsoncpp \<Rightarrow> 'j Serializer" where
  "JsonCppSerializer N =
     \<lparr>s_new = jc_null N,
      s_boolean = jc_of_bool N,
      s_integer = jc_of_int64 N,
      s_number = jc_of_double N,
      s_string = jc_of_string N,
      s_open_object = JsonCppSerializer_open_object N,
      s_begin_object = (\<lambda>j. jc_object_value N),
      s_begin_array = (\<lambda>j n. jc_array_value N),
      s_member = jc_ref_key N,
      s_set_member = jc_put_key N,
      s_elem = (\<lambda>j i. jc_ref_index N j (of_nat i)),
      s_set_elem = (\<lambda>j i. jc_put_index N j (of_nat i)),
      s_erase = jc_removeMember N\<rparr>"

lemmas jsoncpp_defs =
  JsonCppDeserializer_def JsonCppDeserializer_boolean_def JsonCppDeserializer_integer_def
  JsonCppDeserializer_number_def JsonCppDeserializer_string_def JsonCppDeserializer_any_def
  JsonCppDeserializer_array_def JsonCppDeserializer_field_def
  JsonCppSerializer_def JsonCppSerializer_open_object_def

subsection \<open>What the back end relies on\<close>

lemma index_word: "n < 2 ^ 32 \<Longrightarrow> unat (of_nat n :: 32 word) = n"
  by (simp add: unsigned_of_nat take_bit_nat_eq_self)

text \<open>
  The documented behaviour. \<^verbatim>\<open>isInt64()\<close> also holds of a real value that is a whole number, so nothing is
  required of it for real values; \<^verbatim>\<open>operator[]\<close> with the index after the last element appends a null.
\<close>

locale jsoncpp_lib =
  fixes N :: "'j jsoncpp"
    and repr :: "'j \<Rightarrow> json \<Rightarrow> bool"
    and depth :: "'j \<Rightarrow> nat"
  assumes kind_bool: "repr j J \<Longrightarrow> jc_isBool N j \<longleftrightarrow> (\<exists>b. J = JBool b)"
    and kind_int64: "repr j J \<Longrightarrow> (\<forall>x. J \<noteq> JNum x) \<Longrightarrow> jc_isInt64 N j \<longleftrightarrow> (\<exists>i. J = JInt i)"
    and kind_numeric: "repr j J \<Longrightarrow> jc_isNumeric N j \<longleftrightarrow> (\<exists>i. J = JInt i) \<or> (\<exists>x. J = JNum x)"
    and kind_real: "repr j J \<Longrightarrow> jc_is_realValue N j \<longleftrightarrow> (\<exists>x. J = JNum x)"
    and kind_string: "repr j J \<Longrightarrow> jc_isString N j \<longleftrightarrow> (\<exists>s. J = JStr s)"
    and kind_object: "repr j J \<Longrightarrow> jc_isObject N j \<longleftrightarrow> (\<exists>m. J = JObj m)"
    and kind_array: "repr j J \<Longrightarrow> jc_isArray N j \<longleftrightarrow> (\<exists>Js. J = JArr Js)"
    and kind_null: "repr j J \<Longrightarrow> jc_isNull N j \<longleftrightarrow> J = JNull"
    and array_count: "jc_isArray N j \<Longrightarrow> jc_size N j = length (jc_entries N j)"
    and make: "repr (jc_null N) JNull" "repr (jc_of_bool N b) (JBool b)" "repr (jc_of_int64 N i) (JInt i)"
      "repr (jc_of_double N x) (JNum x)" "repr (jc_of_string N s) (JStr s)"
      "repr (jc_object_value N) (JObj [])" "repr (jc_array_value N) (JArr [])"
    and get: "repr j (JBool b) \<Longrightarrow> jc_asBool N j = b" "repr j (JInt i) \<Longrightarrow> jc_asInt64 N j = i"
      "repr j (JNum x) \<Longrightarrow> jc_asDouble N j = x" "repr j (JStr s) \<Longrightarrow> jc_asString N j = s"
    and arr_entries: "repr j (JArr Js) \<Longrightarrow> list_all2 repr (map snd (jc_entries N j)) Js"
    and arr_ref: "repr j (JArr Js) \<Longrightarrow> unat n \<le> length Js \<Longrightarrow>
      repr (jc_ref_index N j n) (if unat n < length Js then Js ! unat n else JNull)"
    and arr_put: "repr j (JArr Js) \<Longrightarrow> unat n \<le> length Js \<Longrightarrow> repr c J \<Longrightarrow>
      repr (jc_put_index N j n c) (JArr (if unat n < length Js then Js[unat n := J] else Js @ [J]))"
    and obj_entries: "repr j (JObj m) \<Longrightarrow> distinct (map fst m) \<Longrightarrow>
      distinct (map fst (jc_entries N j)) \<and> fst ` set (jc_entries N j) = fst ` set m
      \<and> (\<forall>(k, c) \<in> set (jc_entries N j). \<exists>J. (k, J) \<in> set m \<and> repr c J)"
    and obj_find: "repr j (JObj m) \<Longrightarrow> distinct (map fst m) \<Longrightarrow> map_of m k = Some J \<Longrightarrow>
      \<exists>c. jc_find N j k = Some c \<and> repr c J"
    and obj_find_none: "repr j (JObj m) \<Longrightarrow> k \<notin> fst ` set m \<Longrightarrow> jc_find N j k = None"
    and obj_ref_new: "repr j (JObj m) \<Longrightarrow> k \<notin> fst ` set m \<Longrightarrow> repr (jc_ref_key N j k) JNull"
    and obj_put_new: "repr j (JObj m) \<Longrightarrow> k \<notin> fst ` set m \<Longrightarrow> repr c J \<Longrightarrow>
      repr (jc_put_key N j k c) (JObj (m @ [(k, J)]))"
    and obj_remove: "repr j (JObj (m @ [(k, J)])) \<Longrightarrow> k \<notin> fst ` set m \<Longrightarrow> repr (jc_removeMember N j k) (JObj m)"
    and entries_nest: "(k, c) \<in> set (jc_entries N j) \<Longrightarrow> depth c < depth j"
    and find_nest: "jc_find N j k = Some c \<Longrightarrow> depth c < depth j"
begin

lemma jsoncpp_any:
  assumes "repr j J"
  shows "JsonCppDeserializer_any N j =
    (case J of
       JNull \<Rightarrow> AnyScalar TNull VNull
     | JBool b \<Rightarrow> AnyScalar TBoolean (VBoolean b)
     | JInt i \<Rightarrow> AnyScalar TInteger (VInteger i)
     | JNum x \<Rightarrow> AnyScalar TNumber (VNumber x)
     | JStr s \<Rightarrow> AnyScalar TString (VString s)
     | JArr Js \<Rightarrow> AnyArray
     | JObj m \<Rightarrow> AnyObject)"
  using kind_bool [OF assms] kind_int64 [OF assms] kind_real [OF assms] kind_string [OF assms]
    kind_null [OF assms] kind_object [OF assms] kind_array [OF assms] get [of j] assms
  by (cases J) (simp_all add: JsonCppDeserializer_any_def)

lemma jsoncpp_grows: "grows (JsonCppSerializer N) repr"
proof -
  have u: "unat (of_nat (length Js) :: 32 word) = length Js" if "length Js < 2 ^ 32" for Js :: "json list"
    using that by (simp add: index_word)
  have "repr (jc_ref_index N j (of_nat (length Js))) JNull" if "repr j (JArr Js)" "length Js < 2 ^ 32" for j Js
    using arr_ref [OF that(1), of "of_nat (length Js)"] u [OF that(2)] by simp
  moreover have "repr (jc_put_index N j (of_nat (length Js)) c) (JArr (Js @ [J]))"
    if "repr j (JArr Js)" "length Js < 2 ^ 32" "repr c J" for j Js c J
    using arr_put [OF that(1) _ that(3), of "of_nat (length Js)"] u [OF that(2)] by simp
  ultimately show ?thesis by (simp add: grows_def JsonCppSerializer_def)
qed

end

sublocale jsoncpp_lib \<subseteq> total_deserializer "JsonCppDeserializer N" depth
proof (unfold_locales, goal_cases)
  case (1 j t x ds)
  then show ?case by (auto simp: jsoncpp_defs split: if_splits)
next
  case (2 j js)
  then show ?case using array_count by (auto simp: jsoncpp_defs split: if_splits)
next
  case (5 j its k c)
  then show ?case using entries_nest [of k c j] by (auto simp: jsoncpp_defs)
next
  case (6 j js c)
  then show ?case using entries_nest by (auto simp: jsoncpp_defs split: if_splits)
next
  case (7 j k c)
  then show ?case using find_nest by (auto simp: jsoncpp_defs split: if_splits)
qed (simp_all add: jsoncpp_defs)

sublocale jsoncpp_lib \<subseteq>
  json_backend "JsonCppDeserializer N" "JsonCppSerializer N" repr "\<lambda>s. True" "\<lambda>i. True"
proof (unfold_locales, goal_cases)
  case (6 j)
  then show ?case using kind_object [of j JNull] make(6) by (simp add: jsoncpp_defs)
next
  case (8 j n)
  then show ?case using make(7) jsoncpp_grows by (auto simp: JsonCppSerializer_def)
next
  case (9 j Js i)
  then show ?case using arr_ref [of j Js "of_nat i"] by (simp add: JsonCppSerializer_def index_word)
next
  case (10 j Js i c J)
  then show ?case using arr_put [of j Js "of_nat i"] by (simp add: JsonCppSerializer_def index_word)
next
  case (13 j m k c J)
  then show ?case using obj_remove [OF obj_put_new] by (simp add: JsonCppSerializer_def)
next
  case (14 j b)
  then show ?case
    using kind_bool [OF 14] get(1) jsoncpp_any [OF 14] by (simp add: JsonCppDeserializer_def JsonCppDeserializer_boolean_def)
next
  case (15 j w)
  then show ?case
    using kind_int64 [OF 15] get(2) by (simp add: JsonCppDeserializer_def JsonCppDeserializer_integer_def)
next
  case (17 j x)
  then show ?case
    using kind_numeric [OF 17] get(3) jsoncpp_any [OF 17]
    by (simp add: JsonCppDeserializer_def JsonCppDeserializer_number_def)
next
  case (18 j s)
  then show ?case
    using kind_string [OF 18(1)] get(4) jsoncpp_any [OF 18(1)]
    by (simp add: JsonCppDeserializer_def JsonCppDeserializer_string_def)
next
  case (20 j Js)
  then show ?case
    using arr_entries [OF 20] jsoncpp_any [OF 20] array_count [of j] kind_array [OF 20] list_all2_lengthD [OF arr_entries [OF 20]]
    by (simp add: JsonCppDeserializer_def JsonCppDeserializer_array_def)
next
  case (21 j m)
  then show ?case
    using obj_entries [OF 21(1,2)] jsoncpp_any [OF 21(1)] by (simp add: JsonCppDeserializer_def)
next
  case (22 j m k J)
  then show ?case
    using obj_find [OF 22(1,2,4)] kind_object [OF 22(1)]
    by (simp add: JsonCppDeserializer_def JsonCppDeserializer_field_def)
next
  case (23 j m k)
  then show ?case
    using obj_find_none [OF 23(1,3)] kind_object [OF 23(1)]
    by (simp add: JsonCppDeserializer_def JsonCppDeserializer_field_def)
qed (simp_all add: JsonCppSerializer_def JsonCppDeserializer_def make obj_ref_new obj_put_new jsoncpp_any)

context jsoncpp_lib
begin

lemmas jsoncpp_reads_back = round_trip

end

subsection \<open>A library that satisfies the requirements\<close>

fun ref_entries :: "json \<Rightarrow> (string \<times> json) list" where
  "ref_entries (JObj m) = m"
| "ref_entries (JArr js) = map (Pair []) js"
| "ref_entries j = []"

definition ref_jsoncpp :: "json jsoncpp" where
  "ref_jsoncpp =
     \<lparr>jc_null = JNull, jc_of_bool = JBool, jc_of_int64 = JInt, jc_of_double = JNum, jc_of_string = JStr,
      jc_object_value = JObj [], jc_array_value = JArr [],
      jc_isBool = (\<lambda>j. case j of JBool _ \<Rightarrow> True | _ \<Rightarrow> False),
      jc_isInt64 = (\<lambda>j. case j of JInt _ \<Rightarrow> True | _ \<Rightarrow> False),
      jc_isNumeric = (\<lambda>j. case j of JInt _ \<Rightarrow> True | JNum _ \<Rightarrow> True | _ \<Rightarrow> False),
      jc_is_realValue = (\<lambda>j. case j of JNum _ \<Rightarrow> True | _ \<Rightarrow> False),
      jc_isString = (\<lambda>j. case j of JStr _ \<Rightarrow> True | _ \<Rightarrow> False),
      jc_isObject = (\<lambda>j. case j of JObj _ \<Rightarrow> True | _ \<Rightarrow> False),
      jc_isArray = (\<lambda>j. case j of JArr _ \<Rightarrow> True | _ \<Rightarrow> False),
      jc_isNull = (\<lambda>j. j = JNull),
      jc_asBool = (\<lambda>j. case j of JBool b \<Rightarrow> b | _ \<Rightarrow> False),
      jc_asInt64 = (\<lambda>j. case j of JInt i \<Rightarrow> i | _ \<Rightarrow> 0),
      jc_asDouble = (\<lambda>j. case j of JNum x \<Rightarrow> x | _ \<Rightarrow> 0),
      jc_asString = (\<lambda>j. case j of JStr s \<Rightarrow> s | _ \<Rightarrow> []),
      jc_size = (\<lambda>j. length (ref_entries j)), jc_entries = ref_entries, jc_find = ref_get_key,
      jc_ref_key = (\<lambda>j k. case ref_get_key j k of None \<Rightarrow> JNull | Some c \<Rightarrow> c),
      jc_put_key = ref_put_key,
      jc_ref_index = (\<lambda>j n. ref_get_index j (unat n)), jc_put_index = (\<lambda>j n. ref_put_index j (unat n)),
      jc_removeMember = ref_erase\<rparr>"

lemma ref_entries_nest: "(k, c) \<in> set (ref_entries j) \<Longrightarrow> jdepth c < jdepth j"
  using jdepth_member [of k c] jdepth_elem [of c] by (cases j) (auto simp del: jdepth.simps)

interpretation jc: jsoncpp_lib ref_jsoncpp "(=)" jdepth
proof (unfold_locales, goal_cases)
  case (26 j m k)
  then have "map_of m k = None" by (simp add: map_of_eq_None_iff)
  with 26 show ?case by (auto simp: ref_jsoncpp_def)
next
  case (27 j m k)
  then have "map_of m k = None" by (simp add: map_of_eq_None_iff)
  with 27 show ?case by (auto simp: ref_jsoncpp_def)
next
  case (29 j m k J)
  then show ?case by (force simp: ref_jsoncpp_def filter_id_conv)
next
  case (30 k c j)
  then show ?case using ref_entries_nest by (simp add: ref_jsoncpp_def)
next
  case (31 j k c)
  then show ?case using ref_find_nest by (simp add: ref_jsoncpp_def)
qed (auto simp: ref_jsoncpp_def obj_put_fresh map_of_eq_None_iff list.rel_eq comp_def split: json.splits)

end
