(* ===== verification/BackEnds.thy ===== *)
theory BackEnds
  imports NlohmannJson RapidJson JsonCppJson
begin

text \<open>
  The build selects one of three JSON libraries (\<^verbatim>\<open>CPPDAP_JSON_LIBRARY\<close>), and the two ends of a
  connection may have been built with different ones. The three back ends write the same document
  for the same object, \<open>json_of\<close>, and each reads the document of either of the others, for the
  objects that the most restrictive of them, RapidJSON, carries: strings with no NUL byte and, inside
  an \<^verbatim>\<open>any\<close>, integers of 32 bits.
\<close>

lemma portable_unrestricted:
  shows "portable P Q E T v \<Longrightarrow> portable (\<lambda>s. True) (\<lambda>i. True) E T v"
    and "portable_elems P Q E T vs \<Longrightarrow> portable_elems (\<lambda>s. True) (\<lambda>i. True) E T vs"
    and "portable_members P Q E ms \<Longrightarrow> portable_members (\<lambda>s. True) (\<lambda>i. True) E ms"
    and "portable_fields P Q E fds vs \<Longrightarrow> portable_fields (\<lambda>s. True) (\<lambda>i. True) E fds vs"
proof (induction P Q E T v and P Q E T vs and P Q E ms and P Q E fds vs
    rule: portable_portable_elems_portable_members_portable_fields.induct)
  case (7 P Q E v)
  from 7(2) obtain a where a: "v = VAny a" by (cases v) simp_all
  moreover from 7(2) obtain t x where "a = Some (t, x)" unfolding a by (cases a) auto
  ultimately have v: "v = VAny (Some (t, x))" by simp
  show ?case using 7(1) [OF v refl refl] 7(2) unfolding v by (cases x) auto
next
  case (10 P Q E ts v)
  then show ?case by (cases v) (auto simp del: portable.simps(7))
next
  case (15 P Q E k v ms)
  then show ?case by (simp del: portable.simps(7))
next
  case (11 P Q E s v)
  then show ?case by (cases v) auto
next
  case (6 P Q E v)
  then show ?case by (cases v) auto
next
  case (8 P Q E t v)
  then show ?case by (cases v) auto
next
  case (9 P Q E t v)
  then show ?case by (cases v) auto
qed (auto split: val.splits if_splits)

text \<open>
  \<open>reads_back\<close>: whatever node represents the document, the deserialiser reads an object equal to \<open>v\<close>
  from it, with the depth of the document as enough fuel.
\<close>

definition reads_back ::
  "'n Deserializer \<Rightarrow> ('n \<Rightarrow> json \<Rightarrow> bool) \<Rightarrow> env \<Rightarrow> dap_type \<Rightarrow> val \<Rightarrow> json \<Rightarrow> bool"
where
  "reads_back D repr E T v J \<longleftrightarrow>
     (\<forall>i f. repr i J \<longrightarrow> jdepth J \<le> f \<longrightarrow>
        (\<exists>v'. deser D E f T (Some i) (default_of (e_decls E) T) = Some (True, v') \<and> norm v' = norm v))"

lemma reads_backD:
  assumes "reads_back D repr E T v J" and "repr i J" and "jdepth J \<le> f"
  shows "\<exists>v'. deser D E f T (Some i) (default_of (e_decls E) T) = Some (True, v') \<and> norm v' = norm v"
  using assms by (simp add: reads_back_def)

text \<open>
  C7. The three back ends are interchangeable: for every portable object they build nodes that represent
  one and the same document, the one \<open>json_of\<close> prescribes, and each of them reads an equal object back
  from that document, whichever of the three wrote it.
\<close>

theorem back_ends_agree:
  assumes N: "nlohmann_lib N rn dn" and R: "rapid_lib R rr" and C: "jsoncpp_lib C rc dc"
    and wf: "wf_env E" "type_ok E T" and v: "portable z_ok fits_int32 E T v" "\<not> is_optional T"
  shows "\<exists>J a b c. json_of E T v = Some J
    \<and> ser (NlohmannSerializer N) E T v (nj_null N) False = (True, a, False) \<and> rn a J
    \<and> ser (RapidSerializer R) E T v (rj_null R) False = (True, b, False) \<and> rr b J
    \<and> ser (JsonCppSerializer C) E T v (jc_null C) False = (True, c, False) \<and> rc c J
    \<and> reads_back (NlohmannDeserializer N) rn E T v J
    \<and> reads_back (RapidDeserializer R) rr E T v J
    \<and> reads_back (JsonCppDeserializer C) rc E T v J"
  using nlohmann_lib.nlohmann_reads_back
          [OF N wf portable_unrestricted(1) [OF v(1)] v(2) nlohmann_lib.make(1) [OF N]]
    rapid_lib.rapid_reads_back [OF R wf v rapid_lib.make(2) [OF R]]
    jsoncpp_lib.jsoncpp_reads_back
      [OF C wf portable_unrestricted(1) [OF v(1)] v(2) jsoncpp_lib.make(1) [OF C]]
  unfolding reads_back_def by force

theorem back_ends_agree_witness:
  "\<exists>J a b c. json_of test_env (TStruct ''JSONTestObject'') test_object = Some J
    \<and> ser (NlohmannSerializer ref_nlohmann) test_env (TStruct ''JSONTestObject'') test_object (nj_null ref_nlohmann) False
        = (True, a, False) \<and> a = J
    \<and> ser (RapidSerializer ref_rapid) test_env (TStruct ''JSONTestObject'') test_object (rj_null ref_rapid) False
        = (True, b, False) \<and> b = J
    \<and> ser (JsonCppSerializer ref_jsoncpp) test_env (TStruct ''JSONTestObject'') test_object (jc_null ref_jsoncpp) False
        = (True, c, False) \<and> c = J
    \<and> reads_back (NlohmannDeserializer ref_nlohmann) (=) test_env (TStruct ''JSONTestObject'') test_object J
    \<and> reads_back (RapidDeserializer ref_rapid) (=) test_env (TStruct ''JSONTestObject'') test_object J
    \<and> reads_back (JsonCppDeserializer ref_jsoncpp) (=) test_env (TStruct ''JSONTestObject'') test_object J"
  by (rule back_ends_agree [OF nj.nlohmann_lib_axioms rj.rapid_lib_axioms jc.jsoncpp_lib_axioms
        test_env_ok(1,2) test_object_z_portable]) simp

end
