(* ===== verification/BackEndSessions.thy ===== *)
theory BackEndSessions
  imports BackEnds Sessions
begin

text \<open>
  The session compiled against the other two JSON libraries: what \<^verbatim>\<open>json::Deserializer(str)\<close> and
  \<^verbatim>\<open>json::Serializer::dump()\<close> are in \<^verbatim>\<open>rapid_json_serializer.cpp\<close> and \<^verbatim>\<open>jsoncpp_json_serializer.cpp\<close>.
  Both give the contract \<open>session_link\<close>, so everything proved of an exchange of messages in
  \<open>Endpoints\<close> holds for them too, and both are interpreted on a library that satisfies it.
\<close>

section \<open>RapidJSON\<close>

text \<open>
  Text goes in and out as a C string. A text that does not parse leaves the document in the state its
  default constructor gave it, which is null: \<open>parse\<close> is total.
\<close>

definition rapid_setup ::
  "env \<Rightarrow> 'j rapid \<Rightarrow> (string \<Rightarrow> 'j) \<Rightarrow> ('j \<Rightarrow> string) \<Rightarrow> ('j \<Rightarrow> nat) \<Rightarrow> 'j json_setup" where
  "rapid_setup E N parse dump depth =
     \<lparr>js_env = E, js_in = RapidDeserializer N, js_out = RapidSerializer N,
      js_parse = (\<lambda>t. Some (parse (c_str t))), js_dump = (\<lambda>j. Some (c_str (dump j))), js_depth = depth\<rparr>"

lemma message_words_z_ok: "k \<in> set message_words \<Longrightarrow> z_ok k"
  by (auto simp: message_words_def z_ok_def)

locale rapid_text = rapid_lib N repr
  for N :: "'j rapid" and repr +
  fixes parse :: "string \<Rightarrow> 'j" and dump :: "'j \<Rightarrow> string" and depth :: "'j \<Rightarrow> nat" and carried :: "json \<Rightarrow> bool"
  assumes dump_parses: "repr j X \<Longrightarrow> carried X \<Longrightarrow>
      NUL \<notin> set (dump j) \<and> message_ok (dump j) \<and> repr (parse (dump j)) X"
    and depth_enough: "repr j X \<Longrightarrow> jdepth X \<le> depth j"
begin

lemma session_json: "session_json (rapid_setup E N parse dump depth) repr z_ok fits_int32 carried"
proof (rule session_json.intro)
  show "json_backend (js_in (rapid_setup E N parse dump depth)) (js_out (rapid_setup E N parse dump depth))
      repr z_ok fits_int32"
    using json_backend_axioms by (simp add: rapid_setup_def)
  show "session_json_axioms (rapid_setup E N parse dump depth) repr z_ok carried"
    by unfold_locales (use dump_parses depth_enough message_words_z_ok in \<open>auto simp: rapid_setup_def c_str_id\<close>)
qed

lemma pipe_link:
  "session_link (rapid_setup E N parse dump depth) repr z_ok fits_int32 carried
     Pipe_Reader pipe_contents (\<lambda>_. True) Pipe_Writer"
  by (intro session_link.intro session_json pipe.loopback_axioms)

end

definition z_carried :: "json \<Rightarrow> bool" where
  "z_carried j \<longleftrightarrow> NUL \<notin> set (print_json j) \<and> ref_carried j"

interpretation z_text: rapid_text ref_rapid "(=)" ref_parse print_json jdepth z_carried
  by unfold_locales (auto simp: z_carried_def ref_carried_def ref_parse_print message_ok_def)

section \<open>JsonCpp\<close>

text \<open>\<open>parse\<close> is \<^term>\<open>None\<close> where \<^verbatim>\<open>CharReader::parse\<close> reports an error, and then the program stops.\<close>

definition jsoncpp_setup ::
  "env \<Rightarrow> 'j jsoncpp \<Rightarrow> (string \<Rightarrow> 'j option) \<Rightarrow> ('j \<Rightarrow> string) \<Rightarrow> ('j \<Rightarrow> nat) \<Rightarrow> 'j json_setup" where
  "jsoncpp_setup E N parse dump depth =
     \<lparr>js_env = E, js_in = JsonCppDeserializer N, js_out = JsonCppSerializer N,
      js_parse = parse, js_dump = (\<lambda>j. Some (dump j)), js_depth = depth\<rparr>"

locale jsoncpp_text = jsoncpp_lib N repr depth
  for N :: "'j jsoncpp" and repr depth +
  fixes parse :: "string \<Rightarrow> 'j option" and dump :: "'j \<Rightarrow> string" and carried :: "json \<Rightarrow> bool"
  assumes dump_parses: "repr j X \<Longrightarrow> carried X \<Longrightarrow>
      message_ok (dump j) \<and> (\<exists>i. parse (dump j) = Some i \<and> repr i X)"
    and depth_enough: "repr j X \<Longrightarrow> jdepth X \<le> depth j"
begin

lemma session_json: "session_json (jsoncpp_setup E N parse dump depth) repr (\<lambda>_. True) (\<lambda>_. True) carried"
proof (rule session_json.intro)
  show "json_backend (js_in (jsoncpp_setup E N parse dump depth)) (js_out (jsoncpp_setup E N parse dump depth))
      repr (\<lambda>_. True) (\<lambda>_. True)"
    using json_backend_axioms by (simp add: jsoncpp_setup_def)
  show "session_json_axioms (jsoncpp_setup E N parse dump depth) repr (\<lambda>_. True) carried"
    by unfold_locales (use dump_parses depth_enough in \<open>auto simp: jsoncpp_setup_def\<close>)
qed

lemma pipe_link:
  "session_link (jsoncpp_setup E N parse dump depth) repr (\<lambda>_. True) (\<lambda>_. True) carried
     Pipe_Reader pipe_contents (\<lambda>_. True) Pipe_Writer"
  by (intro session_link.intro session_json pipe.loopback_axioms)

end

definition strict_parse :: "string \<Rightarrow> json option" where
  "strict_parse t = (case parse_json (length t) t of Some (j, []) \<Rightarrow> Some j | _ \<Rightarrow> None)"

lemma strict_parse_print: "strict_parse (print_json j) = Some j"
  using parse_print_aux(1) [of j "length (print_json j)" "[]"] by (simp add: strict_parse_def)

interpretation strict_text: jsoncpp_text ref_jsoncpp "(=)" jdepth strict_parse print_json ref_carried
  by unfold_locales (auto simp: ref_carried_def strict_parse_print message_ok_def)

section \<open>Malformed messages\<close>

text \<open>
  C37. A malformed message. With JsonCpp it stops the program; with the other two libraries the parser gives
  a value that has no members, and the session reports that the message has no type, dispatches
  nothing and goes on.
\<close>

theorem malformed_message:
  assumes "parse_c str = None"
    and "\<not> nj_is_structured N (parse_n str)" and "\<not> rj_is_object R (parse_r (c_str str))"
  shows "processMessage (jsoncpp_setup E C parse_c dump_c depth_c) str s = None
    \<and> processMessage (nlohmann_setup E N parse_n dump_n depth_n) str s = Some (None, errorLocked MissingType s)
    \<and> processMessage (rapid_setup E R parse_r dump_r depth_r) str s = Some (None, errorLocked MissingType s)"
  using assms
  by (simp add: processMessage_def jsoncpp_setup_def nlohmann_setup_def rapid_setup_def field_string_def
      NlohmannDeserializer_def NlohmannDeserializer_field_def RapidDeserializer_def RapidDeserializer_field_def)

theorem malformed_message_witness:
  "processMessage (jsoncpp_setup session_env ref_jsoncpp strict_parse print_json jdepth) ''o4:type'' server = None
    \<and> processMessage (ref_setup session_env) ''o4:type'' server = Some (None, errorLocked MissingType server)
    \<and> processMessage (rapid_setup session_env ref_rapid ref_parse print_json jdepth) ''o4:type'' server
        = Some (None, errorLocked MissingType server)"
proof (rule malformed_message)
  show "strict_parse ''o4:type'' = None" by code_simp
  show "\<not> nj_is_structured ref_nlohmann (ref_parse ''o4:type'')" by code_simp
  show "\<not> rj_is_object ref_rapid (ref_parse (c_str ''o4:type''))" by code_simp
qed

end
