(* ===== verification/Optional.thy ===== *)
theory Optional
  imports NlohmannJson "HOL-Library.Option_ord"
begin

section \<open>Optionals and variants\<close>

text \<open>
  The class templates of \<^verbatim>\<open>include/dap/optional.h\<close> and \<^verbatim>\<open>include/dap/variant.h\<close>. An \<^verbatim>\<open>optional\<close> always has a
  \<^verbatim>\<open>val\<close>, which means something only when \<^verbatim>\<open>set\<close> is true. Where the code moves from a value, what is left in
  its place is an argument, \<open>moved\<close>: the standard leaves it unspecified. \<^term>\<open>None\<close> as the result of an
  access is a failed assertion.
\<close>

record 'a dap_optional =
  op_val :: 'a
  op_set :: bool

definition optional_new :: "'a \<Rightarrow> 'a dap_optional" where
  "optional_new init = \<lparr>op_val = init, op_set = False\<rparr>"

definition optional_copy :: "'a dap_optional \<Rightarrow> 'a dap_optional" where
  "optional_copy other = \<lparr>op_val = op_val other, op_set = op_set other\<rparr>"

definition optional_move :: "('a \<Rightarrow> 'a) \<Rightarrow> 'a dap_optional \<Rightarrow> 'a dap_optional \<times> 'a dap_optional" where
  "optional_move moved other =
     (\<lparr>op_val = op_val other, op_set = op_set other\<rparr>, other\<lparr>op_val := moved (op_val other)\<rparr>)"

definition optional_of :: "'a \<Rightarrow> 'a dap_optional" where
  "optional_of v = \<lparr>op_val = v, op_set = True\<rparr>"

definition optional_has_value :: "'a dap_optional \<Rightarrow> bool" where
  "optional_has_value x = op_set x"

text \<open>\<^verbatim>\<open>value()\<close>, \<^verbatim>\<open>operator*\<close> and \<^verbatim>\<open>operator->\<close> have the same body.\<close>

definition optional_value :: "'a dap_optional \<Rightarrow> 'a option" where
  "optional_value x = (if op_set x then Some (op_val x) else None)"

definition optional_value_or :: "'a dap_optional \<Rightarrow> 'a \<Rightarrow> 'a" where
  "optional_value_or x defaultValue = (if \<not> optional_has_value x then defaultValue else op_val x)"

text \<open>The converting constructors, from an \<^verbatim>\<open>optional\<close> of another type.\<close>

definition optional_convert :: "('b \<Rightarrow> 'a) \<Rightarrow> 'a \<Rightarrow> 'b dap_optional \<Rightarrow> 'a dap_optional" where
  "optional_convert cast init other =
     \<lparr>op_val = (if optional_has_value other then cast (op_val other) else init), op_set = optional_has_value other\<rparr>"

definition optional_convert_move ::
  "('b \<Rightarrow> 'b) \<Rightarrow> ('b \<Rightarrow> 'a) \<Rightarrow> 'a \<Rightarrow> 'b dap_optional \<Rightarrow> 'a dap_optional \<times> 'b dap_optional" where
  "optional_convert_move moved cast init other =
     (\<lparr>op_val = (if optional_has_value other then cast (op_val other) else init), op_set = optional_has_value other\<rparr>,
      if optional_has_value other then other\<lparr>op_val := moved (op_val other)\<rparr> else other)"

definition optional_assign :: "'a dap_optional \<Rightarrow> 'a dap_optional \<Rightarrow> 'a dap_optional" where
  "optional_assign x other = x\<lparr>op_val := op_val other, op_set := op_set other\<rparr>"

definition optional_move_assign ::
  "('a \<Rightarrow> 'a) \<Rightarrow> 'a dap_optional \<Rightarrow> 'a dap_optional \<Rightarrow> 'a dap_optional \<times> 'a dap_optional" where
  "optional_move_assign moved x other =
     (x\<lparr>op_val := op_val other, op_set := op_set other\<rparr>, other\<lparr>op_val := moved (op_val other)\<rparr>)"

definition optional_assign_value :: "'a dap_optional \<Rightarrow> 'a \<Rightarrow> 'a dap_optional" where
  "optional_assign_value x v = x\<lparr>op_val := v, op_set := True\<rparr>"

subsection \<open>Comparison\<close>

definition optional_eq :: "'a dap_optional \<Rightarrow> 'a dap_optional \<Rightarrow> bool" where
  "optional_eq lhs rhs =
     (if \<not> optional_has_value lhs \<and> \<not> optional_has_value rhs then True
      else if \<not> optional_has_value lhs \<or> \<not> optional_has_value rhs then False
      else op_val lhs = op_val rhs)"

definition optional_ne :: "'a dap_optional \<Rightarrow> 'a dap_optional \<Rightarrow> bool" where
  "optional_ne lhs rhs = (\<not> optional_eq lhs rhs)"

definition optional_lt :: "'a::linorder dap_optional \<Rightarrow> 'a dap_optional \<Rightarrow> bool" where
  "optional_lt lhs rhs =
     (if \<not> optional_has_value rhs then False
      else if \<not> optional_has_value lhs then True
      else op_val lhs < op_val rhs)"

definition optional_le :: "'a::linorder dap_optional \<Rightarrow> 'a dap_optional \<Rightarrow> bool" where
  "optional_le lhs rhs =
     (if \<not> optional_has_value lhs then True
      else if \<not> optional_has_value rhs then False
      else op_val lhs \<le> op_val rhs)"

definition optional_gt :: "'a::linorder dap_optional \<Rightarrow> 'a dap_optional \<Rightarrow> bool" where
  "optional_gt lhs rhs =
     (if \<not> optional_has_value lhs then False
      else if \<not> optional_has_value rhs then True
      else op_val lhs > op_val rhs)"

definition optional_ge :: "'a::linorder dap_optional \<Rightarrow> 'a dap_optional \<Rightarrow> bool" where
  "optional_ge lhs rhs =
     (if \<not> optional_has_value rhs then True
      else if \<not> optional_has_value lhs then False
      else op_val lhs \<ge> op_val rhs)"

lemmas optional_compare_defs =
  optional_eq_def optional_ne_def optional_lt_def optional_le_def optional_gt_def optional_ge_def

text \<open>
  The six comparison operators of \<^verbatim>\<open>optional\<close> are those of one linear order, in which an optional without
  a value comes before every other: they depend on the values only where there are any, and agree with
  each other.
\<close>

theorem optional_order:
  "(optional_eq x y \<longleftrightarrow> optional_value x = optional_value y)
    \<and> (optional_ne x y \<longleftrightarrow> optional_value x \<noteq> optional_value y)
    \<and> (optional_lt x y \<longleftrightarrow> optional_value x < optional_value y)
    \<and> (optional_le x y \<longleftrightarrow> optional_value x \<le> optional_value y)
    \<and> (optional_gt x y \<longleftrightarrow> optional_value x > optional_value y)
    \<and> (optional_ge x y \<longleftrightarrow> optional_value x \<ge> optional_value y)"
  by (auto simp: optional_compare_defs optional_has_value_def optional_value_def)

text \<open>What the operations do to the optional as a value or nothing.\<close>

lemma optional_values:
  "optional_value (optional_new init) = None"
  "optional_value (optional_copy x) = optional_value x"
  "optional_value (fst (optional_move moved x)) = optional_value x"
  "optional_has_value (snd (optional_move moved x)) = optional_has_value x"
  "optional_value (optional_of v) = Some v"
  "optional_value (optional_convert cast init z) = map_option cast (optional_value z)"
  "optional_value (fst (optional_convert_move moved_z cast init z)) = map_option cast (optional_value z)"
  "optional_value (optional_assign y x) = optional_value x"
  "optional_value (fst (optional_move_assign moved y x)) = optional_value x"
  "optional_value (optional_assign_value x v) = Some v"
  "optional_value_or x d = (case optional_value x of None \<Rightarrow> d | Some v \<Rightarrow> v)"
  by (auto simp: optional_value_def optional_new_def optional_copy_def optional_move_def optional_of_def
      optional_has_value_def optional_convert_def optional_convert_move_def optional_assign_def
      optional_move_assign_def optional_assign_value_def optional_value_or_def)

subsection \<open>Variants\<close>

text \<open>
  A \<^verbatim>\<open>variant<T0, Types...>\<close> holds an \<^verbatim>\<open>any\<close>; \<^term>\<open>None\<close> as the result of an operation is a failed
  \<^verbatim>\<open>static_assert\<close> or, for \<^verbatim>\<open>get\<close>, a failed assertion of the \<^verbatim>\<open>any\<close>.
\<close>

primrec TypeIsIn :: "dap_type \<Rightarrow> dap_type list \<Rightarrow> bool" where
  "TypeIsIn T [] = False"
| "TypeIsIn T (U # Us) = (T = U \<or> TypeIsIn T Us)"

definition variant_accepts :: "dap_type list \<Rightarrow> dap_type \<Rightarrow> bool" where
  "variant_accepts ts T = TypeIsIn T ts"

definition variant_of :: "dap_type list \<Rightarrow> dap_type \<Rightarrow> val \<Rightarrow> val option" where
  "variant_of ts T v = (if variant_accepts ts T then Some (VVariant (VAny (Some (T, v)))) else None)"

definition variant_assign :: "dap_type list \<Rightarrow> val \<Rightarrow> dap_type \<Rightarrow> val \<Rightarrow> val option" where
  "variant_assign ts x T v =
     (case x of
        VVariant a \<Rightarrow> if variant_accepts ts T then Some (VVariant (VAny (Some (T, v)))) else None
      | _ \<Rightarrow> None)"

definition variant_get :: "dap_type list \<Rightarrow> dap_type \<Rightarrow> val \<Rightarrow> val option" where
  "variant_get ts T x =
     (case x of
        VVariant (VAny (Some (U, v))) \<Rightarrow> if variant_accepts ts T \<and> U = T then Some v else None
      | _ \<Rightarrow> None)"

definition variant_is :: "dap_type \<Rightarrow> val \<Rightarrow> bool" where
  "variant_is T x = (case x of VVariant (VAny (Some (U, v))) \<Rightarrow> U = T | _ \<Rightarrow> False)"

lemma TypeIsIn_iff: "TypeIsIn T ts \<longleftrightarrow> T \<in> set ts"
  by (induction ts) auto

text \<open>What the program itself puts into a variant has one of its types, and comes out again.\<close>

fun variant_typed :: "dap_type list \<Rightarrow> val \<Rightarrow> bool" where
  "variant_typed ts (VVariant (VAny (Some (T, v)))) \<longleftrightarrow> T \<in> set ts"
| "variant_typed ts x \<longleftrightarrow> False"

lemma variant_new_typed: "ts \<noteq> [] \<Longrightarrow> variant_typed ts (default_of ds (TVariant ts))"
  by (cases ts) simp_all

lemma variant_ops_typed:
  "variant_of ts T v = Some x \<Longrightarrow> variant_typed ts x \<and> variant_get ts T x = Some v \<and> (variant_is U x \<longleftrightarrow> U = T)"
  "variant_assign ts y T v = Some x \<Longrightarrow> variant_typed ts x \<and> variant_get ts T x = Some v \<and> (variant_is U x \<longleftrightarrow> U = T)"
  by (auto simp: variant_of_def variant_assign_def variant_get_def variant_is_def variant_accepts_def TypeIsIn_iff
      split: if_splits val.splits)



end
