(* ===== verification/AnyStorage.thy ===== *)
theory AnyStorage
  imports Values "HOL-Library.Monad_Syntax"
begin

section \<open>The storage of an any\<close>

text \<open>
  \<^verbatim>\<open>include/dap/any.h\<close>, with the pointers it handles. An \<^verbatim>\<open>any\<close> keeps its value in a buffer of its own, or
  in a block it allocates when the buffer is too small. The memory has the \<^verbatim>\<open>any\<close> objects that are alive,
  by address; the objects that were constructed and not yet destructed, by address, with their type;
  and the blocks of the heap. Addresses are natural numbers, 0 is the null pointer. \<^verbatim>\<open>new[]\<close> takes the
  next addresses that were never used. \<^term>\<open>None\<close> is a failed assertion or undefined behaviour: copying
  or destructing where no object of that type is, deleting what is no block.

  The size and the alignment of a type depend on the compiler and are a parameter, the layout.
\<close>

type_synonym layout = "dap_type \<Rightarrow> nat \<times> nat"

record any_obj =
  an_value :: nat
  an_type :: "dap_type option"
  an_heap :: nat

record any_mem =
  am_anys :: "nat \<rightharpoonup> any_obj"
  am_objs :: "nat \<rightharpoonup> dap_type \<times> val"
  am_heap :: "nat \<rightharpoonup> nat"
  am_base :: nat
  am_brk :: nat

abbreviation nullptr :: nat where
  "nullptr \<equiv> 0"

text \<open>Three pointers come before the buffer of 32 bytes.\<close>

definition any_buffer :: "nat \<Rightarrow> nat" where
  "any_buffer p = p + 24"

definition any_end :: "nat \<Rightarrow> nat" where
  "any_end p = any_buffer p + 32"

definition put_any :: "nat \<Rightarrow> any_obj \<Rightarrow> any_mem \<Rightarrow> any_mem" where
  "put_any p x m = m\<lparr>am_anys := (am_anys m)(p \<mapsto> x)\<rparr>"

subsection \<open>The private helpers\<close>

definition alignUp :: "nat \<Rightarrow> nat \<Rightarrow> nat" where
  "alignUp ptr alignment = alignment * ((ptr + alignment - 1) div alignment)"

definition isInBuffer :: "nat \<Rightarrow> nat \<Rightarrow> bool" where
  "isInBuffer p addr \<longleftrightarrow> any_buffer p \<le> addr \<and> addr < any_buffer p + 32"

definition alloc :: "nat \<times> nat \<Rightarrow> nat \<Rightarrow> any_mem \<Rightarrow> any_mem option" where
  "alloc la p m =
     (case la of (sz, align) \<Rightarrow> do {
        x \<leftarrow> am_anys m p;
        if an_value x \<noteq> nullptr then None
        else
          (let value = alignUp (any_buffer p) align
           in if isInBuffer p (value + sz - 1) then Some (put_any p (x\<lparr>an_value := value\<rparr>) m)
              else
                (let heap = am_brk m
                 in Some (put_any p (x\<lparr>an_value := alignUp heap align, an_heap := heap\<rparr>)
                      (m\<lparr>am_heap := (am_heap m)(heap \<mapsto> sz + align), am_brk := heap + (sz + align)\<rparr>)))) })"

definition any_free :: "nat \<Rightarrow> any_mem \<Rightarrow> any_mem option" where
  "any_free p m = do {
     x \<leftarrow> am_anys m p;
     if an_value x = nullptr then None
     else if an_heap x \<noteq> nullptr then do {
       _ \<leftarrow> am_heap m (an_heap x);
       Some (put_any p (x\<lparr>an_value := nullptr, an_heap := nullptr\<rparr>)
         (m\<lparr>am_heap := (am_heap m)(an_heap x := None)\<rparr>)) }
     else Some (put_any p (x\<lparr>an_value := nullptr\<rparr>) m) }"

text \<open>\<^verbatim>\<open>TypeInfo::copyConstruct\<close> and \<^verbatim>\<open>TypeInfo::destruct\<close>.\<close>

definition copyConstruct :: "dap_type \<Rightarrow> nat \<Rightarrow> nat \<Rightarrow> any_mem \<Rightarrow> any_mem option" where
  "copyConstruct T dst src m =
     (case am_objs m src of
        Some (U, v) \<Rightarrow> if U = T then Some (m\<lparr>am_objs := (am_objs m)(dst \<mapsto> (T, v))\<rparr>) else None
      | None \<Rightarrow> None)"

definition destruct :: "dap_type \<Rightarrow> nat \<Rightarrow> any_mem \<Rightarrow> any_mem option" where
  "destruct T a m =
     (case am_objs m a of
        Some (U, v) \<Rightarrow> if U = T then Some (m\<lparr>am_objs := (am_objs m)(a := None)\<rparr>) else None
      | None \<Rightarrow> None)"

subsection \<open>The public operations\<close>

definition any_reset :: "nat \<Rightarrow> any_mem \<Rightarrow> any_mem option" where
  "any_reset p m = do {
     x \<leftarrow> am_anys m p;
     m \<leftarrow> (if an_value x \<noteq> nullptr then do {
              T \<leftarrow> an_type x;
              m \<leftarrow> destruct T (an_value x) m;
              any_free p m }
            else Some m);
     x \<leftarrow> am_anys m p;
     Some (put_any p (x\<lparr>an_value := nullptr, an_type := None\<rparr>) m) }"

definition any_new :: "nat \<Rightarrow> any_mem \<Rightarrow> any_mem" where
  "any_new p m = put_any p \<lparr>an_value = nullptr, an_type = None, an_heap = nullptr\<rparr> m"

text \<open>
  The copy of \<open>q\<close> that both \<^verbatim>\<open>any(const any&)\<close> and \<^verbatim>\<open>operator=(const any&)\<close> make into the empty \<open>p\<close>, and the
  move of \<open>q\<close> that the constructor and the assignment for rvalues make.
\<close>

definition any_copy_from :: "layout \<Rightarrow> nat \<Rightarrow> nat \<Rightarrow> any_mem \<Rightarrow> any_mem option" where
  "any_copy_from L p q m = do {
     x \<leftarrow> am_anys m p;
     y \<leftarrow> am_anys m q;
     let m = put_any p (x\<lparr>an_type := an_type y\<rparr>) m;
     if an_value y \<noteq> nullptr then do {
       T \<leftarrow> an_type y;
       m \<leftarrow> alloc (L T) p m;
       x \<leftarrow> am_anys m p;
       copyConstruct T (an_value x) (an_value y) m }
     else Some m }"

definition any_move_from :: "layout \<Rightarrow> nat \<Rightarrow> nat \<Rightarrow> any_mem \<Rightarrow> any_mem option" where
  "any_move_from L p q m = do {
     x \<leftarrow> am_anys m p;
     y \<leftarrow> am_anys m q;
     let m = put_any p (x\<lparr>an_type := an_type y\<rparr>) m;
     m \<leftarrow> (if isInBuffer q (an_value y) then do {
              T \<leftarrow> an_type y;
              m \<leftarrow> alloc (L T) p m;
              x \<leftarrow> am_anys m p;
              copyConstruct T (an_value x) (an_value y) m }
            else do {
              x \<leftarrow> am_anys m p;
              Some (put_any p (x\<lparr>an_value := an_value y\<rparr>) m) });
     y \<leftarrow> am_anys m q;
     Some (put_any q (y\<lparr>an_value := nullptr, an_type := None\<rparr>) m) }"

definition any_copy :: "layout \<Rightarrow> nat \<Rightarrow> nat \<Rightarrow> any_mem \<Rightarrow> any_mem option" where
  "any_copy L p q m = any_copy_from L p q (any_new p m)"

definition any_move :: "layout \<Rightarrow> nat \<Rightarrow> nat \<Rightarrow> any_mem \<Rightarrow> any_mem option" where
  "any_move L p q m = any_move_from L p q (any_new p m)"

definition any_assign :: "layout \<Rightarrow> nat \<Rightarrow> nat \<Rightarrow> any_mem \<Rightarrow> any_mem option" where
  "any_assign L p q m = Option.bind (any_reset p m) (any_copy_from L p q)"

definition any_move_assign :: "layout \<Rightarrow> nat \<Rightarrow> nat \<Rightarrow> any_mem \<Rightarrow> any_mem option" where
  "any_move_assign L p q m = Option.bind (any_reset p m) (any_move_from L p q)"

text \<open>\<^verbatim>\<open>is<T>()\<close>, \<^verbatim>\<open>is<std::nullptr_t>()\<close> and \<^verbatim>\<open>get<T>()\<close>.\<close>

definition any_is :: "dap_type \<Rightarrow> nat \<Rightarrow> any_mem \<Rightarrow> bool option" where
  "any_is T p m = map_option (\<lambda>x. an_type x = Some T) (am_anys m p)"

definition any_is_null :: "nat \<Rightarrow> any_mem \<Rightarrow> bool option" where
  "any_is_null p m = map_option (\<lambda>x. an_value x = nullptr) (am_anys m p)"

definition any_get :: "dap_type \<Rightarrow> nat \<Rightarrow> any_mem \<Rightarrow> val option" where
  "any_get T p m = do {
     x \<leftarrow> am_anys m p;
     if an_type x = Some T then
       (case am_objs m (an_value x) of Some (U, v) \<Rightarrow> if U = T then Some v else None | None \<Rightarrow> None)
     else None }"

text \<open>\<^verbatim>\<open>operator=(const T&)\<close>: an \<^verbatim>\<open>any\<close> that holds a \<^verbatim>\<open>T\<close> already has that object assigned.\<close>

definition any_assign_val :: "layout \<Rightarrow> nat \<Rightarrow> dap_type \<Rightarrow> val \<Rightarrow> any_mem \<Rightarrow> any_mem option" where
  "any_assign_val L p T v m = do {
     x \<leftarrow> am_anys m p;
     if an_type x \<noteq> Some T then do {
       m \<leftarrow> any_reset p m;
       x \<leftarrow> am_anys m p;
       m \<leftarrow> alloc (L T) p (put_any p (x\<lparr>an_type := Some T\<rparr>) m);
       x \<leftarrow> am_anys m p;
       Some (m\<lparr>am_objs := (am_objs m)(an_value x \<mapsto> (T, v))\<rparr>) }
     else do {
       _ \<leftarrow> am_objs m (an_value x);
       Some (m\<lparr>am_objs := (am_objs m)(an_value x \<mapsto> (T, v))\<rparr>) } }"

definition any_of :: "layout \<Rightarrow> nat \<Rightarrow> dap_type \<Rightarrow> val \<Rightarrow> any_mem \<Rightarrow> any_mem option" where
  "any_of L p T v m = any_assign_val L p T v (any_new p m)"

definition any_destroy :: "nat \<Rightarrow> any_mem \<Rightarrow> any_mem option" where
  "any_destroy p m = map_option (\<lambda>m. m\<lparr>am_anys := (am_anys m)(p := None)\<rparr>) (any_reset p m)"

section \<open>Ownership\<close>

text \<open>
  Between operations every \<^verbatim>\<open>any\<close> is empty or owns the one object its pointer designates, which lies within
  its buffer or within the block it owns; every object and every block has exactly one owner.
\<close>

definition wf_layout :: "layout \<Rightarrow> bool" where
  "wf_layout L \<longleftrightarrow> (\<forall>T. 0 < fst (L T) \<and> 0 < snd (L T))"

definition apart :: "nat \<Rightarrow> nat \<Rightarrow> bool" where
  "apart p q \<longleftrightarrow> any_end p \<le> q \<or> any_end q \<le> p"

definition placed :: "any_mem \<Rightarrow> bool" where
  "placed m \<longleftrightarrow> 0 < am_base m \<and> am_base m \<le> am_brk m
     \<and> (\<forall>p \<in> dom (am_anys m). any_end p \<le> am_base m)
     \<and> (\<forall>p \<in> dom (am_anys m). \<forall>q \<in> dom (am_anys m). p \<noteq> q \<longrightarrow> apart p q)
     \<and> (\<forall>h n. am_heap m h = Some n \<longrightarrow> am_base m \<le> h \<and> h + n \<le> am_brk m)
     \<and> (\<forall>h n h' n'. am_heap m h = Some n \<longrightarrow> am_heap m h' = Some n' \<longrightarrow> h \<noteq> h' \<longrightarrow> h + n \<le> h' \<or> h' + n' \<le> h)"

definition in_place :: "layout \<Rightarrow> any_mem \<Rightarrow> nat \<Rightarrow> any_obj \<Rightarrow> dap_type \<Rightarrow> bool" where
  "in_place L m p x T \<longleftrightarrow>
     (if an_heap x = nullptr then any_buffer p \<le> an_value x \<and> an_value x + fst (L T) \<le> any_end p
      else \<exists>n. am_heap m (an_heap x) = Some n \<and> an_heap x \<le> an_value x \<and> an_value x + fst (L T) \<le> an_heap x + n)"

definition any_obj_ok :: "layout \<Rightarrow> any_mem \<Rightarrow> nat \<Rightarrow> any_obj \<Rightarrow> bool" where
  "any_obj_ok L m p x \<longleftrightarrow>
     (if an_value x = nullptr then an_type x = None \<and> an_heap x = nullptr
      else \<exists>T v. an_type x = Some T \<and> am_objs m (an_value x) = Some (T, v) \<and> in_place L m p x T)"

definition any_ok :: "layout \<Rightarrow> any_mem \<Rightarrow> bool" where
  "any_ok L m \<longleftrightarrow> placed m
     \<and> (\<forall>p x. am_anys m p = Some x \<longrightarrow> any_obj_ok L m p x)
     \<and> (\<forall>a \<in> dom (am_objs m). \<exists>p x. am_anys m p = Some x \<and> an_value x = a \<and> a \<noteq> nullptr)
     \<and> (\<forall>h \<in> dom (am_heap m). \<exists>p x. am_anys m p = Some x \<and> an_heap x = h)
     \<and> (\<forall>p q x y. am_anys m p = Some x \<longrightarrow> am_anys m q = Some y \<longrightarrow> p \<noteq> q \<longrightarrow> an_heap x = an_heap y
          \<longrightarrow> an_heap x = nullptr)"

text \<open>What the \<^verbatim>\<open>any\<close> objects hold: the abstract state.\<close>

definition any_abs :: "any_mem \<Rightarrow> nat \<rightharpoonup> (dap_type \<times> val) option" where
  "any_abs m p =
     map_option (\<lambda>x. if an_value x = nullptr then None else am_objs m (an_value x)) (am_anys m p)"

abbreviation empty_any :: any_obj where
  "empty_any \<equiv> \<lparr>an_value = nullptr, an_type = None, an_heap = nullptr\<rparr>"

lemma alignUp_bounds:
  assumes "0 < a"
  shows "p \<le> alignUp p a" and "alignUp p a < p + a" and "alignUp p a mod a = 0"
proof -
  have "alignUp p a + (p + a - 1) mod a = p + a - 1" by (simp add: alignUp_def)
  moreover have "(p + a - 1) mod a < a" using assms by simp
  ultimately show "p \<le> alignUp p a" "alignUp p a < p + a" using assms by linarith+
  show "alignUp p a mod a = 0" by (simp add: alignUp_def)
qed

lemma any_obj_empty:
  "any_obj_ok L m p x \<Longrightarrow> an_value x = nullptr \<Longrightarrow> x = empty_any"
  by (cases x) (simp add: any_obj_ok_def)

lemma any_obj_full:
  assumes "any_obj_ok L m p x" "an_value x \<noteq> nullptr"
  obtains T v where "an_type x = Some T" "am_objs m (an_value x) = Some (T, v)" "in_place L m p x T"
  using assms by (auto simp: any_obj_ok_def)

lemma any_okD:
  assumes "any_ok L m"
  shows "placed m" and "am_anys m p = Some x \<Longrightarrow> any_obj_ok L m p x"
    and "am_objs m a = Some o1 \<Longrightarrow> \<exists>p x. am_anys m p = Some x \<and> an_value x = a \<and> a \<noteq> nullptr"
    and "am_heap m h = Some n \<Longrightarrow> \<exists>p x. am_anys m p = Some x \<and> an_heap x = h"
    and "am_anys m p = Some x \<Longrightarrow> am_anys m q = Some y \<Longrightarrow> p \<noteq> q \<Longrightarrow> an_heap x = an_heap y \<Longrightarrow> an_heap x = nullptr"
proof -
  show "placed m" "am_anys m p = Some x \<Longrightarrow> any_obj_ok L m p x" using assms by (simp_all add: any_ok_def)
  show "am_objs m a = Some o1 \<Longrightarrow> \<exists>p x. am_anys m p = Some x \<and> an_value x = a \<and> a \<noteq> nullptr"
    using assms unfolding any_ok_def by (meson domI)
  show "am_heap m h = Some n \<Longrightarrow> \<exists>p x. am_anys m p = Some x \<and> an_heap x = h"
    using assms unfolding any_ok_def by (meson domI)
  show "am_anys m p = Some x \<Longrightarrow> am_anys m q = Some y \<Longrightarrow> p \<noteq> q \<Longrightarrow> an_heap x = an_heap y \<Longrightarrow> an_heap x = nullptr"
    using assms unfolding any_ok_def by meson
qed

lemma placedD:
  assumes "placed m"
  shows "0 < am_base m \<and> am_base m \<le> am_brk m" and "am_anys m p = Some x \<Longrightarrow> any_end p \<le> am_base m"
    and "am_anys m p = Some x \<Longrightarrow> am_anys m q = Some y \<Longrightarrow> p \<noteq> q \<Longrightarrow> apart p q"
    and "am_heap m h = Some n \<Longrightarrow> am_base m \<le> h \<and> h + n \<le> am_brk m"
    and "am_heap m h = Some n \<Longrightarrow> am_heap m h' = Some n' \<Longrightarrow> h \<noteq> h' \<Longrightarrow> h + n \<le> h' \<or> h' + n' \<le> h"
  using assms unfolding placed_def by (meson domI)+

lemma heap_above: "placed m \<Longrightarrow> am_heap m h = Some n \<Longrightarrow> am_base m \<le> h \<and> 0 < h"
  by (force simp: placed_def)

lemma in_place_heap: "placed m \<Longrightarrow> in_place L m p x T \<Longrightarrow> an_heap x \<noteq> nullptr \<Longrightarrow> am_base m \<le> an_value x"
  using heap_above [of m "an_heap x"] by (auto simp: in_place_def)

lemma in_place_buffer:
  "in_place L m p x T \<Longrightarrow> an_heap x = nullptr \<Longrightarrow> 0 < fst (L T) \<Longrightarrow> any_buffer p \<le> an_value x \<and> an_value x < any_end p"
  by (simp add: in_place_def)

lemma values_differ:
  assumes ok: "any_ok L m" "wf_layout L" and p: "am_anys m p = Some x" and q: "am_anys m q = Some y"
    and neq: "p \<noteq> q" "an_value x \<noteq> nullptr" "an_value y \<noteq> nullptr"
  shows "an_value x \<noteq> an_value y"
proof
  assume eq: "an_value x = an_value y"
  have pl: "placed m" and ox: "any_obj_ok L m p x" and oy: "any_obj_ok L m q y" using ok p q by (auto simp: any_ok_def)
  obtain T v where x: "in_place L m p x T" by (rule any_obj_full [OF ox neq(2)])
  obtain U w where y: "in_place L m q y U" by (rule any_obj_full [OF oy neq(3)])
  have s: "0 < fst (L T)" "0 < fst (L U)" using ok(2) by (auto simp: wf_layout_def)
  have ends: "any_end p \<le> am_base m" "any_end q \<le> am_base m" "apart p q"
    using placedD(2,3) [OF pl] p q neq(1) by auto
  consider "an_heap x = nullptr" "an_heap y = nullptr" | "an_heap x = nullptr" "an_heap y \<noteq> nullptr"
    | "an_heap x \<noteq> nullptr" "an_heap y = nullptr" | "an_heap x \<noteq> nullptr" "an_heap y \<noteq> nullptr" by blast
  then show False
  proof cases
    case 1
    then show False
      using in_place_buffer [OF x 1(1) s(1)] in_place_buffer [OF y 1(2) s(2)] eq ends(3)
      unfolding apart_def any_end_def any_buffer_def by linarith
  next
    case 2
    then show False using in_place_heap [OF pl y 2(2)] in_place_buffer [OF x 2(1) s(1)] eq ends(1) by linarith
  next
    case 3
    then show False using in_place_heap [OF pl x 3(1)] in_place_buffer [OF y 3(2) s(2)] eq ends(2) by linarith
  next
    case 4
    then have "an_heap x \<noteq> an_heap y" using ok(1) p q neq(1) any_okD(5) by metis
    moreover obtain n n' where "am_heap m (an_heap x) = Some n" "am_heap m (an_heap y) = Some n'"
        "an_heap x \<le> an_value x" "an_value x + fst (L T) \<le> an_heap x + n"
        "an_heap y \<le> an_value y" "an_value y + fst (L U) \<le> an_heap y + n'"
      using 4 x y by (auto simp: in_place_def)
    moreover from this have "an_heap x + n \<le> an_heap y \<or> an_heap y + n' \<le> an_heap x"
      using placedD(5) [OF pl] \<open>an_heap x \<noteq> an_heap y\<close> by blast
    ultimately show False using eq s by linarith
  qed
qed

lemma any_okI:
  assumes "placed m" and "\<And>p x. am_anys m p = Some x \<Longrightarrow> any_obj_ok L m p x"
    and "\<And>a ob. am_objs m a = Some ob \<Longrightarrow> \<exists>p x. am_anys m p = Some x \<and> an_value x = a \<and> a \<noteq> nullptr"
    and "\<And>h n. am_heap m h = Some n \<Longrightarrow> \<exists>p x. am_anys m p = Some x \<and> an_heap x = h"
    and "\<And>p q x y. am_anys m p = Some x \<Longrightarrow> am_anys m q = Some y \<Longrightarrow> p \<noteq> q \<Longrightarrow> an_heap x = an_heap y
      \<Longrightarrow> an_heap x = nullptr"
  shows "any_ok L m"
  unfolding any_ok_def using assms by (intro conjI allI ballI impI) (blast, blast, blast, blast, blast)

subsection \<open>Resetting\<close>

definition cleared :: "nat \<Rightarrow> any_obj \<Rightarrow> any_mem \<Rightarrow> any_mem" where
  "cleared p x m =
     m\<lparr>am_anys := (am_anys m)(p \<mapsto> empty_any), am_objs := (am_objs m)(an_value x := None),
       am_heap := (am_heap m)(an_heap x := None)\<rparr>"

lemma no_object_at_null:
  assumes "any_ok L m"
  shows "am_objs m nullptr = None" and "am_heap m nullptr = None"
proof -
  show "am_objs m nullptr = None" using any_okD(3) [OF assms, of nullptr] by (cases "am_objs m nullptr") auto
  show "am_heap m nullptr = None"
    using heap_above [OF any_okD(1) [OF assms], of nullptr] by (cases "am_heap m nullptr") auto
qed

lemma reset_cleared:
  assumes x: "any_obj_ok L m p x" and p: "am_anys m p = Some x"
    and null: "am_objs m nullptr = None" "am_heap m nullptr = None"
  shows "any_reset p m = Some (cleared p x m)"
proof -
  have n: "(am_objs m)(nullptr := None) = am_objs m" "(am_heap m)(nullptr := None) = am_heap m"
    using null by (simp_all add: fun_upd_idem)
  show ?thesis
  proof (cases "an_value x = nullptr")
    case True
    then have "x = empty_any" using any_obj_empty [OF x] by simp
    with n p show ?thesis by (simp add: any_reset_def cleared_def put_any_def)
  next
    case False
    then obtain T v where "an_type x = Some T" "am_objs m (an_value x) = Some (T, v)" "in_place L m p x T"
      using any_obj_full [OF x] by blast
    with n(2) p False show ?thesis
      by (cases x; cases m) (auto simp: any_reset_def destruct_def any_free_def put_any_def cleared_def in_place_def)
  qed
qed

lemma any_reset_cleared:
  assumes ok: "any_ok L m" and p: "am_anys m p = Some x"
  shows "any_reset p m = Some (cleared p x m)"
  by (rule reset_cleared [OF any_okD(2) [OF ok p] p no_object_at_null [OF ok]])

lemma in_place_mono:
  "in_place L m p x T \<Longrightarrow> (\<And>n. an_heap x \<noteq> nullptr \<Longrightarrow> am_heap m (an_heap x) = Some n \<Longrightarrow> am_heap m' (an_heap x) = Some n)
    \<Longrightarrow> in_place L m' p x T"
  by (auto simp: in_place_def split: if_splits)

lemma any_obj_ok_mono:
  assumes "any_obj_ok L m p x" and "an_value x \<noteq> nullptr \<Longrightarrow> am_objs m' (an_value x) = am_objs m (an_value x)"
    and "\<And>n. an_heap x \<noteq> nullptr \<Longrightarrow> am_heap m (an_heap x) = Some n \<Longrightarrow> am_heap m' (an_heap x) = Some n"
  shows "any_obj_ok L m' p x"
  using assms in_place_mono [of L m p x _ m'] by (auto simp: any_obj_ok_def split: if_splits)

lemma cleared_ok:
  assumes ok: "any_ok L m" "wf_layout L" and p: "am_anys m p = Some x"
  shows "any_ok L (cleared p x m)"
proof (rule any_okI)
  show "placed (cleared p x m)"
    using any_okD(1) [OF ok(1)] p unfolding placed_def cleared_def by (auto split: if_splits)
next
  fix q y
  assume q: "am_anys (cleared p x m) q = Some y"
  show "any_obj_ok L (cleared p x m) q y"
  proof (cases "q = p")
    case True
    with q have "y = empty_any" by (simp add: cleared_def)
    then show ?thesis by (simp add: any_obj_ok_def)
  next
    case False
    with q have y: "am_anys m q = Some y" by (simp add: cleared_def)
    show ?thesis
    proof (rule any_obj_ok_mono [OF any_okD(2) [OF ok(1) y]])
      show "am_objs (cleared p x m) (an_value y) = am_objs m (an_value y)" if "an_value y \<noteq> nullptr"
        using values_differ [OF ok p y] False that by (auto simp: cleared_def)
      show "am_heap (cleared p x m) (an_heap y) = Some n"
        if "an_heap y \<noteq> nullptr" "am_heap m (an_heap y) = Some n" for n
        using any_okD(5) [OF ok(1) p y] False that by (auto simp: cleared_def)
    qed
  qed
next
  fix a ob
  assume "am_objs (cleared p x m) a = Some ob"
  then have a: "am_objs m a = Some ob" "a \<noteq> an_value x" by (auto simp: cleared_def split: if_splits)
  then obtain q y where q: "am_anys m q = Some y" "an_value y = a" "a \<noteq> nullptr" using any_okD(3) [OF ok(1)] by blast
  with a(2) p have "q \<noteq> p" by auto
  with q show "\<exists>q y. am_anys (cleared p x m) q = Some y \<and> an_value y = a \<and> a \<noteq> nullptr"
    by (intro exI [of _ q] exI [of _ y]) (simp add: cleared_def)
next
  fix h n
  assume "am_heap (cleared p x m) h = Some n"
  then have h: "am_heap m h = Some n" "h \<noteq> an_heap x" by (auto simp: cleared_def split: if_splits)
  then obtain q y where q: "am_anys m q = Some y" "an_heap y = h" using any_okD(4) [OF ok(1)] by blast
  with h(2) p have "q \<noteq> p" by auto
  with q show "\<exists>q y. am_anys (cleared p x m) q = Some y \<and> an_heap y = h"
    by (intro exI [of _ q] exI [of _ y]) (simp add: cleared_def)
next
  fix q r y z
  assume "am_anys (cleared p x m) q = Some y" "am_anys (cleared p x m) r = Some z" "q \<noteq> r" "an_heap y = an_heap z"
  then show "an_heap y = nullptr"
    using any_okD(5) [OF ok(1), of q y r z] by (auto simp: cleared_def split: if_splits)
qed

lemma cleared_abs:
  assumes ok: "any_ok L m" "wf_layout L" and p: "am_anys m p = Some x"
  shows "any_abs (cleared p x m) = (any_abs m)(p \<mapsto> None)"
proof
  fix q
  show "any_abs (cleared p x m) q = ((any_abs m)(p \<mapsto> None)) q"
  proof (cases "q = p")
    case False
    then show ?thesis
      using values_differ [OF ok p, of q] no_object_at_null(1) [OF ok(1)]
      by (cases "am_anys m q"; cases "an_value x = nullptr") (auto simp: any_abs_def cleared_def)
  qed (simp add: any_abs_def cleared_def)
qed

subsection \<open>Filling an empty any\<close>

text \<open>\<^verbatim>\<open>alloc\<close> for an empty \<^verbatim>\<open>any\<close> whose type is already set, and the object that is then constructed.\<close>

definition filled :: "layout \<Rightarrow> nat \<Rightarrow> dap_type \<Rightarrow> val \<Rightarrow> any_mem \<Rightarrow> any_mem" where
  "filled L p T v m =
     (let a = alignUp (any_buffer p) (snd (L T));
          b = alignUp (am_brk m) (snd (L T));
          n = fst (L T) + snd (L T)
      in if isInBuffer p (a + fst (L T) - 1)
         then m\<lparr>am_anys := (am_anys m)(p \<mapsto> \<lparr>an_value = a, an_type = Some T, an_heap = nullptr\<rparr>),
                am_objs := (am_objs m)(a \<mapsto> (T, v))\<rparr>
         else m\<lparr>am_anys := (am_anys m)(p \<mapsto> \<lparr>an_value = b, an_type = Some T, an_heap = am_brk m\<rparr>),
                am_objs := (am_objs m)(b \<mapsto> (T, v)),
                am_heap := (am_heap m)(am_brk m \<mapsto> n), am_brk := am_brk m + n\<rparr>)"

lemma alloc_filled:
  assumes "am_anys m p = Some \<lparr>an_value = nullptr, an_type = Some T, an_heap = nullptr\<rparr>"
  shows "\<exists>m' x. alloc (L T) p m = Some m' \<and> am_anys m' p = Some x \<and> am_objs m' = am_objs m
    \<and> m'\<lparr>am_objs := (am_objs m)(an_value x \<mapsto> (T, v))\<rparr> = filled L p T v m"
  using assms by (cases "L T") (auto simp: alloc_def put_any_def filled_def Let_def)

lemma filled_place:
  assumes ok: "any_ok L m" "wf_layout L" and p: "am_anys m p = Some empty_any"
  obtains x where "am_anys (filled L p T v m) = (am_anys m)(p \<mapsto> x)" and "an_type x = Some T"
    and "am_objs (filled L p T v m) = (am_objs m)(an_value x \<mapsto> (T, v))"
    and "in_place L (filled L p T v m) p x T" and "an_value x \<noteq> nullptr" and "am_objs m (an_value x) = None"
    and "an_heap x = nullptr \<and> am_heap (filled L p T v m) = am_heap m \<and> am_brk (filled L p T v m) = am_brk m
      \<or> an_heap x = am_brk m \<and> am_heap (filled L p T v m) = (am_heap m)(am_brk m \<mapsto> fst (L T) + snd (L T))
        \<and> am_brk (filled L p T v m) = am_brk m + (fst (L T) + snd (L T))"
    and "am_base (filled L p T v m) = am_base m"
proof -
  let ?a = "alignUp (any_buffer p) (snd (L T))" and ?b = "alignUp (am_brk m) (snd (L T))"
  have L: "0 < fst (L T)" "0 < snd (L T)" using ok(2) by (auto simp: wf_layout_def)
  have pl: "placed m" by (rule any_okD(1) [OF ok(1)])
  note brk = placedD(1) [OF pl]
  have free: "am_objs m c = None" if c: "any_buffer p \<le> c \<and> c < any_end p \<or> am_brk m \<le> c" for c
  proof (rule ccontr)
    assume "am_objs m c \<noteq> None"
    then obtain q y where q: "am_anys m q = Some y" "an_value y = c" "c \<noteq> nullptr"
      using any_okD(3) [OF ok(1)] by blast
    with p have "q \<noteq> p" by auto
    then have ap: "apart q p" "any_end q \<le> am_base m" "any_end p \<le> am_base m"
      using placedD(2,3) [OF pl] q(1) p by auto
    obtain U where U: "in_place L m q y U" using any_obj_full [OF any_okD(2) [OF ok(1) q(1)]] q by blast
    have s: "0 < fst (L U)" using ok(2) by (auto simp: wf_layout_def)
    show False
    proof (cases "an_heap y = nullptr")
      case True
      then show False using in_place_buffer [OF U True s] ap brk q(2) c unfolding apart_def any_end_def any_buffer_def by linarith
    next
      case False
      then obtain n where "am_heap m (an_heap y) = Some n" "an_value y + fst (L U) \<le> an_heap y + n"
        using U by (auto simp: in_place_def)
      then show False using placedD(4) [OF pl] in_place_heap [OF pl U False] ap q(2) c s by fastforce
    qed
  qed
  show thesis
  proof (cases "isInBuffer p (?a + fst (L T) - 1)")
    case True
    let ?x = "\<lparr>an_value = ?a, an_type = Some T, an_heap = nullptr\<rparr>"
    have "any_buffer p \<le> ?a" "?a + fst (L T) \<le> any_end p"
      using True L alignUp_bounds(1) [OF L(2)] by (auto simp: isInBuffer_def any_end_def)
    moreover from this have "?a \<noteq> nullptr" "am_objs m ?a = None" using free [of ?a] L by (auto simp: any_buffer_def)
    ultimately show thesis using True that [of ?x] by (simp add: filled_def in_place_def Let_def)
  next
    case False
    let ?x = "\<lparr>an_value = ?b, an_type = Some T, an_heap = am_brk m\<rparr>"
    have b: "am_brk m \<le> ?b" "?b < am_brk m + snd (L T)" using alignUp_bounds [OF L(2)] by auto
    then have "?b \<noteq> nullptr" "am_objs m ?b = None" using free [of ?b] brk by auto
    then show thesis using False b brk that [of ?x] by (simp add: filled_def in_place_def Let_def)
  qed
qed

lemma heap_below_brk:
  assumes ok: "any_ok L m" "wf_layout L" and q: "am_anys m q = Some y" "an_heap y \<noteq> nullptr"
  shows "an_heap y < am_brk m"
proof -
  have "an_value y \<noteq> nullptr" using any_okD(2) [OF ok(1) q(1)] q(2) by (auto simp: any_obj_ok_def split: if_splits)
  then obtain U where "in_place L m q y U" using any_obj_full [OF any_okD(2) [OF ok(1) q(1)]] by blast
  then obtain n where "am_heap m (an_heap y) = Some n" "an_heap y + fst (L U) \<le> an_heap y + n"
    using q(2) by (auto simp: in_place_def)
  then show ?thesis using placedD(4) [OF any_okD(1) [OF ok(1)]] ok(2) unfolding wf_layout_def
    by (metis add_less_cancel_left leD le_less_trans less_add_same_cancel1 linorder_not_le order_less_le_trans)
qed

lemma brk_fresh:
  assumes ok: "any_ok L m" "wf_layout L"
  shows "am_heap m (am_brk m) = None"
proof (rule ccontr)
  assume "am_heap m (am_brk m) \<noteq> None"
  then obtain n where n: "am_heap m (am_brk m) = Some n" by auto
  then obtain q y where q: "am_anys m q = Some y" "an_heap y = am_brk m" using any_okD(4) [OF ok(1)] by blast
  moreover have "am_brk m \<noteq> nullptr" using heap_above [OF any_okD(1) [OF ok(1)] n] by simp
  ultimately show False using heap_below_brk [OF ok q(1)] by simp
qed

lemma placed_grow:
  assumes pl: "placed m" and a: "am_anys m' = (am_anys m)(p \<mapsto> x)" "am_anys m p = Some y" "am_base m' = am_base m"
    and h: "am_heap m' = (am_heap m)(am_brk m \<mapsto> n)" "am_brk m' = am_brk m + n"
  shows "placed m'"
proof -
  have d: "dom (am_anys m') = dom (am_anys m)" using a by auto
  show ?thesis unfolding placed_def d
  proof (intro conjI)
    show "0 < am_base m'" "am_base m' \<le> am_brk m'" using placedD(1) [OF pl] a(3) h(2) by auto
    show "\<forall>p \<in> dom (am_anys m). any_end p \<le> am_base m'" using placedD(2) [OF pl] a(3) by auto
    show "\<forall>p \<in> dom (am_anys m). \<forall>q \<in> dom (am_anys m). p \<noteq> q \<longrightarrow> apart p q" using placedD(3) [OF pl] by auto
    show "\<forall>h n. am_heap m' h = Some n \<longrightarrow> am_base m' \<le> h \<and> h + n \<le> am_brk m'"
      using placedD(1,4) [OF pl] a(3) h by (fastforce split: if_splits)
    show "\<forall>h n h' n'. am_heap m' h = Some n \<longrightarrow> am_heap m' h' = Some n' \<longrightarrow> h \<noteq> h' \<longrightarrow> h + n \<le> h' \<or> h' + n' \<le> h"
      using placedD(4,5) [OF pl] h(1) by (auto split: if_splits)
  qed
qed

lemma filled_ok:
  assumes ok: "any_ok L m" "wf_layout L" and p: "am_anys m p = Some empty_any"
  shows "any_ok L (filled L p T v m)" and "any_abs (filled L p T v m) = (any_abs m)(p \<mapsto> Some (T, v))"
proof -
  let ?m = "filled L p T v m"
  have pl: "placed m" by (rule any_okD(1) [OF ok(1)])
  obtain x where x: "am_anys ?m = (am_anys m)(p \<mapsto> x)" "an_type x = Some T"
      "am_objs ?m = (am_objs m)(an_value x \<mapsto> (T, v))" "in_place L ?m p x T" "an_value x \<noteq> nullptr"
      "am_objs m (an_value x) = None"
    and h: "an_heap x = nullptr \<and> am_heap ?m = am_heap m \<and> am_brk ?m = am_brk m
      \<or> an_heap x = am_brk m \<and> am_heap ?m = (am_heap m)(am_brk m \<mapsto> fst (L T) + snd (L T))
        \<and> am_brk ?m = am_brk m + (fst (L T) + snd (L T))"
    and base: "am_base ?m = am_base m"
    by (rule filled_place [OF assms, of T v])
  have fresh: "am_heap m (am_brk m) = None" by (rule brk_fresh [OF ok])
  have old: "an_value y \<noteq> an_value x" if "am_anys m q = Some y" "an_value y \<noteq> nullptr" for q y
    using any_obj_full [OF any_okD(2) [OF ok(1) that(1)] that(2)] x(6) by (metis option.distinct(1))
  show "any_ok L ?m"
  proof (rule any_okI)
    show "placed ?m"
      using h
    proof (elim disjE conjE)
      assume "am_heap ?m = am_heap m" "am_brk ?m = am_brk m"
      with pl p base show "placed ?m" by (simp add: placed_def x(1) insert_absorb domI)
    next
      assume "am_heap ?m = (am_heap m)(am_brk m \<mapsto> fst (L T) + snd (L T))"
        "am_brk ?m = am_brk m + (fst (L T) + snd (L T))"
      then show "placed ?m" by (rule placed_grow [OF pl x(1) p base])
    qed
  next
    fix q y
    assume q: "am_anys ?m q = Some y"
    show "any_obj_ok L ?m q y"
    proof (cases "q = p")
      case True
      with q x show ?thesis by (auto simp: any_obj_ok_def)
    next
      case False
      with q x(1) have y: "am_anys m q = Some y" by simp
      show ?thesis
        by (rule any_obj_ok_mono [OF any_okD(2) [OF ok(1) y]]) (use old [OF y] fresh h x(3) in auto)
    qed
  next
    fix a ob
    assume "am_objs ?m a = Some ob"
    then consider "a = an_value x" | "am_objs m a = Some ob" by (auto simp: x(3) split: if_splits)
    then show "\<exists>q y. am_anys ?m q = Some y \<and> an_value y = a \<and> a \<noteq> nullptr"
    proof cases
      case 2
      then obtain q y where q: "am_anys m q = Some y" "an_value y = a" "a \<noteq> nullptr" using any_okD(3) [OF ok(1)] by blast
      with p have "q \<noteq> p" by auto
      with q show ?thesis by (intro exI [of _ q] exI [of _ y]) (simp add: x(1))
    qed (use x in auto)
  next
    fix k n
    assume "am_heap ?m k = Some n"
    then consider "k = an_heap x" | "am_heap m k = Some n" using h by (auto split: if_splits)
    then show "\<exists>q y. am_anys ?m q = Some y \<and> an_heap y = k"
    proof cases
      case 2
      then obtain q y where q: "am_anys m q = Some y" "an_heap y = k" using any_okD(4) [OF ok(1)] by blast
      moreover have "k \<noteq> nullptr" using heap_above [OF pl 2] by simp
      ultimately have "q \<noteq> p" using p by auto
      with q show ?thesis by (intro exI [of _ q] exI [of _ y]) (simp add: x(1))
    qed (use x in auto)
  next
    fix q r y z
    assume "am_anys ?m q = Some y" "am_anys ?m r = Some z" "q \<noteq> r" "an_heap y = an_heap z"
    then show "an_heap y = nullptr"
      using any_okD(5) [OF ok(1), of q y r z] heap_below_brk [OF ok, of q y] heap_below_brk [OF ok, of r z] h placedD(1) [OF pl]
      by (auto simp: x(1) split: if_splits)
  qed
  show "any_abs ?m = (any_abs m)(p \<mapsto> Some (T, v))"
  proof
    fix q
    show "any_abs ?m q = ((any_abs m)(p \<mapsto> Some (T, v))) q"
    proof (cases "q = p")
      case False
      then show ?thesis using old [of q] by (cases "am_anys m q") (auto simp: any_abs_def x)
    qed (simp add: any_abs_def x)
  qed
qed

subsection \<open>Construction, assignment in place, destruction\<close>

lemma any_new_ok:
  assumes ok: "any_ok L m" and p: "am_anys m p = None" "any_end p \<le> am_base m" "\<forall>q \<in> dom (am_anys m). apart p q"
  shows "any_ok L (any_new p m)" and "any_abs (any_new p m) = (any_abs m)(p \<mapsto> None)"
proof -
  have m: "am_anys (any_new p m) = (am_anys m)(p \<mapsto> empty_any)" "am_objs (any_new p m) = am_objs m"
      "am_heap (any_new p m) = am_heap m" "am_base (any_new p m) = am_base m" "am_brk (any_new p m) = am_brk m"
    by (simp_all add: any_new_def put_any_def)
  have neq: "q \<noteq> p" if "am_anys m q = Some y" for q y using that p(1) by auto
  show "any_ok L (any_new p m)"
  proof (rule any_okI)
    have "apart q p" if "q \<in> dom (am_anys m)" for q using p(3) that by (auto simp: apart_def)
    then show "placed (any_new p m)"
      using any_okD(1) [OF ok] p(2,3) unfolding placed_def m by (simp add: Ball_def)
  next
    fix q y
    assume q: "am_anys (any_new p m) q = Some y"
    show "any_obj_ok L (any_new p m) q y"
    proof (cases "q = p")
      case True
      with q have "y = empty_any" by (simp add: m)
      then show ?thesis by (simp add: any_obj_ok_def)
    next
      case False
      with q have y: "am_anys m q = Some y" by (simp add: m)
      show ?thesis by (rule any_obj_ok_mono [OF any_okD(2) [OF ok y]]) (simp_all add: m)
    qed
  next
    fix a ob
    assume "am_objs (any_new p m) a = Some ob"
    then have "am_objs m a = Some ob" by (simp add: m)
    then obtain q y where q: "am_anys m q = Some y" "an_value y = a" "a \<noteq> nullptr" using any_okD(3) [OF ok] by blast
    with neq show "\<exists>q y. am_anys (any_new p m) q = Some y \<and> an_value y = a \<and> a \<noteq> nullptr"
      by (intro exI [of _ q] exI [of _ y]) (auto simp: m)
  next
    fix h n
    assume "am_heap (any_new p m) h = Some n"
    then have "am_heap m h = Some n" by (simp add: m)
    then obtain q y where q: "am_anys m q = Some y" "an_heap y = h" using any_okD(4) [OF ok] by blast
    with neq show "\<exists>q y. am_anys (any_new p m) q = Some y \<and> an_heap y = h"
      by (intro exI [of _ q] exI [of _ y]) (auto simp: m)
  next
    fix q r y z
    assume "am_anys (any_new p m) q = Some y" "am_anys (any_new p m) r = Some z" "q \<noteq> r" "an_heap y = an_heap z"
    then show "an_heap y = nullptr" using any_okD(5) [OF ok, of q y r z] by (auto simp: m split: if_splits)
  qed
  show "any_abs (any_new p m) = (any_abs m)(p \<mapsto> None)" by (rule ext) (simp add: any_abs_def m cong: if_cong)
qed

lemma any_drop_ok:
  assumes ok: "any_ok L m" and p: "am_anys m p = Some empty_any"
  shows "any_ok L (m\<lparr>am_anys := (am_anys m)(p := None)\<rparr>)" (is "any_ok L ?m")
    and "any_abs (m\<lparr>am_anys := (am_anys m)(p := None)\<rparr>) = (any_abs m)(p := None)"
proof -
  show "any_ok L ?m"
  proof (rule any_okI)
    show "placed ?m" using any_okD(1) [OF ok] by (simp add: placed_def)
  next
    fix q y
    assume "am_anys ?m q = Some y"
    then have q: "am_anys m q = Some y" by (auto split: if_splits)
    show "any_obj_ok L ?m q y" by (rule any_obj_ok_mono [OF any_okD(2) [OF ok q]]) simp_all
  next
    fix a ob
    assume "am_objs ?m a = Some ob"
    then have "am_objs m a = Some ob" by simp
    then obtain q y where q: "am_anys m q = Some y" "an_value y = a" "a \<noteq> nullptr" using any_okD(3) [OF ok] by blast
    then show "\<exists>q y. am_anys ?m q = Some y \<and> an_value y = a \<and> a \<noteq> nullptr"
      using p by (intro exI [of _ q] exI [of _ y]) auto
  next
    fix h n
    assume "am_heap ?m h = Some n"
    then have h: "am_heap m h = Some n" by simp
    then obtain q y where q: "am_anys m q = Some y" "an_heap y = h" using any_okD(4) [OF ok] by blast
    then show "\<exists>q y. am_anys ?m q = Some y \<and> an_heap y = h"
      using p heap_above [OF any_okD(1) [OF ok] h] by (intro exI [of _ q] exI [of _ y]) auto
  next
    fix q r y z
    assume "am_anys ?m q = Some y" "am_anys ?m r = Some z" "q \<noteq> r" "an_heap y = an_heap z"
    then show "an_heap y = nullptr" using any_okD(5) [OF ok, of q y r z] by (auto split: if_splits)
  qed
  show "any_abs ?m = (any_abs m)(p := None)" by (rule ext) (simp add: any_abs_def cong: if_cong)
qed

lemma any_put_ok:
  assumes ok: "any_ok L m" "wf_layout L" and p: "am_anys m p = Some x" "an_type x = Some T"
  shows "any_ok L (m\<lparr>am_objs := (am_objs m)(an_value x \<mapsto> (T, v))\<rparr>)" (is "any_ok L ?m")
    and "any_abs (m\<lparr>am_objs := (am_objs m)(an_value x \<mapsto> (T, v))\<rparr>) = (any_abs m)(p \<mapsto> Some (T, v))"
proof -
  have x: "any_obj_ok L m p x" by (rule any_okD(2) [OF ok(1) p(1)])
  then have nz: "an_value x \<noteq> nullptr" using p(2) by (auto simp: any_obj_ok_def split: if_splits)
  have old: "an_value y \<noteq> an_value x" if "am_anys m q = Some y" "q \<noteq> p" for q y
    using values_differ [OF ok p(1) that(1)] that(2) nz by metis
  show "any_ok L ?m"
  proof (rule any_okI)
    show "placed ?m" using any_okD(1) [OF ok(1)] by (simp add: placed_def)
  next
    fix q y
    assume "am_anys ?m q = Some y"
    then have q: "am_anys m q = Some y" by simp
    show "any_obj_ok L ?m q y"
    proof (cases "q = p")
      case True
      then have "y = x" using p(1) q by simp
      with x p(2) nz show ?thesis using True in_place_mono [of L m p x T ?m] by (auto simp: any_obj_ok_def)
    next
      case False
      show ?thesis by (rule any_obj_ok_mono [OF any_okD(2) [OF ok(1) q]]) (use old [OF q False] in auto)
    qed
  next
    fix a ob
    assume "am_objs ?m a = Some ob"
    then show "\<exists>q y. am_anys ?m q = Some y \<and> an_value y = a \<and> a \<noteq> nullptr"
      using any_okD(3) [OF ok(1), of a] p(1) nz by (auto split: if_splits)
  qed (use any_okD(4,5) [OF ok(1)] in auto)
  show "any_abs ?m = (any_abs m)(p \<mapsto> Some (T, v))"
    using p(1) nz old by (fastforce simp: any_abs_def option.map_comp comp_def intro!: ext option.map_cong0)
qed

section \<open>Value semantics\<close>

text \<open>
  The operations as a sequence of steps on the memory, and what they mean: an \<^verbatim>\<open>any\<close> is a variable that
  holds nothing or a typed value. \<open>any_fits\<close> is what a compiler guarantees of the place of a new object.
\<close>

datatype any_op =
    New nat | NewOf nat dap_type val | NewCopy nat nat | NewMove nat nat
  | Assign nat nat | MoveAssign nat nat | AssignVal nat dap_type val | Reset nat | Destroy nat

primrec any_do :: "layout \<Rightarrow> any_op \<Rightarrow> any_mem \<Rightarrow> any_mem option" where
  "any_do L (New p) m = Some (any_new p m)"
| "any_do L (NewOf p T v) m = any_of L p T v m"
| "any_do L (NewCopy p q) m = any_copy L p q m"
| "any_do L (NewMove p q) m = any_move L p q m"
| "any_do L (Assign p q) m = any_assign L p q m"
| "any_do L (MoveAssign p q) m = any_move_assign L p q m"
| "any_do L (AssignVal p T v) m = any_assign_val L p T v m"
| "any_do L (Reset p) m = any_reset p m"
| "any_do L (Destroy p) m = any_destroy p m"

primrec any_run :: "layout \<Rightarrow> any_op list \<Rightarrow> any_mem \<Rightarrow> any_mem option" where
  "any_run L [] m = Some m"
| "any_run L (op # ops) m = Option.bind (any_do L op m) (any_run L ops)"

definition any_start :: "nat \<Rightarrow> any_mem" where
  "any_start base = \<lparr>am_anys = Map.empty, am_objs = Map.empty, am_heap = Map.empty, am_base = base, am_brk = base\<rparr>"

type_synonym any_vars = "nat \<rightharpoonup> (dap_type \<times> val) option"

primrec any_means :: "any_op \<Rightarrow> any_vars \<Rightarrow> any_vars" where
  "any_means (New p) A = A(p \<mapsto> None)"
| "any_means (NewOf p T v) A = A(p \<mapsto> Some (T, v))"
| "any_means (NewCopy p q) A = A(p := A q)"
| "any_means (NewMove p q) A = A(p := A q, q \<mapsto> None)"
| "any_means (Assign p q) A = (if p = q then A(p \<mapsto> None) else A(p := A q))"
| "any_means (MoveAssign p q) A = A(p := A q, q \<mapsto> None)"
| "any_means (AssignVal p T v) A = A(p \<mapsto> Some (T, v))"
| "any_means (Reset p) A = A(p \<mapsto> None)"
| "any_means (Destroy p) A = A(p := None)"

definition any_fits :: "nat \<Rightarrow> nat \<Rightarrow> any_vars \<Rightarrow> bool" where
  "any_fits base p A \<longleftrightarrow> p \<notin> dom A \<and> any_end p \<le> base \<and> (\<forall>q \<in> dom A. apart p q)"

primrec any_legal :: "nat \<Rightarrow> any_op \<Rightarrow> any_vars \<Rightarrow> bool" where
  "any_legal base (New p) A \<longleftrightarrow> any_fits base p A"
| "any_legal base (NewOf p T v) A \<longleftrightarrow> any_fits base p A"
| "any_legal base (NewCopy p q) A \<longleftrightarrow> any_fits base p A \<and> q \<in> dom A"
| "any_legal base (NewMove p q) A \<longleftrightarrow> any_fits base p A \<and> q \<in> dom A"
| "any_legal base (Assign p q) A \<longleftrightarrow> p \<in> dom A \<and> q \<in> dom A"
| "any_legal base (MoveAssign p q) A \<longleftrightarrow> p \<in> dom A \<and> q \<in> dom A"
| "any_legal base (AssignVal p T v) A \<longleftrightarrow> p \<in> dom A"
| "any_legal base (Reset p) A \<longleftrightarrow> p \<in> dom A"
| "any_legal base (Destroy p) A \<longleftrightarrow> p \<in> dom A"

primrec any_all_legal :: "nat \<Rightarrow> any_op list \<Rightarrow> any_vars \<Rightarrow> bool" where
  "any_all_legal base [] A \<longleftrightarrow> True"
| "any_all_legal base (op # ops) A \<longleftrightarrow> any_legal base op A \<and> any_all_legal base ops (any_means op A)"

fun any_moves :: "any_op \<Rightarrow> bool" where
  "any_moves (NewMove p q) = True"
| "any_moves (MoveAssign p q) = True"
| "any_moves _ = False"

lemma any_abs_dom: "p \<in> dom (any_abs m) \<longleftrightarrow> (\<exists>x. am_anys m p = Some x)"
  by (auto simp: any_abs_def)

lemma any_fits_new:
  assumes "any_ok L m" "any_fits (am_base m) p (any_abs m)"
  shows "any_ok L (any_new p m)" and "any_abs (any_new p m) = (any_abs m)(p \<mapsto> None)"
    and "am_anys (any_new p m) p = Some empty_any" and "am_base (any_new p m) = am_base m"
proof -
  have "dom (any_abs m) = dom (am_anys m)" by (auto simp: any_abs_def)
  then have "am_anys m p = None" "any_end p \<le> am_base m" "\<forall>q \<in> dom (am_anys m). apart p q"
    using assms(2) by (auto simp: any_fits_def)
  then show "any_ok L (any_new p m)" "any_abs (any_new p m) = (any_abs m)(p \<mapsto> None)"
    by (rule any_new_ok [OF assms(1)])+
qed (simp_all add: any_new_def put_any_def)

lemma any_reset_ok:
  assumes ok: "any_ok L m" "wf_layout L" and p: "am_anys m p = Some x"
  obtains m' where "any_reset p m = Some m'" "any_ok L m'" "any_abs m' = (any_abs m)(p \<mapsto> None)"
    "am_anys m' = (am_anys m)(p \<mapsto> empty_any)" "am_base m' = am_base m"
  using any_reset_cleared [OF ok(1) p] cleared_ok [OF ok p] cleared_abs [OF ok p] that [of "cleared p x m"]
  by (simp add: cleared_def)

text \<open>The common end of the copies: the empty \<open>p\<close> gets a copy of what \<open>q\<close> holds.\<close>

lemma fill_type:
  assumes ok: "any_ok L m" "wf_layout L" and p: "am_anys m p = Some empty_any"
  shows "\<exists>m' x. alloc (L T) p (put_any p \<lparr>an_value = nullptr, an_type = Some T, an_heap = nullptr\<rparr> m) = Some m'
    \<and> am_anys m' p = Some x \<and> am_objs m' = am_objs m \<and> m'\<lparr>am_objs := (am_objs m)(an_value x \<mapsto> (T, v))\<rparr> = filled L p T v m"
proof -
  let ?m = "put_any p \<lparr>an_value = nullptr, an_type = Some T, an_heap = nullptr\<rparr> m"
  have "filled L p T v ?m = filled L p T v m" by (simp add: filled_def put_any_def Let_def)
  then show ?thesis using alloc_filled [of ?m p T L v] by (simp add: put_any_def)
qed

lemma filled_base: "am_base (filled L p T v m) = am_base m"
  by (simp add: filled_def Let_def)

lemma any_copy_from_ok:
  assumes ok: "any_ok L m" "wf_layout L" and p: "am_anys m p = Some empty_any" and q: "am_anys m q = Some y"
  shows "\<exists>m'. any_copy_from L p q m = Some m' \<and> any_ok L m' \<and> any_abs m' = (any_abs m)(p := any_abs m q)
    \<and> am_base m' = am_base m"
proof (cases "an_value y = nullptr")
  case True
  then have y: "y = empty_any" using any_obj_empty [OF any_okD(2) [OF ok(1) q]] by simp
  have "any_abs m p = Some None" "any_abs m q = Some None" using p q y by (simp_all add: any_abs_def)
  then show ?thesis using ok(1) p q by (auto simp: any_copy_from_def y put_any_def fun_upd_idem)
next
  case False
  obtain T v where T: "an_type y = Some T" "am_objs m (an_value y) = Some (T, v)"
    using any_obj_full [OF any_okD(2) [OF ok(1) q] False] by blast
  then have "any_abs m q = Some (Some (T, v))" using q False by (simp add: any_abs_def)
  moreover have "any_copy_from L p q m = Some (filled L p T v m)"
    using fill_type [OF ok p, of T v] T p q False by (auto simp: any_copy_from_def copyConstruct_def)
  ultimately show ?thesis using filled_ok [OF ok p, of T v] by (simp add: filled_base)
qed

lemma any_assign_val_ok:
  assumes ok: "any_ok L m" "wf_layout L" and p: "am_anys m p = Some x"
  shows "\<exists>m'. any_assign_val L p T v m = Some m' \<and> any_ok L m' \<and> any_abs m' = (any_abs m)(p \<mapsto> Some (T, v))
    \<and> am_base m' = am_base m"
proof (cases "an_type x = Some T")
  case True
  then have "an_value x \<noteq> nullptr" using any_okD(2) [OF ok(1) p] by (auto simp: any_obj_ok_def split: if_splits)
  then obtain ob where "am_objs m (an_value x) = Some ob" using any_obj_full [OF any_okD(2) [OF ok(1) p]] by blast
  then show ?thesis using any_put_ok [OF ok p True] p True by (auto simp: any_assign_val_def)
next
  case False
  obtain m1 where m1: "any_reset p m = Some m1" "any_ok L m1" "any_abs m1 = (any_abs m)(p \<mapsto> None)"
      "am_anys m1 = (am_anys m)(p \<mapsto> empty_any)" "am_base m1 = am_base m"
    by (rule any_reset_ok [OF ok p])
  then have p1: "am_anys m1 p = Some empty_any" by simp
  have "any_assign_val L p T v m = Some (filled L p T v m1)"
    using fill_type [OF m1(2) ok(2) p1, of T v] m1(1) p p1 False by (auto simp: any_assign_val_def)
  then show ?thesis using filled_ok [OF m1(2) ok(2) p1, of T v] m1(3,5) by (simp add: filled_base)
qed

lemma any_do_ok:
  assumes ok: "any_ok L m" "wf_layout L" and legal: "any_legal (am_base m) op (any_abs m)" "\<not> any_moves op"
  shows "\<exists>m'. any_do L op m = Some m' \<and> any_ok L m' \<and> any_abs m' = any_means op (any_abs m) \<and> am_base m' = am_base m"
proof (cases op)
  case (New p)
  then show ?thesis using any_fits_new [OF ok(1), of p] legal by simp
next
  case (NewOf p T v)
  then show ?thesis
    using any_fits_new [OF ok(1), of p] any_assign_val_ok [OF _ ok(2), of "any_new p m" p empty_any T v] legal
    by (simp add: any_of_def)
next
  case (NewCopy p q)
  note n = any_fits_new [OF ok(1), of p]
  obtain y where y: "am_anys m q = Some y" using legal NewCopy by (auto simp: any_abs_dom)
  moreover have "p \<noteq> q" using legal NewCopy by (auto simp: any_fits_def)
  ultimately have "am_anys (any_new p m) q = Some y" by (simp add: any_new_def put_any_def)
  then show ?thesis
    using n any_copy_from_ok [OF _ ok(2), of "any_new p m" p q y] legal NewCopy \<open>p \<noteq> q\<close> by (simp add: any_copy_def)
next
  case (Assign p q)
  obtain x y where x: "am_anys m p = Some x" "am_anys m q = Some y" using legal Assign by (auto simp: any_abs_dom)
  obtain m1 where m1: "any_reset p m = Some m1" "any_ok L m1" "any_abs m1 = (any_abs m)(p \<mapsto> None)"
      "am_anys m1 = (am_anys m)(p \<mapsto> empty_any)" "am_base m1 = am_base m"
    by (rule any_reset_ok [OF ok x(1)])
  then obtain z where "am_anys m1 q = Some z" "am_anys m1 p = Some empty_any" using x(2) by (cases "q = p") auto
  then show ?thesis
    using any_copy_from_ok [OF m1(2) ok(2), of p q z] m1 Assign by (auto simp: any_assign_def)
next
  case (AssignVal p T v)
  then obtain x where "am_anys m p = Some x" using legal by (auto simp: any_abs_dom)
  then show ?thesis using any_assign_val_ok [OF ok, of p x T v] AssignVal by simp
next
  case (Reset p)
  then obtain x where "am_anys m p = Some x" using legal by (auto simp: any_abs_dom)
  then show ?thesis using any_reset_ok [OF ok, of p x] Reset by (metis any_do.simps(8) any_means.simps(8))
next
  case (Destroy p)
  then obtain x where x: "am_anys m p = Some x" using legal by (auto simp: any_abs_dom)
  obtain m1 where m1: "any_reset p m = Some m1" "any_ok L m1" "any_abs m1 = (any_abs m)(p \<mapsto> None)"
      "am_anys m1 = (am_anys m)(p \<mapsto> empty_any)" "am_base m1 = am_base m"
    by (rule any_reset_ok [OF ok x])
  then show ?thesis using any_drop_ok [OF m1(2), of p] Destroy by (simp add: any_destroy_def)
qed (use legal in simp_all)

lemma any_run_ok:
  "any_ok L m \<Longrightarrow> wf_layout L \<Longrightarrow> any_all_legal (am_base m) ops (any_abs m) \<Longrightarrow> list_all (\<lambda>op. \<not> any_moves op) ops
   \<Longrightarrow> \<exists>m'. any_run L ops m = Some m' \<and> any_ok L m' \<and> any_abs m' = fold any_means ops (any_abs m)"
proof (induction ops arbitrary: m)
  case (Cons op ops)
  obtain m1 where m1: "any_do L op m = Some m1" "any_ok L m1" "any_abs m1 = any_means op (any_abs m)" "am_base m1 = am_base m"
    using any_do_ok [OF Cons.prems(1,2), of op] Cons.prems(3,4) by auto
  then show ?case using Cons.IH [OF m1(2) Cons.prems(2)] Cons.prems(3,4) by auto
qed simp

lemma any_start_ok: "0 < base \<Longrightarrow> any_ok L (any_start base)"
  by (simp add: any_ok_def placed_def any_start_def)

lemma any_start_abs: "any_abs (any_start base) = Map.empty" and any_start_base: "am_base (any_start base) = base"
  by (auto simp: any_abs_def any_start_def)

lemma any_ok_no_leak:
  assumes "any_ok L m" "any_abs m = Map.empty"
  shows "am_objs m = Map.empty" and "am_heap m = Map.empty"
proof -
  have "am_anys m p = None" for p using fun_cong [OF assms(2), of p] by (simp add: any_abs_def)
  then show "am_objs m = Map.empty" "am_heap m = Map.empty"
    using any_okD(3,4) [OF assms(1)] by (metis option.distinct(1) option.exhaust ext)+
qed


text \<open>The layout of the types with GCC on x86-64, where an \<^verbatim>\<open>object\<close> is too large for the buffer.\<close>

definition gcc_layout :: layout where
  "gcc_layout T = (case T of TBoolean \<Rightarrow> (1, 1) | TNull \<Rightarrow> (1, 1) | TInteger \<Rightarrow> (8, 8) | TNumber \<Rightarrow> (8, 8)
     | TString \<Rightarrow> (32, 8) | TArray _ \<Rightarrow> (24, 8) | _ \<Rightarrow> (56, 8))"

lemma wf_gcc_layout: "wf_layout gcc_layout"
  by (auto simp: wf_layout_def gcc_layout_def split: dap_type.splits)

lemmas any_legal_defs = any_fits_def apart_def any_end_def any_buffer_def


section \<open>Moving\<close>

lemma in_buffer_iff:
  assumes ok: "any_ok L m" "wf_layout L" and q: "am_anys m q = Some y" "an_value y \<noteq> nullptr"
  shows "isInBuffer q (an_value y) \<longleftrightarrow> an_heap y = nullptr"
proof -
  obtain T where T: "in_place L m q y T" using any_obj_full [OF any_okD(2) [OF ok(1) q(1)] q(2)] by blast
  have s: "0 < fst (L T)" using ok(2) by (auto simp: wf_layout_def)
  note pl = any_okD(1) [OF ok(1)]
  show ?thesis
    using in_place_heap [OF pl T] in_place_buffer [OF T _ s] placedD(2) [OF pl q(1)]
    by (cases "an_heap y = nullptr") (auto simp: isInBuffer_def any_end_def)
qed

lemma any_move_heap:
  assumes ok: "any_ok L m" "wf_layout L" and "p \<noteq> q"
    and q: "am_anys m q = Some y" "an_type y = Some T" "am_objs m (an_value y) = Some (T, v)" "an_heap y \<noteq> nullptr"
  shows "any_move L p q m = Some (m\<lparr>am_anys := (am_anys m)
    (p \<mapsto> \<lparr>an_value = an_value y, an_type = Some T, an_heap = nullptr\<rparr>,
     q \<mapsto> \<lparr>an_value = nullptr, an_type = None, an_heap = an_heap y\<rparr>)\<rparr>)"
proof -
  have "an_value y \<noteq> nullptr" using q(3) no_object_at_null(1) [OF ok(1)] by (cases "an_value y = nullptr") auto
  then have "\<not> isInBuffer q (an_value y)" using in_buffer_iff [OF ok q(1)] q(4) by simp
  with q assms(3) show ?thesis by (cases y) (simp add: any_move_def any_move_from_def any_new_def put_any_def)
qed

lemma any_move_buffer:
  assumes ok: "any_ok L m" "wf_layout L" and p: "any_fits (am_base m) p (any_abs m)"
    and q: "am_anys m q = Some y" "an_type y = Some T" "am_objs m (an_value y) = Some (T, v)" "an_heap y = nullptr"
  shows "any_move L p q m = Some (put_any q empty_any (filled L p T v (any_new p m)))"
proof -
  note n = any_fits_new [OF ok(1) p]
  have pq: "p \<noteq> q" using p q(1) by (auto simp: any_fits_def any_abs_dom)
  have "an_value y \<noteq> nullptr" using q(3) no_object_at_null(1) [OF ok(1)] by (cases "an_value y = nullptr") auto
  then have b: "isInBuffer q (an_value y)" using in_buffer_iff [OF ok q(1)] q(4) by simp
  obtain m' x where m': "alloc (L T) p (put_any p \<lparr>an_value = nullptr, an_type = Some T, an_heap = nullptr\<rparr> (any_new p m)) = Some m'"
      "am_anys m' p = Some x" "am_objs m' = am_objs (any_new p m)"
      "m'\<lparr>am_objs := (am_objs (any_new p m))(an_value x \<mapsto> (T, v))\<rparr> = filled L p T v (any_new p m)"
    using fill_type [OF n(1) ok(2) n(3), of T v] by blast
  have "am_anys (filled L p T v (any_new p m)) q = Some y"
    using pq q(1) by (simp add: filled_def any_new_def put_any_def Let_def)
  then have "am_anys m' q = Some y" using arg_cong [OF m'(4), of am_anys] by simp
  moreover have "am_anys (any_new p m) q = Some y" "am_objs (any_new p m) (an_value y) = Some (T, v)"
    using pq q by (simp_all add: any_new_def put_any_def)
  ultimately show ?thesis
    using m' b n(3) q by (cases y) (simp add: any_move_def any_move_from_def copyConstruct_def)
qed

lemma destroy_cleared:
  assumes "any_obj_ok L m p x" and "am_anys m p = Some x" and "am_objs m nullptr = None" and "am_heap m nullptr = None"
  shows "any_destroy p m = Some (m\<lparr>am_anys := (am_anys m)(p := None), am_objs := (am_objs m)(an_value x := None),
    am_heap := (am_heap m)(an_heap x := None)\<rparr>)"
  using reset_cleared [OF assms] by (simp add: any_destroy_def cleared_def)

lemma destroy_empty:
  assumes "am_anys m p = Some x" and "an_value x = nullptr"
  shows "any_destroy p m = Some (m\<lparr>am_anys := (am_anys m)(p := None)\<rparr>)"
  using assms by (simp add: any_destroy_def any_reset_def put_any_def)

text \<open>
  Moving leaks. After \<open>p\<close> was move-constructed from a \<open>q\<close> that holds a value, \<open>p\<close> holds that value and \<open>q\<close>
  nothing; but when both are destroyed, something stays behind that no \<^verbatim>\<open>any\<close> designates: the block on
  the heap, which the new owner does not know of, or, for a value in the buffer, the object in the
  buffer of \<open>q\<close>, which was copied and never destructed.
\<close>

theorem any_move_leaks:
  assumes ok: "any_ok L m" "wf_layout L" and p: "any_fits (am_base m) p (any_abs m)"
    and q: "am_anys m q = Some y" "an_type y = Some T" "am_objs m (an_value y) = Some (T, v)"
  shows "\<exists>m1 m2. any_move L p q m = Some m1 \<and> any_abs m1 = (any_abs m)(p \<mapsto> Some (T, v), q \<mapsto> None)
    \<and> any_run L [Destroy p, Destroy q] m1 = Some m2 \<and> any_abs m2 = (any_abs m)(q := None)
    \<and> (if an_heap y = nullptr then am_objs m2 (an_value y) = Some (T, v) else am_heap m2 (an_heap y) \<noteq> None)"
proof -
  note n = any_fits_new [OF ok(1) p] and null = no_object_at_null [OF ok(1)]
  have pq: "p \<noteq> q" and p0: "am_anys m p = None"
    using p q(1) by (auto simp: any_fits_def any_abs_dom)
  have nz: "an_value y \<noteq> nullptr" using q(3) null(1) by (cases "an_value y = nullptr") auto
  have qa: "any_abs m q = Some (Some (T, v))" using q nz by (simp add: any_abs_def)
  show ?thesis
  proof (cases "an_heap y = nullptr")
    case True
    let ?f = "filled L p T v (any_new p m)" and ?m1 = "put_any q empty_any (filled L p T v (any_new p m))"
    obtain x where x: "am_anys ?f = (am_anys (any_new p m))(p \<mapsto> x)" "am_objs ?f = (am_objs (any_new p m))(an_value x \<mapsto> (T, v))"
        "am_objs (any_new p m) (an_value x) = None"
      by (rule filled_place [OF n(1) ok(2) n(3), of T v])
    note fok = filled_ok [OF n(1) ok(2) n(3), of T v]
    have m1: "am_anys ?m1 = (am_anys m)(p \<mapsto> x, q \<mapsto> empty_any)" "am_objs ?m1 = (am_objs m)(an_value x \<mapsto> (T, v))"
        "am_objs m (an_value x) = None" "am_heap ?m1 = am_heap ?f"
      using x pq by (auto simp: put_any_def any_new_def)
    have xo: "any_obj_ok L ?m1 p x"
      by (rule any_obj_ok_mono [OF any_okD(2) [OF fok(1)]]) (simp_all add: x put_any_def)
    have null1: "am_objs ?m1 nullptr = None" "am_heap ?m1 nullptr = None"
      using no_object_at_null [OF fok(1)] by (simp_all add: put_any_def)
    have "any_run L [Destroy p, Destroy q] ?m1 = Some (?m1\<lparr>am_anys := (am_anys m)(q := None), am_objs := am_objs m,
        am_heap := (am_heap ?m1)(an_heap x := None)\<rparr>)"
      using destroy_cleared [OF xo _ null1] m1(1-3) pq p0 by (simp add: destroy_empty fun_upd_twist fun_upd_idem)
    moreover have "any_abs ?m1 = (any_abs m)(p \<mapsto> Some (T, v), q \<mapsto> None)"
    proof
      fix r
      show "any_abs ?m1 r = ((any_abs m)(p \<mapsto> Some (T, v), q \<mapsto> None)) r"
        using fun_cong [OF fok(2), of r] n(2) by (cases "r = q") (simp_all add: any_abs_def put_any_def cong: if_cong)
    qed
    ultimately show ?thesis
      using any_move_buffer [OF ok p q True] q(3) True by (simp add: any_abs_def fun_eq_iff cong: if_cong)
  next
    case False
    let ?m1 = "m\<lparr>am_anys := (am_anys m)(p \<mapsto> \<lparr>an_value = an_value y, an_type = Some T, an_heap = nullptr\<rparr>,
      q \<mapsto> \<lparr>an_value = nullptr, an_type = None, an_heap = an_heap y\<rparr>)\<rparr>"
    let ?m2 = "m\<lparr>am_anys := (am_anys m)(q := None), am_objs := (am_objs m)(an_value y := None)\<rparr>"
    have old: "an_value z \<noteq> an_value y" if "am_anys m r = Some z" "r \<noteq> q" "an_value z \<noteq> nullptr" for r z
      using values_differ [OF ok that(1) q(1)] that nz by blast
    have "any_destroy p ?m1 = Some (?m1\<lparr>am_anys := (am_anys ?m1)(p := None), am_objs := (am_objs m)(an_value y := None)\<rparr>)"
      using pq nz q(3) by (simp add: any_destroy_def any_reset_def destruct_def any_free_def put_any_def)
    then have "any_run L [Destroy p, Destroy q] ?m1 = Some ?m2"
      using pq p0 by (simp add: destroy_empty fun_upd_twist fun_upd_idem)
    moreover have "any_abs ?m1 = (any_abs m)(p \<mapsto> Some (T, v), q \<mapsto> None)"
      using nz q(3) by (simp add: any_abs_def fun_eq_iff cong: if_cong)
    moreover have "any_abs ?m2 = (any_abs m)(q := None)"
    proof
      fix r
      show "any_abs ?m2 r = ((any_abs m)(q := None)) r"
        using old [of r] by (cases "am_anys m r") (auto simp: any_abs_def)
    qed
    moreover obtain U where "in_place L m q y U" using any_obj_full [OF any_okD(2) [OF ok(1) q(1)] nz] by blast
    then have "am_heap m (an_heap y) \<noteq> None" using False by (auto simp: in_place_def)
    ultimately show ?thesis using any_move_heap [OF ok pq q False] False by simp
  qed
qed

definition moved_from :: any_mem where
  "moved_from = \<lparr>am_anys = [64 \<mapsto> \<lparr>an_value = 4096, an_type = Some TObject, an_heap = 4096\<rparr>],
     am_objs = [4096 \<mapsto> (TObject, VObject [])], am_heap = [4096 \<mapsto> 64], am_base = 4096, am_brk = 4160\<rparr>"

lemma moved_from_reached: "any_run gcc_layout [NewOf 64 TObject (VObject [])] (any_start 4096) = Some moved_from"
  by (simp add: any_of_def any_assign_val_def any_new_def any_reset_def put_any_def alloc_def gcc_layout_def any_start_def
      isInBuffer_def any_buffer_def alignUp_def moved_from_def)

lemma moved_from_ok: "any_ok gcc_layout moved_from"
  using any_run_ok [OF any_start_ok wf_gcc_layout, of 4096 "[NewOf 64 TObject (VObject [])]"] moved_from_reached
  by (simp add: any_start_abs any_start_base any_legal_defs)

lemma moved_from_facts:
  "any_fits (am_base moved_from) 128 (any_abs moved_from)"
  "am_anys moved_from 64 = Some \<lparr>an_value = 4096, an_type = Some TObject, an_heap = 4096\<rparr>"
  "am_objs moved_from 4096 = Some (TObject, VObject [])"
proof -
  have "q = 64" if "q \<in> dom (any_abs moved_from)" for q
    using that by (auto simp: any_abs_def moved_from_def split: if_splits)
  moreover have "am_base moved_from = 4096" by (simp add: moved_from_def)
  ultimately show "any_fits (am_base moved_from) 128 (any_abs moved_from)" by (fastforce simp: any_legal_defs)
qed (simp_all add: moved_from_def)

theorem any_move_leaks_witness:
  "\<exists>m1 m2. any_move gcc_layout 128 64 moved_from = Some m1
    \<and> any_abs m1 = (any_abs moved_from)(128 \<mapsto> Some (TObject, VObject []), 64 \<mapsto> None)
    \<and> any_run gcc_layout [Destroy 128, Destroy 64] m1 = Some m2 \<and> any_abs m2 = (any_abs moved_from)(64 := None)
    \<and> am_heap m2 4096 \<noteq> None"
  using any_move_leaks [OF moved_from_ok wf_gcc_layout moved_from_facts(1,2), of TObject "VObject []"] moved_from_facts(3)
  by simp



text \<open>
  The storage that \<^verbatim>\<open>alloc\<close> finds for a value is aligned, and the bytes of the value lie within the
  buffer or within the block that was allocated for them, whatever the address of the \<^verbatim>\<open>any\<close>.
\<close>

theorem alloc_bounds:
  assumes "am_anys m p = Some x" and "an_value x = nullptr" and "0 < sz" and "0 < align"
  shows "\<exists>m' x'. alloc (sz, align) p m = Some m' \<and> am_anys m' p = Some x' \<and> an_value x' mod align = 0
    \<and> (if an_heap x' = an_heap x \<and> am_brk m' = am_brk m
       then any_buffer p \<le> an_value x' \<and> an_value x' + sz \<le> any_buffer p + 32
       else an_heap x' \<le> an_value x' \<and> an_value x' + sz \<le> an_heap x' + (sz + align)
         \<and> am_heap m' (an_heap x') = Some (sz + align))"
proof (cases "isInBuffer p (alignUp (any_buffer p) align + sz - 1)")
  case True
  then show ?thesis
    using assms alignUp_bounds [OF assms(4)] by (auto simp: alloc_def put_any_def isInBuffer_def)
next
  case False
  then show ?thesis
    using assms alignUp_bounds [OF assms(4), of "am_brk m"] by (auto simp: alloc_def put_any_def Let_def)
qed

theorem alloc_bounds_witness:
  "\<exists>m' x'. alloc (24, 16) 8 (any_new 8 (any_start 4096)) = Some m' \<and> am_anys m' 8 = Some x' \<and> an_value x' mod 16 = 0
    \<and> (if an_heap x' = nullptr \<and> am_brk m' = 4096
       then any_buffer 8 \<le> an_value x' \<and> an_value x' + 24 \<le> any_buffer 8 + 32
       else an_heap x' \<le> an_value x' \<and> an_value x' + 24 \<le> an_heap x' + (24 + 16)
         \<and> am_heap m' (an_heap x') = Some (24 + 16))"
  using alloc_bounds [of "any_new 8 (any_start 4096)" 8 empty_any 24 16]
  by (simp add: any_new_def put_any_def any_start_def)

end
