(* ===== verification/TypeInfos.thy ===== *)
theory TypeInfos
  imports Values
begin

section \<open>The lifetime of the type information\<close>

text \<open>
  \<^verbatim>\<open>src/typeof.cpp\<close>: the singleton \<^verbatim>\<open>TypeInfos\<close> owns the type information of the basic types and, in
  \<^verbatim>\<open>types\<close>, of the types that \<^verbatim>\<open>TypeInfo::create\<close> made. It counts references: one of its own, held by the
  static \<^verbatim>\<open>Instance\<close> until the process ends, and one for every \<^verbatim>\<open>dap::initialize()\<close> without its
  \<^verbatim>\<open>dap::terminate()\<close>. The memory of the singleton is static, so \<^verbatim>\<open>get()\<close> always gives a pointer; \<open>tis_alive\<close>
  says whether there is an object in it. \<^term>\<open>None\<close> is a failed assertion or an access to the destructed
  object. A reference count has 64 bits.
\<close>

record type_infos =
  tis_alive :: bool
  tis_refcount :: "64 word"
  tis_types :: "dap_type list"

text \<open>The first call of \<^verbatim>\<open>TypeInfos::get()\<close> constructs the instance.\<close>

definition TypeInfos_new :: type_infos where
  "TypeInfos_new = \<lparr>tis_alive = True, tis_refcount = 1, tis_types = []\<rparr>"

definition TypeInfos_reference :: "type_infos \<Rightarrow> type_infos option" where
  "TypeInfos_reference t =
     (if \<not> tis_alive t \<or> \<not> tis_refcount t > 0 then None else Some (t\<lparr>tis_refcount := tis_refcount t + 1\<rparr>))"

definition TypeInfos_release :: "type_infos \<Rightarrow> type_infos option" where
  "TypeInfos_release t =
     (if \<not> tis_alive t then None
      else
        (let n = tis_refcount t - 1
         in Some (if n = 0 then t\<lparr>tis_refcount := n, tis_alive := False, tis_types := []\<rparr> else t\<lparr>tis_refcount := n\<rparr>)))"

definition deleteOnExit :: "dap_type \<Rightarrow> type_infos \<Rightarrow> type_infos option" where
  "deleteOnExit T t = (if \<not> tis_alive t then None else Some (t\<lparr>tis_types := tis_types t @ [T]\<rparr>))"

text \<open>
  The calls of a program: \<^verbatim>\<open>initialize()\<close>, \<^verbatim>\<open>terminate()\<close>, \<^verbatim>\<open>TypeInfo::create\<close> on the first use of a type,
  and the destructor of the static instance when the process ends.
\<close>

datatype lib_op = Initialize | Terminate | Create dap_type | ProcessExit

primrec lib_do :: "lib_op \<Rightarrow> type_infos \<Rightarrow> type_infos option" where
  "lib_do Initialize t = TypeInfos_reference t"
| "lib_do Terminate t = TypeInfos_release t"
| "lib_do (Create T) t = deleteOnExit T t"
| "lib_do ProcessExit t = TypeInfos_release t"

primrec lib_run :: "lib_op list \<Rightarrow> type_infos \<Rightarrow> type_infos option" where
  "lib_run [] t = Some t"
| "lib_run (op # ops) t = Option.bind (lib_do op t) (lib_run ops)"

text \<open>References taken and given back, and the types created, by a sequence of calls.\<close>

definition references :: "lib_op list \<Rightarrow> nat" where
  "references ops = length (filter (\<lambda>op. op = Initialize) ops)"

definition releases :: "lib_op list \<Rightarrow> nat" where
  "releases ops = length (filter (\<lambda>op. op = Terminate \<or> op = ProcessExit) ops)"

fun created :: "lib_op list \<Rightarrow> dap_type list" where
  "created [] = []"
| "created (Create T # ops) = T # created ops"
| "created (op # ops) = created ops"

definition counted :: "nat \<Rightarrow> type_infos \<Rightarrow> bool" where
  "counted n t \<longleftrightarrow> tis_alive t \<and> 0 < n \<and> n < 2 ^ 64 \<and> tis_refcount t = of_nat n"

lemma count_zero: "n < 2 ^ 64 \<Longrightarrow> (of_nat n :: 64 word) = 0 \<longleftrightarrow> n = 0"
  by (auto simp: word_of_nat_eq_0_iff dest: dvd_imp_le)

lemma counted_step:
  assumes "counted n t"
  shows "n + 1 < 2 ^ 64 \<Longrightarrow> \<exists>t'. TypeInfos_reference t = Some t' \<and> counted (n + 1) t' \<and> tis_types t' = tis_types t"
    and "1 < n \<Longrightarrow> \<exists>t'. TypeInfos_release t = Some t' \<and> counted (n - 1) t' \<and> tis_types t' = tis_types t"
    and "n = 1 \<Longrightarrow> TypeInfos_release t = Some (t\<lparr>tis_refcount := 0, tis_alive := False, tis_types := []\<rparr>)"
    and "\<exists>t'. deleteOnExit T t = Some t' \<and> counted n t' \<and> tis_types t' = tis_types t @ [T]"
proof -
  have r: "tis_refcount t = of_nat n" "0 < n" "n < 2 ^ 64" "tis_alive t" using assms by (auto simp: counted_def)
  then have "tis_refcount t \<noteq> 0" by (simp add: count_zero)
  show "\<exists>t'. TypeInfos_reference t = Some t' \<and> counted (n + 1) t' \<and> tis_types t' = tis_types t" if "n + 1 < 2 ^ 64"
    using r that \<open>tis_refcount t \<noteq> 0\<close> by (simp add: TypeInfos_reference_def counted_def word_gt_0)
  have "of_nat (n - 1) \<noteq> (0 :: 64 word)" if "1 < n"
    using count_zero [of "n - 1"] r(3) that by (simp del: of_nat_diff)
  then show "\<exists>t'. TypeInfos_release t = Some t' \<and> counted (n - 1) t' \<and> tis_types t' = tis_types t" if "1 < n"
    using r that by (simp add: TypeInfos_release_def counted_def Let_def of_nat_diff)
  show "TypeInfos_release t = Some (t\<lparr>tis_refcount := 0, tis_alive := False, tis_types := []\<rparr>)" if "n = 1"
    using r that by (simp add: TypeInfos_release_def)
  show "\<exists>t'. deleteOnExit T t = Some t' \<and> counted n t' \<and> tis_types t' = tis_types t @ [T]"
    using assms by (simp add: deleteOnExit_def counted_def)
qed

lemma lib_counts [simp]:
  "references [] = 0" "references (op # ops) = (if op = Initialize then 1 else 0) + references ops"
  "releases [] = 0" "releases (op # ops) = (if op = Terminate \<or> op = ProcessExit then 1 else 0) + releases ops"
  by (simp_all add: references_def releases_def)

lemma lib_run_counted:
  "counted n t \<Longrightarrow> n + length ops < 2 ^ 64
   \<Longrightarrow> (\<And>k. k < length ops \<Longrightarrow> releases (take k ops) < n + references (take k ops))
   \<Longrightarrow> \<exists>t'. lib_run ops t = Some t'
     \<and> (if releases ops < n + references ops
        then counted (n + references ops - releases ops) t' \<and> tis_types t' = tis_types t @ created ops
        else \<not> tis_alive t' \<and> tis_types t' = [])"
proof (induction ops arbitrary: n t)
  case (Cons op ops)
  have later: "releases (take k ops) + releases [op] < n + references [op] + references (take k ops)"
    if "k < length ops" for k
    using Cons.prems(3) [of "Suc k"] that by simp
  have n: "0 < n" using Cons.prems(1) by (simp add: counted_def)
  let ?goal = "\<exists>t'. lib_run (op # ops) t = Some t'
     \<and> (if releases (op # ops) < n + references (op # ops)
        then counted (n + references (op # ops) - releases (op # ops)) t' \<and> tis_types t' = tis_types t @ created (op # ops)
        else \<not> tis_alive t' \<and> tis_types t' = [])"
  have release: ?goal if op: "op = Terminate \<or> op = ProcessExit"
  proof (cases "n = 1")
    case True
    then have "ops = []" using later [of 0] op by (cases ops) auto
    then show ?thesis using counted_step(3) [OF Cons.prems(1) True] op True by auto
  next
    case False
    then obtain t1 where t1: "TypeInfos_release t = Some t1" "counted (n - 1) t1" "tis_types t1 = tis_types t"
      using counted_step(2) [OF Cons.prems(1)] n by auto
    have "\<exists>t'. lib_run ops t1 = Some t' \<and> (if releases ops < n - 1 + references ops
        then counted (n - 1 + references ops - releases ops) t' \<and> tis_types t' = tis_types t1 @ created ops
        else \<not> tis_alive t' \<and> tis_types t' = [])"
    proof (rule Cons.IH [OF t1(2)])
      show "n - 1 + length ops < 2 ^ 64" using Cons.prems(2) by simp
      show "releases (take k ops) < n - 1 + references (take k ops)" if "k < length ops" for k
        using later [OF that] op n by auto
    qed
    moreover have "releases ops < n - 1 + references ops \<longleftrightarrow> Suc (releases ops) < n + references ops"
        "n - 1 + references ops - releases ops = n + references ops - Suc (releases ops)" using n by auto
    ultimately show ?thesis using t1 op by (auto split: if_splits)
  qed
  show ?case
  proof (cases op)
    case Initialize
    obtain t1 where t1: "TypeInfos_reference t = Some t1" "counted (n + 1) t1" "tis_types t1 = tis_types t"
      using counted_step(1) [OF Cons.prems(1)] Cons.prems(2) by auto
    then show ?thesis using Cons.IH [OF t1(2)] Cons.prems(2) later Initialize by (auto split: if_splits)
  next
    case (Create T)
    obtain t1 where t1: "deleteOnExit T t = Some t1" "counted n t1" "tis_types t1 = tis_types t @ [T]"
      using counted_step(4) [OF Cons.prems(1)] by auto
    then show ?thesis using Cons.IH [OF t1(2)] Cons.prems(2) later Create by (auto split: if_splits)
  qed (use release in simp_all)
qed (simp add: counted_def)



end
