(* ===== verification/Socket.thy ===== *)
theory Socket
  imports ReaderWriterLock IO
begin

section \<open>Sockets\<close>

text \<open>
  \<^verbatim>\<open>src/socket.{h,cpp}\<close>, as compiled on Linux. The system calls are not part of the sources: the record
  \<open>sys\<close> has those the code makes, each acting on the state \<open>'o\<close> of the system; a descriptor is an \<open>int\<close>, an
  \<open>'i\<close> is what \<^verbatim>\<open>getaddrinfo\<close> returns. The model follows one thread through a \<^verbatim>\<open>Socket::Shared\<close>; \<open>sh_held\<close>
  is the number of read locks that this thread has on its mutex. \<^term>\<open>None\<close> is a call that never
  returns, because the thread waits for a lock that it holds itself, or one that waits for bytes that
  have not arrived.
\<close>

datatype sockopt = SO_REUSEADDR | SO_LINGER | TCP_NODELAY

record ('o, 'i) sys =
  os_getaddrinfo :: "string \<Rightarrow> string \<Rightarrow> 'o \<Rightarrow> 'i option \<times> 'o"
  os_freeaddrinfo :: "'i \<Rightarrow> 'o \<Rightarrow> 'o"
  os_socket :: "'i \<Rightarrow> 'o \<Rightarrow> int \<times> 'o"
  os_setsockopt :: "int \<Rightarrow> sockopt \<Rightarrow> 'o \<Rightarrow> 'o"
  os_SO_ERROR :: "int \<Rightarrow> 'o \<Rightarrow> 8 word \<times> 'o"
  os_O_NONBLOCK :: "32 word"
  os_F_GETFL :: "int \<Rightarrow> 'o \<Rightarrow> 32 word \<times> 'o"
  os_F_SETFL :: "int \<Rightarrow> 32 word \<Rightarrow> 'o \<Rightarrow> 32 word \<times> 'o"
  os_shutdown :: "int \<Rightarrow> 'o \<Rightarrow> 'o"
  os_close :: "int \<Rightarrow> 'o \<Rightarrow> 'o"
  os_recv :: "int \<Rightarrow> 32 word \<Rightarrow> 'o \<Rightarrow> ((int \<times> bytes) \<times> 'o) option"
  os_send :: "int \<Rightarrow> bytes \<Rightarrow> 32 word \<Rightarrow> 'o \<Rightarrow> int \<times> 'o"
  os_bind :: "int \<Rightarrow> 'i \<Rightarrow> 'o \<Rightarrow> int \<times> 'o"
  os_listen :: "int \<Rightarrow> int \<Rightarrow> 'o \<Rightarrow> int \<times> 'o"
  os_accept :: "int \<Rightarrow> 'o \<Rightarrow> int \<times> 'o"
  os_connect :: "int \<Rightarrow> 'i \<Rightarrow> 'o \<Rightarrow> int \<times> 'o"
  os_select :: "int \<Rightarrow> nat \<Rightarrow> nat \<Rightarrow> 'o \<Rightarrow> int \<times> 'o"

definition InvalidSocket :: int where
  "InvalidSocket = - 1"

definition setBlocking :: "('o, 'i) sys \<Rightarrow> int \<Rightarrow> bool \<Rightarrow> 'o \<Rightarrow> bool \<times> 'o" where
  "setBlocking S s blocking w =
     (case os_F_GETFL S s w of
        (arg, w) \<Rightarrow>
          if sint arg < 0 then (False, w)
          else
            (case os_F_SETFL S s (if blocking then and arg (not (os_O_NONBLOCK S)) else or arg (os_O_NONBLOCK S)) w of
               (r, w) \<Rightarrow> (sint r \<ge> 0, w)))"

definition errored :: "('o, 'i) sys \<Rightarrow> int \<Rightarrow> 'o \<Rightarrow> bool \<times> 'o" where
  "errored S s w = (if s = InvalidSocket then (True, w) else (case os_SO_ERROR S s w of (error, w) \<Rightarrow> (error \<noteq> 0, w)))"

subsection \<open>Socket::Shared\<close>

record 'i Shared =
  sh_info :: "'i option"
  sh_s :: int
  sh_held :: nat

definition Shared_new :: "'i option \<Rightarrow> int \<Rightarrow> 'i Shared" where
  "Shared_new info socket = \<lparr>sh_info = info, sh_s = socket, sh_held = 0\<rparr>"

definition setOptions :: "('o, 'i) sys \<Rightarrow> 'i Shared \<Rightarrow> 'o \<Rightarrow> 'o" where
  "setOptions S h w =
     (if sh_s h = InvalidSocket then w
      else os_setsockopt S (sh_s h) TCP_NODELAY (os_setsockopt S (sh_s h) SO_LINGER (os_setsockopt S (sh_s h) SO_REUSEADDR w)))"

definition Shared_create :: "('o, 'i) sys \<Rightarrow> string \<Rightarrow> string \<Rightarrow> 'o \<Rightarrow> 'i Shared option \<times> 'o" where
  "Shared_create S address port w =
     (case os_getaddrinfo S address port w of
        (Some info, w) \<Rightarrow>
          (case os_socket S info w of
             (socket, w) \<Rightarrow> let h = Shared_new (Some info) socket in (Some h, setOptions S h w))
      | (None, w) \<Rightarrow> (None, w))"

text \<open>A \<^verbatim>\<open>WLock\<close> waits until there is no read lock.\<close>

definition Shared_isOpen :: "('o, 'i) sys \<Rightarrow> 'i Shared \<Rightarrow> 'o \<Rightarrow> (bool \<times> 'i Shared \<times> 'o) option" where
  "Shared_isOpen S h w =
     (case (if sh_s h \<noteq> InvalidSocket then errored S (sh_s h) w else (True, w)) of
        (False, w) \<Rightarrow> Some (True, h, w)
      | (True, w) \<Rightarrow> if sh_held h > 0 then None else Some (False, h\<lparr>sh_s := InvalidSocket\<rparr>, w))"

definition Shared_close :: "('o, 'i) sys \<Rightarrow> 'i Shared \<Rightarrow> 'o \<Rightarrow> ('i Shared \<times> 'o) option" where
  "Shared_close S h w =
     (let w = (if sh_s h \<noteq> InvalidSocket then os_shutdown S (sh_s h) w else w)
      in if sh_held h > 0 then None
         else if sh_s h \<noteq> InvalidSocket then Some (h\<lparr>sh_s := InvalidSocket\<rparr>, os_close S (sh_s h) w)
         else Some (h, w))"

definition Shared_destroy :: "('o, 'i) sys \<Rightarrow> 'i Shared \<Rightarrow> 'o \<Rightarrow> 'o option" where
  "Shared_destroy S h w =
     map_option snd (Shared_close S h (case sh_info h of Some info \<Rightarrow> os_freeaddrinfo S info w | None \<Rightarrow> w))"

text \<open>\<^verbatim>\<open>read\<close> and \<^verbatim>\<open>write\<close> pass the size as an \<^verbatim>\<open>int\<close>.\<close>

definition Shared_read :: "('o, 'i) sys \<Rightarrow> 'i Shared \<Rightarrow> nat \<Rightarrow> 'o \<Rightarrow> (bytes \<times> 'o) option" where
  "Shared_read S h n w =
     (if sh_s h = InvalidSocket then Some ([], w)
      else map_option (\<lambda>((len, data), w). (if len < 0 then [] else take (nat len) data, w))
             (os_recv S (sh_s h) (of_nat n) w))"

definition Shared_write :: "('o, 'i) sys \<Rightarrow> 'i Shared \<Rightarrow> bytes \<Rightarrow> 'o \<Rightarrow> bool \<times> 'o" where
  "Shared_write S h buffer w =
     (if sh_s h = InvalidSocket then (False, w)
      else if length buffer = 0 then (True, w)
      else (case os_send S (sh_s h) buffer (of_nat (length buffer)) w of (r, w) \<Rightarrow> (r > 0, w)))"

text \<open>\<^verbatim>\<open>lock(f)\<close> runs \<^verbatim>\<open>f\<close> under a read lock.\<close>

definition locked :: "'i Shared \<Rightarrow> 'i Shared" where
  "locked h = h\<lparr>sh_held := sh_held h + 1\<rparr>"

definition unlocked :: "'i Shared \<Rightarrow> 'i Shared" where
  "unlocked h = h\<lparr>sh_held := sh_held h - 1\<rparr>"

subsection \<open>Socket\<close>

text \<open>The constructor. \<^verbatim>\<open>shared.reset()\<close> drops the only reference, so the \<^verbatim>\<open>Shared\<close> is destructed within \<^verbatim>\<open>lock\<close>.\<close>

definition Socket_new :: "('o, 'i) sys \<Rightarrow> string \<Rightarrow> string \<Rightarrow> 'o \<Rightarrow> ('i Shared option \<times> 'o) option" where
  "Socket_new S address port w =
     (case Shared_create S address port w of
        (Some h, w) \<Rightarrow>
          (case sh_info h of
             None \<Rightarrow> None
           | Some info \<Rightarrow>
               (case os_bind S (sh_s h) info w of
                  (r, w) \<Rightarrow>
                    if r \<noteq> 0 then map_option (Pair None) (Shared_destroy S (locked h) w)
                    else
                      (case os_listen S (sh_s h) 0 w of
                         (r, w) \<Rightarrow>
                           if r \<noteq> 0 then map_option (Pair None) (Shared_destroy S (locked h) w)
                           else Some (Some (unlocked (locked h)), w))))
      | (None, w) \<Rightarrow> Some (None, w))"

definition Socket_accept :: "('o, 'i) sys \<Rightarrow> 'i Shared option \<Rightarrow> 'o \<Rightarrow> 'i Shared option \<times> 'o" where
  "Socket_accept S shared w =
     (case shared of
        None \<Rightarrow> (None, w)
      | Some h \<Rightarrow>
          (case (if sh_s h \<noteq> InvalidSocket then errored S (sh_s h) w else (True, w)) of
             (True, w) \<Rightarrow> (None, w)
           | (False, w) \<Rightarrow>
               (case os_accept S (sh_s h) w of
                  (accepted, w) \<Rightarrow>
                    if accepted \<noteq> InvalidSocket
                    then (let out = Shared_new None accepted in (Some out, setOptions S out w))
                    else (None, w))))"

definition Socket_isOpen :: "('o, 'i) sys \<Rightarrow> 'i Shared option \<Rightarrow> 'o \<Rightarrow> (bool \<times> 'i Shared option \<times> 'o) option" where
  "Socket_isOpen S shared w =
     (case shared of
        None \<Rightarrow> Some (False, None, w)
      | Some h \<Rightarrow> map_option (\<lambda>(b, h, w). (b, Some h, w)) (Shared_isOpen S h w))"

definition Socket_close :: "('o, 'i) sys \<Rightarrow> 'i Shared option \<Rightarrow> 'o \<Rightarrow> ('i Shared option \<times> 'o) option" where
  "Socket_close S shared w =
     (case shared of None \<Rightarrow> Some (None, w) | Some h \<Rightarrow> map_option (map_prod Some id) (Shared_close S h w))"

text \<open>\<^verbatim>\<open>timeoutMillis\<close> as a \<^verbatim>\<open>timeval\<close>; the microseconds are computed with 32 bits.\<close>

definition timeval :: "32 word \<Rightarrow> nat \<times> nat" where
  "timeval timeoutMillis =
     (let microseconds = timeoutMillis * 1000;
          tv_sec = unat microseconds div 1000000
      in (tv_sec, unat (microseconds - of_nat (tv_sec * 1000000))))"

definition connect_within :: "('o, 'i) sys \<Rightarrow> int \<Rightarrow> 'i \<Rightarrow> 32 word \<Rightarrow> 'o \<Rightarrow> bool \<times> 'o" where
  "connect_within S socket info timeoutMillis w =
     (if socket = InvalidSocket then (False, w)
      else if timeoutMillis = 0 then (case os_connect S socket info w of (r, w) \<Rightarrow> (r = 0, w))
      else
        (case setBlocking S socket False w of
           (False, w) \<Rightarrow> (False, w)
         | (True, w) \<Rightarrow>
             (case os_connect S socket info w of
                (res, w) \<Rightarrow>
                  if res = 0 then setBlocking S socket True w
                  else
                    (case timeval timeoutMillis of
                       (sec, usec) \<Rightarrow>
                         (case os_select S (socket + 1) sec usec w of
                            (res, w) \<Rightarrow>
                              if res > 0
                              then (case errored S socket w of
                                      (True, w) \<Rightarrow> (False, w)
                                    | (False, w) \<Rightarrow> setBlocking S socket True w)
                              else (False, w))))))"

text \<open>When \<^verbatim>\<open>connect\<close> returns without the \<^verbatim>\<open>Shared\<close>, its last reference goes and it is destructed.\<close>

definition Socket_connect :: "('o, 'i) sys \<Rightarrow> string \<Rightarrow> string \<Rightarrow> 32 word \<Rightarrow> 'o \<Rightarrow> ('i Shared option \<times> 'o) option" where
  "Socket_connect S address port timeoutMillis w =
     (case Shared_create S address port w of
        (None, w) \<Rightarrow> Some (None, w)
      | (Some h, w) \<Rightarrow>
          (case sh_info h of
             None \<Rightarrow> None
           | Some info \<Rightarrow>
               (case connect_within S (sh_s h) info timeoutMillis w of
                  (False, w) \<Rightarrow> map_option (Pair None) (Shared_destroy S h w)
                | (True, w) \<Rightarrow>
                    (case Shared_isOpen S h w of
                       None \<Rightarrow> None
                     | Some (True, h, w) \<Rightarrow> Some (Some h, w)
                     | Some (False, h, w) \<Rightarrow> map_option (Pair None) (Shared_destroy S h w)))))"

section \<open>Descriptors\<close>

text \<open>
  What the code relies on of the system: \<^verbatim>\<open>socket\<close> and \<^verbatim>\<open>accept\<close> give a descriptor that was not open, or fail,
  \<^verbatim>\<open>close\<close> closes one, and no other call opens or closes any.
\<close>

definition opens :: "('o \<Rightarrow> int set) \<Rightarrow> 'o \<Rightarrow> int \<times> 'o \<Rightarrow> bool" where
  "opens fds w r \<longleftrightarrow>
     (if fst r = InvalidSocket then fds (snd r) = fds w
      else fst r \<notin> fds w \<and> fds (snd r) = insert (fst r) (fds w))"

locale descriptors =
  fixes S :: "('o, 'i) sys" and fds :: "'o \<Rightarrow> int set"
  assumes socket: "opens fds w (os_socket S i w)"
    and accept: "opens fds w (os_accept S s w)"
    and close: "fds (os_close S s w) = fds w - {s}"
    and keep [simp]: "fds (snd (os_getaddrinfo S a p w)) = fds w" "fds (os_freeaddrinfo S i w) = fds w"
      "fds (os_setsockopt S s opt w) = fds w" "fds (snd (os_SO_ERROR S s w)) = fds w"
      "fds (snd (os_F_GETFL S s w)) = fds w" "fds (snd (os_F_SETFL S s fl w)) = fds w"
      "fds (os_shutdown S s w) = fds w" "os_recv S s n w = Some (got, w') \<Longrightarrow> fds w' = fds w" "fds (snd (os_send S s d n w)) = fds w"
      "fds (snd (os_bind S s i w)) = fds w" "fds (snd (os_listen S s b w)) = fds w"
      "fds (snd (os_connect S s i w)) = fds w" "fds (snd (os_select S s sec usec w)) = fds w"
begin

lemma setOptions_fds [simp]: "fds (setOptions S h w) = fds w"
  by (simp add: setOptions_def)

lemma snd_keeps: "fds (snd c) = fds w \<Longrightarrow> c = (r, w') \<Longrightarrow> fds w' = fds w"
  by simp

lemmas kept = keep(1,4-6,9-13) [THEN snd_keeps]

lemma setBlocking_fds: "setBlocking S s b w = (r, w') \<Longrightarrow> fds w' = fds w"
  by (auto simp: setBlocking_def simp del: keep split: prod.splits if_splits dest!: kept)

lemma errored_fds: "errored S s w = (r, w') \<Longrightarrow> fds w' = fds w"
  by (auto simp: errored_def simp del: keep split: prod.splits if_splits dest!: kept)

lemma connect_within_fds: "connect_within S s i t w = (r, w') \<Longrightarrow> fds w' = fds w"
  by (auto simp: connect_within_def simp del: keep split: prod.splits bool.splits if_splits
      dest!: setBlocking_fds errored_fds kept)

lemma create_opens:
  assumes "Shared_create S a p w = (r, w')"
  shows "case r of None \<Rightarrow> fds w' = fds w
    | Some h \<Rightarrow> sh_held h = 0 \<and> sh_info h \<noteq> None \<and> opens fds w (sh_s h, w')"
proof (cases "os_getaddrinfo S a p w")
  case (Pair io w1)
  then have w1: "fds w1 = fds w" using keep(1) [of a p w] by simp
  then show ?thesis
  proof (cases io)
    case (Some info)
    obtain s w2 where s: "os_socket S info w1 = (s, w2)" by fastforce
    then show ?thesis
      using assms Pair Some socket [of w1 info] w1 by (auto simp: Shared_create_def Shared_new_def opens_def Let_def split: if_splits)
  qed (use assms Pair in \<open>auto simp: Shared_create_def\<close>)
qed

lemma destroy_closes:
  assumes "sh_held h = 0"
  shows "\<exists>w'. Shared_destroy S h w = Some w' \<and> fds w' = (if sh_s h = InvalidSocket then fds w else fds w - {sh_s h})"
  using assms by (auto simp: Shared_destroy_def Shared_close_def close split: option.splits)

lemma connect_accounts:
  "\<exists>r w'. Socket_connect S a p t w = Some (r, w')
    \<and> (case r of
         Some h \<Rightarrow> sh_s h \<noteq> InvalidSocket \<and> sh_s h \<notin> fds w \<and> fds w' = insert (sh_s h) (fds w)
       | None \<Rightarrow> fds w' = fds w
           \<or> (\<exists>h i w1 w2 w3. Shared_create S a p w = (Some h, w1) \<and> sh_info h = Some i
                \<and> connect_within S (sh_s h) i t w1 = (True, w2) \<and> errored S (sh_s h) w2 = (True, w3)
                \<and> sh_s h \<notin> fds w \<and> fds w' = insert (sh_s h) (fds w)))"
proof (cases "Shared_create S a p w")
  case (Pair r0 w1)
  note c = create_opens [OF Pair]
  show ?thesis
  proof (cases r0)
    case None
    then show ?thesis using Pair c by (simp add: Socket_connect_def)
  next
    case (Some h)
    then obtain i where i: "sh_info h = Some i" "sh_held h = 0" "opens fds w (sh_s h, w1)" using c by auto
    obtain b w2 where b: "connect_within S (sh_s h) i t w1 = (b, w2)" by fastforce
    then have w2: "fds w2 = fds w1" by (rule connect_within_fds)
    show ?thesis
    proof (cases b)
      case False
      obtain w3 where "Shared_destroy S h w2 = Some w3" "fds w3 = (if sh_s h = InvalidSocket then fds w2 else fds w2 - {sh_s h})"
        using destroy_closes [OF i(2)] by blast
      then show ?thesis using Pair Some i b False w2 by (auto simp: Socket_connect_def opens_def split: if_splits)
    next
      case True
      then have s: "sh_s h \<noteq> InvalidSocket" using b by (auto simp: connect_within_def)
      obtain e w3 where e: "errored S (sh_s h) w2 = (e, w3)" by fastforce
      then have w3: "fds w3 = fds w2" by (rule errored_fds)
      show ?thesis
      proof (cases e)
        case False
        then show ?thesis
          using Pair Some i b \<open>b\<close> w2 w3 e s by (auto simp: Socket_connect_def Shared_isOpen_def opens_def)
      next
        case err: True
        obtain w4 where "Shared_destroy S (h\<lparr>sh_s := InvalidSocket\<rparr>) w3 = Some w4" "fds w4 = fds w3"
          using destroy_closes [of "h\<lparr>sh_s := InvalidSocket\<rparr>" w3] i(2) by auto
        then show ?thesis
          using Pair Some i b \<open>b\<close> w2 w3 e err s by (auto simp: Socket_connect_def Shared_isOpen_def opens_def)
      qed
    qed
  qed
qed

lemma close_once:
  assumes "sh_held h = 0"
  shows "\<exists>h' w'. Shared_close S h w = Some (h', w') \<and> fds w' = (if sh_s h = InvalidSocket then fds w else fds w - {sh_s h})
    \<and> Shared_close S h' w' = Some (h', w') \<and> Shared_read S h' n w' = Some ([], w') \<and> Shared_write S h' d w' = (False, w')
    \<and> Shared_isOpen S h' w' = Some (False, h', w')"
  using assms by (auto simp: Shared_close_def Shared_read_def Shared_write_def Shared_isOpen_def close)

lemma error_loses_descriptor:
  assumes "sh_held h = 0" "sh_s h \<in> fds w" "sh_s h \<noteq> InvalidSocket" "errored S (sh_s h) w = (True, w1)"
  shows "\<exists>h' w2. Shared_isOpen S h w = Some (False, h', w1) \<and> Shared_destroy S h' w1 = Some w2 \<and> sh_s h \<in> fds w2"
  using assms errored_fds [OF assms(4)] destroy_closes [of "h\<lparr>sh_s := InvalidSocket\<rparr>" w1] by (auto simp: Shared_isOpen_def)

end

subsection \<open>A system that satisfies the requirements\<close>

text \<open>A system of descriptors that are numbered upwards; what \<^verbatim>\<open>bind\<close>, \<^verbatim>\<open>SO_ERROR\<close> and \<^verbatim>\<open>send\<close> return is part of its state.\<close>

record ref_os =
  ro_open :: "int list"
  ro_next :: nat
  ro_bind :: int
  ro_error :: "8 word"
  ro_send :: int

definition ref_open :: "ref_os \<Rightarrow> int \<times> ref_os" where
  "ref_open w = (3 + int (ro_next w), w\<lparr>ro_next := ro_next w + 1, ro_open := (3 + int (ro_next w)) # ro_open w\<rparr>)"

definition ref_sys :: "(ref_os, nat) sys" where
  "ref_sys =
     \<lparr>os_getaddrinfo = (\<lambda>a p w. (Some 0, w)), os_freeaddrinfo = (\<lambda>i w. w), os_socket = (\<lambda>i. ref_open),
      os_setsockopt = (\<lambda>s opt w. w), os_SO_ERROR = (\<lambda>s w. (ro_error w, w)), os_O_NONBLOCK = 0x800,
      os_F_GETFL = (\<lambda>s w. (2, w)), os_F_SETFL = (\<lambda>s fl w. (0, w)), os_shutdown = (\<lambda>s w. w),
      os_close = (\<lambda>s w. w\<lparr>ro_open := filter (\<lambda>t. t \<noteq> s) (ro_open w)\<rparr>),
      os_recv = (\<lambda>s n w. Some ((0, []), w)), os_send = (\<lambda>s d n w. (ro_send w, w)),
      os_bind = (\<lambda>s i w. (ro_bind w, w)), os_listen = (\<lambda>s b w. (0, w)), os_accept = (\<lambda>s. ref_open),
      os_connect = (\<lambda>s i w. (0, w)), os_select = (\<lambda>n sec usec w. (1, w))\<rparr>"

definition ref_fds :: "ref_os \<Rightarrow> int set" where
  "ref_fds w = {s \<in> set (ro_open w). s < 3 + int (ro_next w)}"

lemma ref_opens: "opens ref_fds w (ref_open w)"
  by (auto simp: opens_def ref_open_def ref_fds_def InvalidSocket_def)

interpretation rs: descriptors ref_sys ref_fds
  by unfold_locales (auto simp: ref_sys_def ref_opens, auto simp: ref_fds_def)

definition ref_start :: ref_os where
  "ref_start = \<lparr>ro_open = [], ro_next = 0, ro_bind = 0, ro_error = 0, ro_send = 1\<rparr>"

section \<open>Properties\<close>

text \<open>
  C26. \<^verbatim>\<open>Socket::connect\<close> returns, and accounts for its descriptor: when it gives a socket, that socket has the
  one descriptor that was opened; when it gives none, no descriptor stays open, with one exception. When
  the last check, \<^verbatim>\<open>out->isOpen()\<close>, finds an error on a connected socket, the descriptor is forgotten
  without being closed.
\<close>

theorem socket_connect_descriptors:
  assumes "descriptors S fds"
  shows "\<exists>r w'. Socket_connect S address port timeoutMillis w = Some (r, w')
    \<and> (case r of
         Some h \<Rightarrow> sh_s h \<noteq> InvalidSocket \<and> sh_s h \<notin> fds w \<and> fds w' = insert (sh_s h) (fds w)
       | None \<Rightarrow> fds w' = fds w
           \<or> (\<exists>h i w1 w2 w3. Shared_create S address port w = (Some h, w1) \<and> sh_info h = Some i
                \<and> connect_within S (sh_s h) i timeoutMillis w1 = (True, w2) \<and> errored S (sh_s h) w2 = (True, w3)
                \<and> sh_s h \<notin> fds w \<and> fds w' = insert (sh_s h) (fds w)))"
  using descriptors.connect_accounts [OF assms] .

theorem socket_connect_descriptors_witness:
  "\<exists>h w'. Socket_connect ref_sys ''localhost'' ''19021'' 100 ref_start = Some (Some h, w')
    \<and> sh_s h \<notin> ref_fds ref_start \<and> ref_fds w' = insert (sh_s h) (ref_fds ref_start)"
proof -
  have "\<exists>h w'. Socket_connect ref_sys ''localhost'' ''19021'' 100 ref_start = Some (Some h, w')"
    by (simp add: Socket_connect_def Shared_create_def Shared_new_def setOptions_def connect_within_def setBlocking_def
        Shared_isOpen_def errored_def ref_sys_def ref_open_def ref_start_def InvalidSocket_def Let_def)
  then show ?thesis
    using socket_connect_descriptors [OF rs.descriptors_axioms, of "''localhost''" "''19021''" 100 ref_start] by auto
qed

text \<open>
  A socket that is closed stays closed: \<^verbatim>\<open>close()\<close> closes its descriptor, and afterwards \<^verbatim>\<open>close()\<close>, \<^verbatim>\<open>read()\<close>,
  \<^verbatim>\<open>write()\<close> and \<^verbatim>\<open>isOpen()\<close> make no system call at all, so a descriptor that the system has given to
  somebody else in the meantime is never touched.
\<close>

theorem socket_closed_stays_closed:
  assumes "descriptors S fds" and "sh_held h = 0"
  shows "\<exists>h' w'. Shared_close S h w = Some (h', w') \<and> fds w' = (if sh_s h = InvalidSocket then fds w else fds w - {sh_s h})
    \<and> Shared_close S h' w' = Some (h', w') \<and> Shared_read S h' n w' = Some ([], w') \<and> Shared_write S h' d w' = (False, w')
    \<and> Shared_isOpen S h' w' = Some (False, h', w')"
  using descriptors.close_once [OF assms] .

theorem socket_closed_stays_closed_witness:
  "\<exists>h' w'. Shared_close ref_sys (Shared_new None 3) (snd (ref_open ref_start)) = Some (h', w') \<and> ref_fds w' = {}
    \<and> Shared_close ref_sys h' w' = Some (h', w') \<and> Shared_read ref_sys h' 10 w' = Some ([], w')
    \<and> Shared_write ref_sys h' ''abc'' w' = (False, w') \<and> Shared_isOpen ref_sys h' w' = Some (False, h', w')"
proof -
  have "ref_fds (snd (ref_open ref_start)) = {3}" by (auto simp: ref_fds_def ref_open_def ref_start_def)
  moreover have "sh_held (Shared_new None 3 :: nat Shared) = 0" "sh_s (Shared_new None 3 :: nat Shared) = 3" "3 \<noteq> InvalidSocket"
    by (simp_all add: Shared_new_def InvalidSocket_def)
  ultimately show ?thesis
    using socket_closed_stays_closed [OF rs.descriptors_axioms, of "Shared_new None 3" "snd (ref_open ref_start)" 10 "''abc''"]
    by simp
qed

text \<open>
  An error loses a descriptor. When \<^verbatim>\<open>isOpen()\<close> finds an error on a socket, the socket forgets its
  descriptor, and not even its destructor closes it.
\<close>

theorem socket_error_leaks:
  assumes "descriptors S fds" and "sh_held h = 0" and "sh_s h \<in> fds w" and "sh_s h \<noteq> InvalidSocket"
    and "errored S (sh_s h) w = (True, w1)"
  shows "\<exists>h' w2. Shared_isOpen S h w = Some (False, h', w1) \<and> Shared_destroy S h' w1 = Some w2 \<and> sh_s h \<in> fds w2"
  using descriptors.error_loses_descriptor [OF assms] .

definition broken :: ref_os where
  "broken = (snd (ref_open ref_start))\<lparr>ro_error := 104\<rparr>"

theorem socket_error_leaks_witness:
  "\<exists>h' w2. Shared_isOpen ref_sys (Shared_new None 3) broken = Some (False, h', broken)
    \<and> Shared_destroy ref_sys h' broken = Some w2 \<and> 3 \<in> ref_fds w2"
  using socket_error_leaks [OF rs.descriptors_axioms, of "Shared_new None 3" broken broken]
  by (simp add: Shared_new_def broken_def ref_open_def ref_start_def ref_fds_def InvalidSocket_def errored_def ref_sys_def)

text \<open>
  C39. A port in use hangs the constructor. When \<^verbatim>\<open>bind\<close> fails, the constructor drops the \<^verbatim>\<open>Shared\<close> while it holds
  a read lock on its mutex, and the destructor waits for a write lock on it: the constructor never
  returns. In the lock's own terms, a thread that holds a read lock never gets the write lock.
\<close>

theorem socket_bind_failure_hangs:
  assumes "Shared_create S address port w = (Some h, w1)" and "sh_info h = Some info"
    and "os_bind S (sh_s h) info w1 = (r, w2)" and "r \<noteq> 0"
    and "rw_reachable m" and "i \<in># readers m"
  shows "Socket_new S address port w = None \<and> phase (lockWriter i m) i \<noteq> Writing
    \<and> (phase m i = Woken \<longrightarrow> phase (lockWriter_resume i m) i = Sleeping)"
proof -
  have "readLocks m > 0" using rw_reachable_inv [OF assms(5)] assms(6) by (auto simp: rw_inv_def dest: size_mset_mono multi_member_split)
  moreover have "Socket_new S address port w = None"
    using assms(1-4) by (simp add: Socket_new_def Shared_destroy_def Shared_close_def locked_def)
  ultimately show ?thesis by (simp add: lockWriter_def lockWriter_resume_def)
qed

theorem socket_bind_failure_hangs_witness:
  "Socket_new ref_sys ''localhost'' ''19021'' (ref_start\<lparr>ro_bind := -1\<rparr>) = None
    \<and> phase (lockWriter 7 (lockReader 7 RWMutex_new)) 7 \<noteq> Writing"
proof -
  let ?w = "ref_start\<lparr>ro_bind := -1\<rparr>"
  have "rw_reachable (lockReader 7 RWMutex_new)"
    by (rule rw_reachable.step [OF rw_reachable.start], rule rw_step.lock_reader) (simp_all add: RWMutex_new_def)
  moreover have "7 \<in># readers (lockReader 7 RWMutex_new)" by (simp add: lockReader_def)
  ultimately show ?thesis
    using socket_bind_failure_hangs [of ref_sys "''localhost''" "''19021''" ?w "Shared_new (Some 0) 3" "snd (ref_open ?w)" 0 "-1"
        "snd (ref_open ?w)" "lockReader 7 RWMutex_new" 7]
    by (simp add: Shared_create_def Shared_new_def setOptions_def ref_sys_def ref_open_def ref_start_def InvalidSocket_def Let_def)
qed

text \<open>
  A short write counts as success: \<^verbatim>\<open>write()\<close> returns true as soon as the system took one byte, and the
  bytes that it did not take are never sent.
\<close>

theorem socket_write_short:
  assumes "sh_s h \<noteq> InvalidSocket" and "0 < k" and "k < int (length data)"
    and "os_send S (sh_s h) data (of_nat (length data)) w = (k, w')"
  shows "Shared_write S h data w = (True, w')"
  using assms by (auto simp: Shared_write_def)

theorem socket_write_short_witness:
  "Shared_write ref_sys (Shared_new None 3) ''Content-Length'' ref_start = (True, ref_start)"
  by (rule socket_write_short [of _ 1]) (simp_all add: Shared_new_def InvalidSocket_def ref_sys_def ref_start_def)

text \<open>
  The time limit of \<^verbatim>\<open>connect\<close>. Up to 4294967 milliseconds the seconds and microseconds that \<^verbatim>\<open>select\<close> gets add
  up to the time asked for, with fewer than a million microseconds; beyond that the product wraps
  around, and the limit is what is left of it modulo 2^32 microseconds.
\<close>

theorem connect_timeout:
  "case timeval t of (sec, usec) \<Rightarrow> usec < 1000000
    \<and> sec * 1000000 + usec = (if unat t \<le> 4294967 then unat t * 1000 else unat t * 1000 mod 2 ^ 32)"
proof -
  have m: "unat (t * 1000) = unat t * 1000 mod 2 ^ 32" by (simp add: unat_word_ariths)
  have le: "unat (t * 1000) div 1000000 * 1000000 \<le> unat (t * 1000)" by simp
  moreover have "unat (t * 1000) < 2 ^ 32" using unsigned_less [of "t * 1000"] by simp
  ultimately have "unat (of_nat (unat (t * 1000) div 1000000 * 1000000) :: 32 word) = unat (t * 1000) div 1000000 * 1000000"
    by (simp add: unsigned_of_nat take_bit_nat_eq_self del: of_nat_mult)
  then have d: "unat (t * 1000 - of_nat (unat (t * 1000) div 1000000 * 1000000)) = unat (t * 1000) mod 1000000"
    using le by (simp add: unat_sub word_le_nat_alt minus_div_mult_eq_mod del: of_nat_mult)
  show ?thesis
    using d m by (auto simp: timeval_def Let_def simp del: of_nat_mult)
qed

end
