(* ===== verification/Network.thy ===== *)
theory Network
  imports Socket
begin

section \<open>Connecting\<close>

text \<open>\<^verbatim>\<open>net::connect\<close>; \<^verbatim>\<open>std::to_string\<close> of an \<^verbatim>\<open>int\<close>.\<close>

definition port_string :: "int \<Rightarrow> string" where
  "port_string port = (if port < 0 then CHR ''-'' # to_string (nat (- port)) else to_string (nat port))"

definition net_connect :: "('o, 'i) sys \<Rightarrow> string \<Rightarrow> int \<Rightarrow> 32 word \<Rightarrow> 'o \<Rightarrow> ('i Shared option \<times> 'o) option" where
  "net_connect S addr port timeoutMillis w = Socket_connect S addr (port_string port) timeoutMillis w"

section \<open>The server\<close>

text \<open>
  \<^verbatim>\<open>src/network.cpp\<close>: a \<^verbatim>\<open>net::Server\<close> accepts connections in a thread of its own. The state has the members of
  the class, what the thread is doing, what the caller of \<^verbatim>\<open>start\<close> or \<^verbatim>\<open>stop\<close> is doing (the methods
  exclude each other with a mutex) and the calls of the two callbacks. Starting a thread in a
  \<^verbatim>\<open>std::thread\<close> that was not joined ends the program, \<open>sv_crashed\<close>. The accepting thread may find a connection
  only while the socket is open, but may be late in reporting it; \<^verbatim>\<open>accept()\<close> may fail at any time.
\<close>

datatype accept_thread = NoThread | Accepting | Connected nat | Failed | Ended

datatype server_phase = Idle | Joining bool | Opening

datatype server_call = OnConnect nat | OnError string

record Server =
  sv_stopped :: bool
  sv_open :: bool
  sv_thread :: accept_thread
  sv_phase :: server_phase
  sv_calls :: "server_call list"
  sv_crashed :: bool

definition Server_create :: Server where
  "Server_create = \<lparr>sv_stopped = True, sv_open = False, sv_thread = NoThread, sv_phase = Idle, sv_calls = [],
     sv_crashed = False\<rparr>"

text \<open>After \<^verbatim>\<open>stopWithLock()\<close>, \<^verbatim>\<open>stop()\<close> returns and \<^verbatim>\<open>start()\<close> goes on; \<open>b\<close> says which of them it was.\<close>

definition after_stop :: "bool \<Rightarrow> server_phase" where
  "after_stop b = (if b then Opening else Idle)"

definition stopWithLock :: "bool \<Rightarrow> Server \<Rightarrow> Server" where
  "stopWithLock b s =
     (if \<not> sv_stopped s then s\<lparr>sv_stopped := True, sv_open := False, sv_phase := Joining b\<rparr>
      else s\<lparr>sv_stopped := True, sv_phase := after_stop b\<rparr>)"

definition thread_joined :: "bool \<Rightarrow> Server \<Rightarrow> Server" where
  "thread_joined b s = s\<lparr>sv_thread := NoThread, sv_phase := after_stop b\<rparr>"

text \<open>The rest of \<^verbatim>\<open>start()\<close>; \<open>ok\<close> is what \<^verbatim>\<open>socket->isOpen()\<close> returns for the new socket.\<close>

definition start_open :: "bool \<Rightarrow> Server \<Rightarrow> Server" where
  "start_open ok s =
     (if \<not> ok then s\<lparr>sv_open := False, sv_calls := sv_calls s @ [OnError ''Failed to open socket''], sv_phase := Idle\<rparr>
      else s\<lparr>sv_open := True, sv_stopped := False, sv_crashed := (sv_crashed s \<or> sv_thread s \<noteq> NoThread),
             sv_thread := Accepting, sv_phase := Idle\<rparr>)"

text \<open>The body of the thread: \<^verbatim>\<open>accept()\<close> returns, and what is done with its result.\<close>

definition thread_turn :: "Server \<Rightarrow> Server" where
  "thread_turn s =
     (case sv_thread s of
        Connected c \<Rightarrow> s\<lparr>sv_calls := sv_calls s @ [OnConnect c], sv_thread := Accepting\<rparr>
      | Failed \<Rightarrow>
          s\<lparr>sv_calls := sv_calls s @ (if \<not> sv_stopped s then [OnError ''Failed to accept connection''] else []),
            sv_thread := Ended\<rparr>
      | _ \<Rightarrow> s)"

inductive server_step :: "Server \<Rightarrow> Server \<Rightarrow> bool" where
  start: "sv_phase s = Idle \<Longrightarrow> server_step s (stopWithLock True s)"
| stop: "sv_phase s = Idle \<Longrightarrow> server_step s (stopWithLock False s)"
| join: "sv_phase s = Joining b \<Longrightarrow> sv_thread s = Ended \<Longrightarrow> server_step s (thread_joined b s)"
| opened: "sv_phase s = Opening \<Longrightarrow> server_step s (start_open ok s)"
| accepts: "sv_thread s = Accepting \<Longrightarrow> sv_open s \<Longrightarrow> server_step s (s\<lparr>sv_thread := Connected c\<rparr>)"
| rejects: "sv_thread s = Accepting \<Longrightarrow> server_step s (s\<lparr>sv_thread := Failed\<rparr>)"
| reports: "sv_thread s = Connected c \<or> sv_thread s = Failed \<Longrightarrow> server_step s (thread_turn s)"

inductive server_reachable :: "Server \<Rightarrow> bool" where
  created: "server_reachable Server_create"
| step: "server_reachable s \<Longrightarrow> server_step s t \<Longrightarrow> server_reachable t"

text \<open>A socket that is closed accepts nothing: the guard of \<open>accepts\<close>.\<close>

lemma closed_accepts_nothing: "sh_s h = InvalidSocket \<Longrightarrow> Socket_accept S (Some h) w = (None, w)"
  by (simp add: Socket_accept_def)

subsection \<open>The invariant\<close>

definition server_inv :: "Server \<Rightarrow> bool" where
  "server_inv s \<longleftrightarrow> \<not> sv_crashed s
     \<and> (case sv_phase s of
          Idle \<Rightarrow> sv_stopped s \<longleftrightarrow> sv_thread s = NoThread
        | Opening \<Rightarrow> sv_stopped s \<and> sv_thread s = NoThread
        | Joining b \<Rightarrow> sv_stopped s \<and> \<not> sv_open s \<and> sv_thread s \<noteq> NoThread)"

lemmas server_defs = stopWithLock_def thread_joined_def start_open_def thread_turn_def after_stop_def

lemma server_step_inv: "server_step s t \<Longrightarrow> server_inv s \<Longrightarrow> server_inv t"
  by (induction rule: server_step.induct)
    (auto simp: server_inv_def server_defs split: server_phase.splits accept_thread.splits if_splits)

lemma server_reachable_inv: "server_reachable s \<Longrightarrow> server_inv s"
proof (induction rule: server_reachable.induct)
  case created
  show ?case by (simp add: server_inv_def Server_create_def)
qed (rule server_step_inv)

inductive_cases server_stepE: "server_step s t"

text \<open>
  A stopped server is quiet. Whenever \<^verbatim>\<open>stop()\<close> has returned, there is no thread: nothing calls a callback
  before \<^verbatim>\<open>start()\<close> is called again, and \<^verbatim>\<open>start()\<close> never replaces a thread that was not joined.
\<close>

theorem stopped_server_is_quiet:
  assumes "server_reachable s" and "sv_phase s = Idle" and "sv_stopped s" and "server_step s t"
  shows "sv_calls t = sv_calls s \<and> sv_thread t = NoThread \<and> sv_stopped t \<and> \<not> sv_crashed t
    \<and> (sv_phase t = Idle \<or> sv_phase t = Opening)"
proof -
  have "server_inv t" "server_inv s" using server_reachable_inv [OF assms(1)] server_step_inv [OF assms(4)] by auto
  with assms(2-4) show ?thesis by (auto simp: server_inv_def server_defs elim!: server_stepE)
qed

theorem stopped_server_is_quiet_witness:
  "sv_calls (stopWithLock True Server_create) = [] \<and> sv_thread (stopWithLock True Server_create) = NoThread
    \<and> sv_phase (stopWithLock True Server_create) = Opening"
proof -
  have "server_step Server_create (stopWithLock True Server_create)" by (rule server_step.start) (simp add: Server_create_def)
  then show ?thesis
    using stopped_server_is_quiet [OF server_reachable.created, of "stopWithLock True Server_create"]
    by (simp add: Server_create_def server_defs)
qed

primrec thread_rank :: "accept_thread \<Rightarrow> nat" where
  "thread_rank (Connected c) = 3"
| "thread_rank Accepting = 2"
| "thread_rank Failed = 1"
| "thread_rank Ended = 0"
| "thread_rank NoThread = 0"

text \<open>
  C27. \<^verbatim>\<open>stop()\<close> returns, and so does the part of \<^verbatim>\<open>start()\<close> that stops the server first. While it waits for the
  thread some step is always possible, and every step either lets it return or brings the thread nearer
  its end, of which it is at most three steps away. In the meantime a connection that was accepted
  before may still be reported, but no error.
\<close>

theorem server_stop_returns:
  assumes "server_reachable s" and "sv_phase s = Joining b"
  shows "(\<exists>t. server_step s t) \<and> thread_rank (sv_thread s) \<le> 3
    \<and> (\<forall>t. server_step s t \<longrightarrow>
         (sv_phase t = after_stop b \<and> sv_thread t = NoThread
          \<or> sv_phase t = Joining b \<and> thread_rank (sv_thread t) < thread_rank (sv_thread s))
         \<and> (sv_calls t = sv_calls s \<or> (\<exists>c. sv_thread s = Connected c \<and> sv_calls t = sv_calls s @ [OnConnect c])))"
proof -
  have inv: "server_inv s" by (rule server_reachable_inv [OF assms(1)])
  have "\<exists>t. server_step s t"
    using inv assms(2) server_step.join [of s b] server_step.rejects [of s] server_step.reports [of s]
    by (cases "sv_thread s") (auto simp: server_inv_def)
  moreover have "thread_rank (sv_thread s) \<le> 3" by (cases "sv_thread s") simp_all
  moreover have "(sv_phase t = after_stop b \<and> sv_thread t = NoThread
          \<or> sv_phase t = Joining b \<and> thread_rank (sv_thread t) < thread_rank (sv_thread s))
         \<and> (sv_calls t = sv_calls s \<or> (\<exists>c. sv_thread s = Connected c \<and> sv_calls t = sv_calls s @ [OnConnect c]))"
    if "server_step s t" for t
    using that inv assms(2) by (auto simp: server_inv_def server_defs elim!: server_stepE)
  ultimately show ?thesis by blast
qed

definition stopping_server :: Server where
  "stopping_server = stopWithLock False ((start_open True (stopWithLock True Server_create))\<lparr>sv_thread := Connected 5\<rparr>)"

lemma stopping_server_reachable: "server_reachable stopping_server"
proof -
  let ?a = "stopWithLock True Server_create" and ?b = "start_open True (stopWithLock True Server_create)"
  have "server_reachable ?a" by (rule server_reachable.step [OF server_reachable.created server_step.start]) (simp add: Server_create_def)
  then have "server_reachable ?b"
    by (rule server_reachable.step [OF _ server_step.opened]) (simp add: Server_create_def server_defs)
  then have "server_reachable (?b\<lparr>sv_thread := Connected 5\<rparr>)"
    by (rule server_reachable.step [OF _ server_step.accepts]) (simp_all add: Server_create_def server_defs)
  then show ?thesis unfolding stopping_server_def
    by (rule server_reachable.step [OF _ server_step.stop]) (simp add: Server_create_def server_defs)
qed

theorem server_stop_returns_witness:
  "(\<exists>t. server_step stopping_server t)
    \<and> sv_phase (thread_turn stopping_server) = Joining False
    \<and> thread_rank (sv_thread (thread_turn stopping_server)) < thread_rank (sv_thread stopping_server)
    \<and> sv_calls (thread_turn stopping_server) = [OnConnect 5]"
proof -
  have s: "sv_phase stopping_server = Joining False" "sv_thread stopping_server = Connected 5" "sv_calls stopping_server = []"
    by (simp_all add: stopping_server_def Server_create_def server_defs)
  then have "server_step stopping_server (thread_turn stopping_server)" by (simp add: server_step.reports)
  then have t: "sv_phase (thread_turn stopping_server) = after_stop False \<and> sv_thread (thread_turn stopping_server) = NoThread
      \<or> sv_phase (thread_turn stopping_server) = Joining False
        \<and> thread_rank (sv_thread (thread_turn stopping_server)) < thread_rank (sv_thread stopping_server)"
      "\<exists>t. server_step stopping_server t"
    using server_stop_returns [OF stopping_server_reachable s(1)] by blast+
  moreover have "sv_thread (thread_turn stopping_server) = Accepting" "sv_calls (thread_turn stopping_server) = [OnConnect 5]"
    using s by (simp_all add: thread_turn_def)
  ultimately show ?thesis by simp
qed

end
