(* ===== verification/SocketLink.thy ===== *)
theory SocketLink
  imports Socket ContentStream
begin

section \<open>Messages over a connection\<close>

text \<open>
  The two ends of a connection as a link for messages: one \<^verbatim>\<open>Socket::Shared\<close> that the one program writes to
  and one that the other reads from, with the system between them.
\<close>

record ('o, 'i) connection =
  cn_receiver :: "'i Shared"
  cn_sender :: "'i Shared"
  cn_system :: 'o

definition receiver_isOpen :: "('o, 'i) sys \<Rightarrow> ('o, 'i) connection \<Rightarrow> bool \<times> ('o, 'i) connection" where
  "receiver_isOpen S c =
     (case Shared_isOpen S (cn_receiver c) (cn_system c) of
        None \<Rightarrow> (False, c)
      | Some (b, h, w) \<Rightarrow> (b, c\<lparr>cn_receiver := h, cn_system := w\<rparr>))"

definition sender_isOpen :: "('o, 'i) sys \<Rightarrow> ('o, 'i) connection \<Rightarrow> bool \<times> ('o, 'i) connection" where
  "sender_isOpen S c =
     (case Shared_isOpen S (cn_sender c) (cn_system c) of
        None \<Rightarrow> (False, c)
      | Some (b, h, w) \<Rightarrow> (b, c\<lparr>cn_sender := h, cn_system := w\<rparr>))"

definition Socket_Reader :: "('o, 'i) sys \<Rightarrow> ('o, 'i) connection Reader" where
  "Socket_Reader S =
     \<lparr>r_isOpen = receiver_isOpen S,
      r_close = (\<lambda>c. case Shared_close S (cn_receiver c) (cn_system c) of
         None \<Rightarrow> c | Some (h, w) \<Rightarrow> c\<lparr>cn_receiver := h, cn_system := w\<rparr>),
      r_read = (\<lambda>c n. map_option (\<lambda>(bs, w). (bs, c\<lparr>cn_system := w\<rparr>))
         (Shared_read S (cn_receiver c) n (cn_system c)))\<rparr>"

definition Socket_Writer :: "('o, 'i) sys \<Rightarrow> ('o, 'i) connection Writer" where
  "Socket_Writer S =
     \<lparr>w_isOpen = sender_isOpen S,
      w_close = (\<lambda>c. case Shared_close S (cn_sender c) (cn_system c) of
         None \<Rightarrow> c | Some (h, w) \<Rightarrow> c\<lparr>cn_sender := h, cn_system := w\<rparr>),
      w_write = (\<lambda>c bs. map_prod id (\<lambda>w. c\<lparr>cn_system := w\<rparr>) (Shared_write S (cn_sender c) bs (cn_system c)))\<rparr>"

text \<open>The connection is up unless the reader has closed its end; the bytes under way.\<close>

definition link_ok :: "(int \<Rightarrow> int \<Rightarrow> 'o \<Rightarrow> bool) \<Rightarrow> ('o, 'i) connection \<Rightarrow> bool" where
  "link_ok up c \<longleftrightarrow> sh_held (cn_receiver c) = 0
     \<and> (sh_s (cn_receiver c) = InvalidSocket \<or> up (sh_s (cn_sender c)) (sh_s (cn_receiver c)) (cn_system c))"

definition link_contents :: "(int \<Rightarrow> int \<Rightarrow> 'o \<Rightarrow> bytes) \<Rightarrow> ('o, 'i) connection \<Rightarrow> bytes" where
  "link_contents wire c =
     (if sh_s (cn_receiver c) = InvalidSocket then []
      else wire (sh_s (cn_sender c)) (sh_s (cn_receiver c)) (cn_system c))"

text \<open>
  What the code relies on of a connection between the descriptors \<open>a\<close> and \<open>b\<close> that is up: a blocking \<^verbatim>\<open>send\<close>
  takes all the bytes, if their number is that of the \<^verbatim>\<open>int\<close> it is given; \<^verbatim>\<open>recv\<close> waits for bytes, and
  delivers some of those under way, in order.
\<close>

locale tcp =
  fixes S :: "('o, 'i) sys" and up :: "int \<Rightarrow> int \<Rightarrow> 'o \<Rightarrow> bool" and wire :: "int \<Rightarrow> int \<Rightarrow> 'o \<Rightarrow> bytes"
  assumes valid: "up a b w \<Longrightarrow> a \<noteq> InvalidSocket \<and> b \<noteq> InvalidSocket"
    and no_error: "up a b w \<Longrightarrow> os_SO_ERROR S a w = (0, w)" "up a b w \<Longrightarrow> os_SO_ERROR S b w = (0, w)"
    and send: "up a b w \<Longrightarrow> bs \<noteq> [] \<Longrightarrow> length bs < 2 ^ 31 \<Longrightarrow>
      \<exists>w'. os_send S a bs (of_nat (length bs)) w = (int (length bs), w') \<and> up a b w' \<and> wire a b w' = wire a b w @ bs"
    and recv: "up a b w \<Longrightarrow> os_recv S b n w = Some ((len, data), w') \<Longrightarrow>
      up a b w' \<and> nat len \<le> unat n \<and> (if len < 0 then [] else take (nat len) data) @ wire a b w' = wire a b w"
    and recv_some: "up a b w \<Longrightarrow> 0 < unat n \<Longrightarrow> unat n < 2 ^ 31 \<Longrightarrow> wire a b w \<noteq> [] \<Longrightarrow>
      \<exists>len data w'. os_recv S b n w = Some ((len, data), w') \<and> 0 < len \<and> data \<noteq> []"
begin

lemma link_isOpen:
  assumes "link_ok up c"
  shows "fst (r_isOpen (Socket_Reader S) c) \<longleftrightarrow> sh_s (cn_receiver c) \<noteq> InvalidSocket"
  using assms no_error
  by (auto simp: Socket_Reader_def receiver_isOpen_def Shared_isOpen_def errored_def link_ok_def split: option.splits)

lemma link_writer_open:
  assumes "link_ok up c" and "fst (r_isOpen (Socket_Reader S) c)"
  shows "w_isOpen (Socket_Writer S) c = (True, c)"
proof -
  have "up (sh_s (cn_sender c)) (sh_s (cn_receiver c)) (cn_system c)"
    using assms link_isOpen [OF assms(1)] by (simp add: link_ok_def)
  then show ?thesis
    using valid no_error(1) by (simp add: Socket_Writer_def sender_isOpen_def Shared_isOpen_def errored_def)
qed

lemma link_read:
  assumes c: "link_ok up c" and r: "r_read (Socket_Reader S) c n = Some (bs, c')"
  shows "link_contents wire c = bs @ link_contents wire c'" and "length bs \<le> n" and "link_ok up c'"
    and "sh_s (cn_receiver c') = sh_s (cn_receiver c)"
proof -
  have "link_contents wire c = bs @ link_contents wire c' \<and> length bs \<le> n \<and> link_ok up c'
    \<and> sh_s (cn_receiver c') = sh_s (cn_receiver c)"
  proof (cases "sh_s (cn_receiver c) = InvalidSocket")
    case True
    then show ?thesis using c r by (auto simp: Socket_Reader_def Shared_read_def link_contents_def link_ok_def)
  next
    case False
    then have up: "up (sh_s (cn_sender c)) (sh_s (cn_receiver c)) (cn_system c)" using c by (simp add: link_ok_def)
    obtain len data w where g: "os_recv S (sh_s (cn_receiver c)) (of_nat n) (cn_system c) = Some ((len, data), w)"
        "bs = (if len < 0 then [] else take (nat len) data)" "c' = c\<lparr>cn_system := w\<rparr>"
      using r False by (auto simp: Socket_Reader_def Shared_read_def)
    have n: "unat (of_nat n :: 32 word) \<le> n" by (simp add: unsigned_of_nat take_bit_nat_less_eq_self)
    show ?thesis using recv [OF up g(1)] g(2,3) n False c by (auto simp: link_contents_def link_ok_def)
  qed
  then show "link_contents wire c = bs @ link_contents wire c'" "length bs \<le> n" "link_ok up c'"
    "sh_s (cn_receiver c') = sh_s (cn_receiver c)" by simp_all
qed

lemma link_progress:
  assumes c: "link_ok up c" and n: "0 < n" "n \<le> 256" "n \<le> length (link_contents wire c)"
  shows "\<exists>bs c'. r_read (Socket_Reader S) c n = Some (bs, c') \<and> bs \<noteq> []"
proof -
  have s: "sh_s (cn_receiver c) \<noteq> InvalidSocket" using n by (auto simp: link_contents_def)
  then have up: "up (sh_s (cn_sender c)) (sh_s (cn_receiver c)) (cn_system c)" using c by (simp add: link_ok_def)
  have u: "unat (of_nat n :: 32 word) = n" using n(2) by (simp add: unsigned_of_nat take_bit_nat_eq_self)
  have "wire (sh_s (cn_sender c)) (sh_s (cn_receiver c)) (cn_system c) \<noteq> []" using n s by (auto simp: link_contents_def)
  then obtain len data w where "os_recv S (sh_s (cn_receiver c)) (of_nat n) (cn_system c) = Some ((len, data), w)"
      "0 < len" "data \<noteq> []"
    using recv_some [OF up, of "of_nat n"] u n(1,2) by auto
  then show ?thesis using s by (simp add: Socket_Reader_def Shared_read_def)
qed

lemma link_write:
  assumes c: "link_ok up c" and o: "sh_s (cn_receiver c) \<noteq> InvalidSocket" and bs: "bs \<noteq> []" "length bs < 2 ^ 31"
  shows "\<exists>c'. w_write (Socket_Writer S) c bs = (True, c') \<and> link_contents wire c' = link_contents wire c @ bs \<and> link_ok up c'
    \<and> sh_s (cn_receiver c') \<noteq> InvalidSocket"
proof -
  have up: "up (sh_s (cn_sender c)) (sh_s (cn_receiver c)) (cn_system c)" using c o by (simp add: link_ok_def)
  obtain w where "os_send S (sh_s (cn_sender c)) bs (of_nat (length bs)) (cn_system c) = (int (length bs), w)"
      "up (sh_s (cn_sender c)) (sh_s (cn_receiver c)) w"
      "wire (sh_s (cn_sender c)) (sh_s (cn_receiver c)) w = wire (sh_s (cn_sender c)) (sh_s (cn_receiver c)) (cn_system c) @ bs"
    using send [OF up bs] by blast
  then show ?thesis
    using valid [OF up] bs(1) c o by (simp add: Socket_Writer_def Shared_write_def link_contents_def link_ok_def)
qed

end

sublocale tcp \<subseteq> stream_link "Socket_Reader S" "link_contents wire" "link_ok up" "Socket_Writer S" "\<lambda>bs. length bs < 2 ^ 31"
proof (unfold_locales, goal_cases)
  case (5 c n bs c')
  then show ?case using link_read(3,4) [OF 5] link_isOpen by auto
next
  case (6 c)
  then show ?case by (auto simp: Socket_Reader_def Shared_close_def link_ok_def split: option.splits if_splits)
next
  case (7 c bs)
  then show ?case using link_write [OF 7(1) _ 7(3,4)] link_isOpen by metis
qed (use link_read link_progress in blast)+

context tcp
begin

lemmas connection_refines_queue = frames_refine_queue
  and connection_axioms = stream_link_axioms

end

subsection \<open>A system with a connection\<close>

text \<open>One connection that is always up; \<^verbatim>\<open>recv\<close> waits while no byte is under way.\<close>

record wired_os = ref_os +
  ro_wire :: bytes

definition wired_send :: "int \<Rightarrow> bytes \<Rightarrow> 32 word \<Rightarrow> wired_os \<Rightarrow> int \<times> wired_os" where
  "wired_send s d n w =
     (if sint n \<le> 0 then (- 1, w) else (int (length (take (unat n) d)), w\<lparr>ro_wire := ro_wire w @ take (unat n) d\<rparr>))"

definition wired_recv :: "int \<Rightarrow> 32 word \<Rightarrow> wired_os \<Rightarrow> ((int \<times> bytes) \<times> wired_os) option" where
  "wired_recv s n w =
     (if ro_wire w = [] then None
      else
        (let k = min (unat n) (length (ro_wire w))
         in Some ((int k, take k (ro_wire w)), w\<lparr>ro_wire := drop k (ro_wire w)\<rparr>)))"

definition wired_sys :: "(wired_os, nat) sys" where
  "wired_sys =
     \<lparr>os_getaddrinfo = (\<lambda>a p w. (Some 0, w)), os_freeaddrinfo = (\<lambda>i w. w), os_socket = (\<lambda>i w. (3, w)),
      os_setsockopt = (\<lambda>s opt w. w), os_SO_ERROR = (\<lambda>s w. (0, w)), os_O_NONBLOCK = 0x800,
      os_F_GETFL = (\<lambda>s w. (2, w)), os_F_SETFL = (\<lambda>s fl w. (0, w)), os_shutdown = (\<lambda>s w. w), os_close = (\<lambda>s w. w),
      os_recv = wired_recv, os_send = wired_send, os_bind = (\<lambda>s i w. (0, w)), os_listen = (\<lambda>s b w. (0, w)),
      os_accept = (\<lambda>s w. (4, w)), os_connect = (\<lambda>s i w. (0, w)), os_select = (\<lambda>n sec usec w. (1, w))\<rparr>"

definition wired_up :: "int \<Rightarrow> int \<Rightarrow> wired_os \<Rightarrow> bool" where
  "wired_up a b w \<longleftrightarrow> a = 3 \<and> b = 4"

lemma small_int: "n < 2 ^ 31 \<Longrightarrow> 0 < n \<Longrightarrow> sint (of_nat n :: 32 word) = int n"
  by (simp add: signed_of_nat signed_take_bit_int_eq_self)

interpretation wired: tcp wired_sys wired_up "\<lambda>a b. ro_wire"
proof (unfold_locales, goal_cases)
  case (4 a b w bs)
  then have "unat (of_nat (length bs) :: 32 word) = length bs" by (simp add: unsigned_of_nat take_bit_nat_eq_self)
  with 4 show ?case using small_int [of "length bs"] by (simp add: wired_sys_def wired_send_def wired_up_def)
next
  case (5 a b w n len data w')
  then show ?case by (auto simp: wired_sys_def wired_recv_def wired_up_def Let_def split: if_splits)
qed (auto simp: wired_up_def InvalidSocket_def wired_sys_def wired_recv_def Let_def)

section \<open>Properties\<close>


definition wired_connection :: "(wired_os, nat) connection" where
  "wired_connection =
     \<lparr>cn_receiver = Shared_new None 4, cn_sender = Shared_new (Some 0) 3,
      cn_system = \<lparr>ro_open = [3, 4], ro_next = 2, ro_bind = 0, ro_error = 0, ro_send = 0, ro_wire = []\<rparr>\<rparr>"


end
