(* ===== verification/Interop.thy ===== *)
theory Interop
  imports BackEndSessions SocketLink
begin

section \<open>Sessions built with different libraries\<close>

text \<open>
  The two ends of a connection need not be the same program: one session may have been compiled against
  one JSON library and its peer against another. \<open>interop\<close> is the contract for one direction: what the
  library \<open>J\<close> of the sender prints, the library \<open>K\<close> of the receiver parses, as the same document.
\<close>

locale interop = out: session_json J repr str_ok any_int carried + inn: session_json K repr' str_ok' any_int' carried'
    + stream_link R contents invar W fits
  for J :: "'j json_setup" and repr str_ok any_int carried and K :: "'k json_setup" and repr' str_ok' any_int' carried'
    and R :: "'d Reader" and contents invar and W :: "'d Writer" and fits +
  assumes same_types: "js_env K = js_env J"
    and crosses: "repr j X \<Longrightarrow> carried X \<Longrightarrow>
      \<exists>t i. js_dump J j = Some t \<and> message_ok t \<and> fits (header t) \<and> fits t \<and> js_parse K t = Some i \<and> repr' i X"
    and writer_open: "invar d \<Longrightarrow> fst (r_isOpen R d) \<Longrightarrow> w_isOpen W d = (True, d)"
begin

abbreviation hears :: "bytes \<Rightarrow> ('d, 'w, 'g) Session \<Rightarrow> bool" where
  "hears p B \<equiv> reader_at R contents invar True (cr_on_invalid_data (se_reader B)) p (se_reader B)"

lemma text_crosses:
  assumes "hears [] B" and "se_writer A = cr_reader (se_reader B)" and "message_ok t" "fits (header t)" "fits t"
  shows "\<exists>w cr. send_string W t A = Some (True, A\<lparr>se_writer := w\<rparr>)
    \<and> getPayload R K (reader_follows (A\<lparr>se_writer := w\<rparr>) B) = processMessage K t (B\<lparr>se_reader := cr\<rparr>)
    \<and> hears [] (B\<lparr>se_reader := cr\<rparr>)"
proof -
  obtain d where d: "cr_reader (se_reader B) = Some d" "invar d" "fst (r_isOpen R d)"
    using assms(1) by (auto simp: reader_at_def)
  have o: "ContentWriter_isOpen W (se_writer A) = (True, se_writer A)"
    using writer_open [OF d(2,3)] d(1) assms(2) by (simp add: ContentWriter_isOpen_def)
  obtain d' where d': "ContentWriter_write W (cr_reader (se_reader B)) t = Some (True, Some d')"
      "reader_at R contents invar True (cr_on_invalid_data (se_reader B)) ([] @ frame t) ((se_reader B)\<lparr>cr_reader := Some d'\<rparr>)"
    using write_message [OF assms(1,3-5)] by blast
  obtain cr where cr: "ContentReader_read R ((se_reader B)\<lparr>cr_reader := Some d'\<rparr>) = Some (t, cr)"
      "reader_at R contents invar True (cr_on_invalid_data (se_reader B)) [] cr"
    using read_message [of True "cr_on_invalid_data (se_reader B)" t "[]"] d'(2) assms(3) by auto
  then have "cr_on_invalid_data cr = cr_on_invalid_data (se_reader B)" by (simp add: reader_at_def)
  then show ?thesis
    using o d'(1) cr assms(2,3)
    by (intro exI [of _ "Some d'"] exI [of _ cr])
      (simp add: send_string_def reader_follows_def getPayload_def message_ok_def)
qed

lemma event_crosses:
  assumes "hears [] B" and "se_writer A = cr_reader (se_reader B)"
    and wf: "wf_env (js_env J)" "type_ok (js_env J) T"
    and v: "portable str_ok any_int (js_env J) T v" "portable str_ok' any_int' (js_env J) T v" "json_of (js_env J) T v = Some X"
    and "str_ok (TypeInfo_name (js_env J) T)" "str_ok' (TypeInfo_name (js_env J) T)"
    and "carried (event_doc (js_env J) (se_nextSeq A) T X)"
    and "handlers_event B (TypeInfo_name (js_env J) T) = Some (T, h)"
  shows "\<exists>w cr v'. send_event W J T v A = Some (True, (drawn A)\<lparr>se_writer := w\<rparr>)
    \<and> getPayload R K (reader_follows ((drawn A)\<lparr>se_writer := w\<rparr>) B) = Some (Some (EventPayload h v'), B\<lparr>se_reader := cr\<rparr>)
    \<and> hears [] (B\<lparr>se_reader := cr\<rparr>) \<and> norm v' = norm v"
proof -
  obtain j where j: "message_object J (event_message (js_env J) (se_nextSeq A) T v) = (True, j)"
      "repr j (event_doc (js_env J) (se_nextSeq A) T X)"
    using out.event_builds [OF assms(8) v(1,3)] by blast
  obtain t i where t: "js_dump J j = Some t" "message_ok t" "fits (header t)" "fits t" "js_parse K t = Some i"
      "repr' i (event_doc (js_env J) (se_nextSeq A) T X)"
    using crosses [OF j(2) assms(10)] by blast
  obtain w cr where w: "send_string W t (drawn A) = Some (True, (drawn A)\<lparr>se_writer := w\<rparr>)"
      "getPayload R K (reader_follows ((drawn A)\<lparr>se_writer := w\<rparr>) B) = processMessage K t (B\<lparr>se_reader := cr\<rparr>)"
      "hears [] (B\<lparr>se_reader := cr\<rparr>)"
    using text_crosses [OF assms(1) _ t(2-4), of "drawn A"] assms(2) by auto
  obtain v' where v': "processMessage K t (B\<lparr>se_reader := cr\<rparr>) = Some (Some (EventPayload h v'), B\<lparr>se_reader := cr\<rparr>)"
      "norm v' = norm v"
    using inn.event_processed [OF t(5), unfolded same_types, OF t(6) wf v(2,3) assms(9), of "B\<lparr>se_reader := cr\<rparr>" h] assms(11)
    by (auto simp: handlers_event_def)
  have "send_event W J T v A = Some (True, (drawn A)\<lparr>se_writer := w\<rparr>)"
    using t(1) w(1) j(1) by (simp add: send_event_def drawn_def)
  then show ?thesis using w(2,3) v' by (intro exI [of _ w] exI [of _ cr] exI [of _ v']) simp
qed

end

section \<open>RapidJSON to nlohmann/json over TCP\<close>

text \<open>
  A client compiled against RapidJSON and a server compiled against nlohmann/json, over a connection.
  What they need beyond the contracts of the two libraries is that the one parses what the other prints.
\<close>

lemma length_to_string: "length (to_string n) \<le> n div 10 + 1"
proof (induction n rule: to_string.induct)
  case (1 n)
  then show ?case by (subst to_string.simps) auto
qed

lemma header_fits: "length t < 2 ^ 31 \<Longrightarrow> length (header t) < 2 ^ 31"
  using length_to_string [of "length t"] by (simp add: header_def CRLF2_def)

lemma rapid_to_nlohmann:
  assumes R: "rapid_text R rr parse_r dump_r depth_r carried" and N: "nlohmann_text N rn depth_n parse_n dump_n carried'"
    and C: "tcp S up wire"
    and crosses: "\<And>j X. rr j X \<Longrightarrow> carried X \<Longrightarrow> length (dump_r j) < 2 ^ 31 \<and> rn (parse_n (dump_r j)) X"
  shows "interop (rapid_setup E R parse_r dump_r depth_r) rr z_ok fits_int32 carried
    (nlohmann_setup E N parse_n dump_n depth_n) rn (\<lambda>_. True) (\<lambda>_. True) carried'
    (Socket_Reader S) (link_contents wire) (link_ok up) (Socket_Writer S) (\<lambda>bs. length bs < 2 ^ 31)"
proof (intro interop.intro interop_axioms.intro rapid_text.session_json [OF R] nlohmann_text.session_json [OF N]
    tcp.connection_axioms [OF C] tcp.link_writer_open [OF C])
  fix j X
  assume "rr j X" "carried X"
  then show "\<exists>t i. js_dump (rapid_setup E R parse_r dump_r depth_r) j = Some t \<and> message_ok t
    \<and> length (header t) < 2 ^ 31 \<and> length t < 2 ^ 31
    \<and> js_parse (nlohmann_setup E N parse_n dump_n depth_n) t = Some i \<and> rn i X"
    using rapid_text.dump_parses [OF R] crosses header_fits
    by (auto simp: rapid_setup_def nlohmann_setup_def c_str_id)
qed (simp_all add: rapid_setup_def nlohmann_setup_def)

text \<open>It is so for the document and text forms of the development.\<close>

definition small_carried :: "json \<Rightarrow> bool" where
  "small_carried j \<longleftrightarrow> NUL \<notin> set (print_json j) \<and> length (print_json j) < 2 ^ 31"

interpretation small_text: rapid_text ref_rapid "(=)" ref_parse print_json jdepth small_carried
  by unfold_locales (auto simp: small_carried_def ref_parse_print message_ok_def)

lemma small_crosses:
  "j = X \<Longrightarrow> small_carried X \<Longrightarrow> length (print_json j) < 2 ^ 31 \<and> ref_parse (print_json j) = X"
  by (simp add: small_carried_def ref_parse_print)

interpretation mixed: interop "rapid_setup E ref_rapid ref_parse print_json jdepth" "(=)" z_ok fits_int32 small_carried
  "ref_setup E" "(=)" "\<lambda>_. True" "\<lambda>_. True" ref_carried
  "Socket_Reader wired_sys" "link_contents (\<lambda>a b. ro_wire)" "link_ok wired_up" "Socket_Writer wired_sys" "\<lambda>bs. length bs < 2 ^ 31"
  for E
  by (rule rapid_to_nlohmann [OF small_text.rapid_text_axioms ref_text.nlohmann_text_axioms wired.tcp_axioms small_crosses])

text \<open>
  C4. An event between programs with different libraries. A session compiled against RapidJSON sends an event over a
  TCP connection to a session compiled against nlohmann/json: the receiver's handler is called once, with
  an object equal to the one sent, and the receiver is ready for the next message. What the
  program needs is that the one library parses what the other prints, as the same document.
\<close>

theorem event_across_libraries:
  assumes R: "rapid_text R rr parse_r dump_r depth_r carried" and N: "nlohmann_text N rn depth_n parse_n dump_n carried'"
    and C: "tcp S up wire"
    and crosses: "\<And>j X. rr j X \<Longrightarrow> carried X \<Longrightarrow> length (dump_r j) < 2 ^ 31 \<and> rn (parse_n (dump_r j)) X"
    and J: "J = rapid_setup E R parse_r dump_r depth_r" and K: "K = nlohmann_setup E N parse_n dump_n depth_n"
    and link: "reader_at (Socket_Reader S) (link_contents wire) (link_ok up) True (cr_on_invalid_data (se_reader B)) [] (se_reader B)"
      "se_writer A = cr_reader (se_reader B)"
    and h: "handlers_event B (TypeInfo_name E T) = Some (T, h)"
    and wf: "wf_env E" "type_ok E T" and v: "portable z_ok fits_int32 E T v" "json_of E T v = Some X"
    and ev: "z_ok (TypeInfo_name E T)" "carried (event_doc E (se_nextSeq A) T X)"
  shows "\<exists>A' p B' v'. send_event (Socket_Writer S) J T v A = Some (True, A')
    \<and> getPayload (Socket_Reader S) K (reader_follows A' B) = Some (Some p, B') \<and> norm v' = norm v
    \<and> reader_at (Socket_Reader S) (link_contents wire) (link_ok up) True (cr_on_invalid_data (se_reader B')) [] (se_reader B')
    \<and> se_calls (run_payload p B') = se_calls B @ [EventCall h v']"
proof -
  have io: "interop J rr z_ok fits_int32 carried K rn (\<lambda>_. True) (\<lambda>_. True) carried'
      (Socket_Reader S) (link_contents wire) (link_ok up) (Socket_Writer S) (\<lambda>bs. length bs < 2 ^ 31)"
    unfolding J K by (rule rapid_to_nlohmann [OF R N C crosses])
  have E: "js_env J = E" by (simp add: J rapid_setup_def)
  show ?thesis
    using interop.event_crosses [OF io link, unfolded E, OF wf v(1) portable_unrestricted(1) [OF v(1)] v(2) ev(1) TrueI ev(2) h]
    by (fastforce simp: run_payload_def)
qed

text \<open>The sessions of the tests, with a connection between them.\<close>

definition sender :: "(nat, (wired_os, nat) connection, nat) Session" where
  "sender = connect 0 wired_connection (handlers_put_error (Some 9) Session_create)"

definition receiver :: "((wired_os, nat) connection, nat, nat) Session" where
  "receiver = connect wired_connection 0 (handlers_put_event session_env TestEvent 2 (handlers_put_error (Some 9) Session_create))"

theorem event_across_libraries_witness:
  "\<exists>A' p B' v'. send_event (Socket_Writer wired_sys) (rapid_setup session_env ref_rapid ref_parse print_json jdepth)
        TestEvent test_data sender = Some (True, A')
    \<and> getPayload (Socket_Reader wired_sys) (ref_setup session_env) (reader_follows A' receiver) = Some (Some p, B')
    \<and> norm v' = norm test_data
    \<and> reader_at (Socket_Reader wired_sys) (link_contents (\<lambda>a b. ro_wire)) (link_ok wired_up) True
        (cr_on_invalid_data (se_reader B')) [] (se_reader B')
    \<and> se_calls (run_payload p B') = se_calls receiver @ [EventCall 2 v']"
proof -
  have c: "link_ok wired_up wired_connection" "sh_s (cn_receiver wired_connection) \<noteq> InvalidSocket"
      "link_contents (\<lambda>a b. ro_wire) wired_connection = []"
    by (simp_all add: wired_connection_def link_ok_def link_contents_def wired_up_def Shared_new_def InvalidSocket_def)
  have l: "reader_at (Socket_Reader wired_sys) (link_contents (\<lambda>a b. ro_wire)) (link_ok wired_up) True
      (cr_on_invalid_data (se_reader receiver)) [] (se_reader receiver)" "se_writer sender = cr_reader (se_reader receiver)"
    using reader_at_new [of "link_ok wired_up" wired_connection "Socket_Reader wired_sys" "link_contents (\<lambda>a b. ro_wire)" kIgnore]
      wired.link_isOpen [OF c(1)] c
    by (simp_all add: sender_def receiver_def connect_def handler_defs Session_create_def ContentReader_new_def Let_def)
  have h: "handlers_event receiver (TypeInfo_name session_env TestEvent) = Some (TestEvent, 2)"
    by (simp add: receiver_def connect_def handler_defs Session_create_def test_names_eq Let_def)
  have "case json_of session_env TestEvent test_data of None \<Rightarrow> False
    | Some X \<Rightarrow> length (print_json (event_doc session_env 1 TestEvent X)) < 400
        \<and> NUL \<notin> set (print_json (event_doc session_env 1 TestEvent X))" by code_simp
  moreover have "se_nextSeq sender = 1" by (simp add: sender_def connect_def handler_defs Session_create_def Let_def)
  ultimately obtain X where X: "json_of session_env TestEvent test_data = Some X"
      "small_carried (event_doc session_env (se_nextSeq sender) TestEvent X)"
    by (auto simp: small_carried_def split: option.splits)
  have v: "portable z_ok fits_int32 session_env TestEvent test_data" by code_simp
  have n: "z_ok (TypeInfo_name session_env TestEvent)" by (simp add: test_names_eq z_ok_def)
  from event_across_libraries [OF small_text.rapid_text_axioms ref_text.nlohmann_text_axioms wired.tcp_axioms small_crosses
      refl refl l h test_env_facts(1,4) v X(1) n X(2)]
  show ?thesis .
qed

end
