(* ===== verification/HelloDebugger.thy ===== *)
theory HelloDebugger
  imports Monitor "HOL-Library.Signed_Division"
begin

section \<open>The example debugger: \<^verbatim>\<open>examples/hello_debugger.cpp\<close>\<close>

text \<open>
  The debug adapter that the repository ships as its example: a debugger that steps through a file of
  seven lines, and the handlers by which a session makes it available. Here are the two classes;
  \<open>HelloHandlers\<close> has the handlers and what they answer, \<open>HelloServer\<close> the threads of the program.
\<close>

subsection \<open>The class \<^verbatim>\<open>Debugger\<close>\<close>

text \<open>
  Every method holds the mutex while it uses the data, and calls \<^verbatim>\<open>onEvent\<close> after it has let go of it: a
  method returns the new data and the events it fires, in order. \<open>int64_mod\<close> is \<^verbatim>\<open>%\<close> of \<^verbatim>\<open>int64_t\<close>, which rounds towards zero.
\<close>

definition int64_mod :: "int64 \<Rightarrow> int64 \<Rightarrow> int64" where
  "int64_mod a b = word_of_int (sint a smod sint b)"

definition sourceContent :: string where
  "sourceContent = ''// Hello Debugger!'' @ [CHR 0x0A] @ [CHR 0x0A] @
     ''This is a synthetic source file provided by the DAP debugger.'' @ [CHR 0x0A] @ [CHR 0x0A] @
     ''You can set breakpoints, and single line step.'' @ [CHR 0x0A] @ [CHR 0x0A] @
     ''You may also notice that the locals contains a single variable for the currently executing line number.''"

definition numSourceLines :: int64 where
  "numSourceLines = 7"

datatype debugger_event = BreakpointHit | Stepped | Paused

record Debugger =
  db_line :: int64
  db_breakpoints :: "int64 set"

definition Debugger_new :: Debugger where
  "Debugger_new = \<lparr>db_line = 1, db_breakpoints = {}\<rparr>"

text \<open>The loop of \<^verbatim>\<open>run\<close>, from its \<open>i\<close>-th turn on.\<close>

function run_loop :: "Debugger \<Rightarrow> nat \<Rightarrow> Debugger \<times> debugger_event list" where
  "run_loop d i =
     (if int i < sint numSourceLines
      then
        (let l = int64_mod (db_line d + of_nat i) numSourceLines + 1
         in if l \<in> db_breakpoints d then (d\<lparr>db_line := l\<rparr>, [BreakpointHit])
            else run_loop d (Suc i))
      else (d, []))"
  by pat_completeness auto
termination
  by (relation "measure (\<lambda>(d, i). nat (sint numSourceLines) - i)") auto

declare run_loop.simps [simp del]

definition Debugger_run :: "Debugger \<Rightarrow> Debugger \<times> debugger_event list" where
  "Debugger_run d = run_loop d 0"

definition Debugger_pause :: "Debugger \<Rightarrow> Debugger \<times> debugger_event list" where
  "Debugger_pause d = (d, [Paused])"

definition Debugger_currentLine :: "Debugger \<Rightarrow> int64" where
  "Debugger_currentLine d = db_line d"

definition Debugger_stepForward :: "Debugger \<Rightarrow> Debugger \<times> debugger_event list" where
  "Debugger_stepForward d = (d\<lparr>db_line := int64_mod (db_line d) numSourceLines + 1\<rparr>, [Stepped])"

definition Debugger_clearBreakpoints :: "Debugger \<Rightarrow> Debugger" where
  "Debugger_clearBreakpoints d = d\<lparr>db_breakpoints := {}\<rparr>"

definition Debugger_addBreakpoint :: "int64 \<Rightarrow> Debugger \<Rightarrow> Debugger" where
  "Debugger_addBreakpoint l d = d\<lparr>db_breakpoints := insert l (db_breakpoints d)\<rparr>"

subsubsection \<open>Lines as numbers\<close>

text \<open>The line is always one of the file, and its successor is the line after it, or the first.\<close>

definition line_ok :: "Debugger \<Rightarrow> bool" where
  "line_ok d \<longleftrightarrow> 1 \<le> sint (db_line d) \<and> sint (db_line d) \<le> sint numSourceLines"

definition after :: "nat \<Rightarrow> int64 \<Rightarrow> int64" where
  "after k l = word_of_int ((sint l - 1 + int k) mod 7 + 1)"

lemma numSourceLines_val [simp]: "sint numSourceLines = 7"
  by (simp add: numSourceLines_def)

lemma sint_small: "0 \<le> n \<Longrightarrow> n < 2 ^ 31 \<Longrightarrow> sint (word_of_int n :: int64) = n"
  by (simp add: signed_of_int signed_take_bit_int_eq_self)

lemma sint_after: "sint (after k l) = (sint l - 1 + int k) mod 7 + 1"
proof -
  have "0 \<le> (sint l - 1 + int k) mod 7" "(sint l - 1 + int k) mod 7 < 7" by simp_all
  then show ?thesis unfolding after_def by (intro sint_small) simp_all
qed

lemma mod_lines:
  assumes "0 \<le> sint l" and "sint l < 2 ^ 31"
  shows "int64_mod l numSourceLines + 1 = word_of_int (sint l mod 7 + 1)"
proof -
  have "sint l smod 7 = sint l mod 7"
    using assms(1) by (cases "sint l = 0") (simp_all add: smod_int_alt_def)
  then show ?thesis by (simp add: int64_mod_def)
qed

lemma after_step: "line_ok d \<Longrightarrow> int64_mod (db_line d) numSourceLines + 1 = after 1 (db_line d)"
  using mod_lines [of "db_line d"] by (simp add: line_ok_def after_def)

lemma after_turn:
  assumes "line_ok d" and "i < 7"
  shows "int64_mod (db_line d + of_nat i) numSourceLines + 1 = after (Suc i) (db_line d)"
proof -
  have "db_line d + of_nat i = word_of_int (sint (db_line d) + int i)" by simp
  then have s: "sint (db_line d + of_nat i) = sint (db_line d) + int i"
    using assms sint_small [of "sint (db_line d) + int i"] by (simp add: line_ok_def)
  show ?thesis using mod_lines [of "db_line d + of_nat i"] assms unfolding s by (simp add: line_ok_def after_def)
qed

lemma after_bounds [simp]: "1 \<le> sint (after k l)" "sint (after k l) \<le> 7"
proof -
  have "0 \<le> (sint l - 1 + int k) mod 7" "(sint l - 1 + int k) mod 7 < 7" by simp_all
  then show "1 \<le> sint (after k l)" "sint (after k l) \<le> 7" unfolding sint_after by linarith+
qed

lemma line_ok_after [simp]: "line_ok (d\<lparr>db_line := after k l\<rparr>)"
  by (simp add: line_ok_def)

lemma line_ok_new: "line_ok Debugger_new"
  by (simp add: line_ok_def Debugger_new_def)

lemma line_ok_breakpoints [simp]: "line_ok (d\<lparr>db_breakpoints := b\<rparr>) = line_ok d"
  by (simp add: line_ok_def)

lemma stepForward_after: "line_ok d \<Longrightarrow> Debugger_stepForward d = (d\<lparr>db_line := after 1 (db_line d)\<rparr>, [Stepped])"
  by (simp add: Debugger_stepForward_def after_step)

lemma after_after: "after j (after k l) = after (k + j) l"
proof -
  have "((sint l - 1 + int k) mod 7 + int j) mod 7 = (sint l - 1 + int (k + j)) mod 7"
    by (simp add: mod_add_left_eq add.assoc)
  then have "sint (after j (after k l)) = sint (after (k + j) l)" unfolding sint_after by simp
  then show ?thesis by (simp add: signed_word_eqI)
qed

lemma after_cycle: "line_ok d \<Longrightarrow> after 7 (db_line d) = db_line d"
proof -
  assume "line_ok d"
  then have "sint (after 7 (db_line d)) = sint (db_line d)" unfolding sint_after line_ok_def by simp presburger
  then show ?thesis by (simp add: signed_word_eqI)
qed

text \<open>
  The lines at which \<^verbatim>\<open>run\<close> looks, in order: it stops at the first that has a breakpoint.
\<close>

lemma run_loop_find:
  assumes "line_ok d" and "i \<le> 7"
  shows "run_loop d i =
    (case find (\<lambda>l. l \<in> db_breakpoints d) (map (\<lambda>k. after (Suc k) (db_line d)) [i..<7]) of
       None \<Rightarrow> (d, [])
     | Some l \<Rightarrow> (d\<lparr>db_line := l\<rparr>, [BreakpointHit]))"
  using assms(2)
proof (induction "7 - i" arbitrary: i)
  case 0
  then show ?case by (subst run_loop.simps) simp
next
  case (Suc n)
  then have "[i..<7] = i # [Suc i..<7]" and i: "i < 7" by (simp_all add: upt_conv_Cons)
  moreover have "run_loop d (Suc i) =
    (case find (\<lambda>l. l \<in> db_breakpoints d) (map (\<lambda>k. after (Suc k) (db_line d)) [Suc i..<7]) of
       None \<Rightarrow> (d, []) | Some l \<Rightarrow> (d\<lparr>db_line := l\<rparr>, [BreakpointHit]))"
    using Suc by simp
  ultimately show ?case
    by (subst run_loop.simps) (simp add: Let_def after_turn [OF assms(1) i])
qed

text \<open>Stepping, at most \<open>n\<close> times, until a line with a breakpoint is reached.\<close>

fun step_until :: "nat \<Rightarrow> Debugger \<Rightarrow> Debugger option" where
  "step_until 0 d = None"
| "step_until (Suc n) d =
     (let d' = fst (Debugger_stepForward d)
      in if db_line d' \<in> db_breakpoints d' then Some d' else step_until n d')"

lemma step_until_find:
  assumes "line_ok d"
  shows "step_until n d = map_option (\<lambda>l. d\<lparr>db_line := l\<rparr>)
    (find (\<lambda>l. l \<in> db_breakpoints d) (map (\<lambda>k. after (Suc k) (db_line d)) [0..<n]))"
  using assms
proof (induction n arbitrary: d)
  case (Suc n)
  let ?d = "d\<lparr>db_line := after 1 (db_line d)\<rparr>"
  have "map (\<lambda>k. after (Suc k) (db_line ?d)) [0..<n] = map (\<lambda>k. after (Suc k) (db_line d)) [Suc 0..<Suc n]"
    by (subst map_Suc_upt [symmetric]) (simp add: after_after)
  then show ?case
    using Suc.IH [of ?d] Suc.prems by (simp add: stepForward_after Let_def upt_conv_Cons del: upt_Suc)
qed simp

lemma lines_reached:
  assumes "line_ok d"
  shows "(\<exists>k < 7. after (Suc k) (db_line d) = l) \<longleftrightarrow> 1 \<le> sint l \<and> sint l \<le> 7"
proof
  assume l: "1 \<le> sint l \<and> sint l \<le> 7"
  define k where "k = nat ((sint l - sint (db_line d) - 1) mod 7)"
  have k: "int k = (sint l - sint (db_line d) - 1) mod 7" by (simp add: k_def)
  then have "(sint (db_line d) - 1 + int (Suc k)) mod 7 = (sint l - 1) mod 7" by (simp add: mod_add_right_eq)
  then have "sint (after (Suc k) (db_line d)) = sint l" using l unfolding sint_after by simp
  moreover have "int k < 7" unfolding k by simp
  ultimately show "\<exists>k < 7. after (Suc k) (db_line d) = l" using signed_word_eqI by force
qed auto

lemma line_ok_run:
  assumes "line_ok d"
  shows "line_ok (fst (Debugger_run d))"
proof (cases "find (\<lambda>l. l \<in> db_breakpoints d) (map (\<lambda>k. after (Suc k) (db_line d)) [0..<7])")
  case (Some l)
  then have "1 \<le> sint l \<and> sint l \<le> 7" using after_bounds by (auto simp: find_Some_iff simp del: after_bounds)
  then show ?thesis using Some run_loop_find [OF assms, of 0] by (simp add: Debugger_run_def line_ok_def)
qed (use assms run_loop_find [OF assms, of 0] in \<open>simp add: Debugger_run_def\<close>)

subsection \<open>The class \<^verbatim>\<open>Event\<close>\<close>

text \<open>A flag that threads wait for: an instance of the monitor pattern.\<close>

record Event =
  ev_fired :: bool

definition Event_new :: Event where
  "Event_new = \<lparr>ev_fired = False\<rparr>"

definition Event_wait :: "Event \<Rightarrow> unit \<Rightarrow> unit \<times> Event" where
  "Event_wait e q = ((), e)"

definition Event_fire :: "Event \<Rightarrow> unit \<Rightarrow> Event \<times> bool" where
  "Event_fire e q = (e\<lparr>ev_fired := True\<rparr>, True)"

interpretation event: monitor ev_fired Event_fire Event_wait
  by unfold_locales (simp add: Event_fire_def)

lemma event_run_fired:
  assumes "mon_run ev_fired Event_fire Event_wait (Event_new, w0) es (e, w)"
  shows "ev_fired e \<longleftrightarrow> Act () \<in> set es"
proof -
  have "fst (Event_new, w0) = Event_new \<longrightarrow> (ev_fired (fst (e, w)) \<longleftrightarrow> Act () \<in> set es)"
  proof (rule mon_run_history [OF assms,
        where P = "\<lambda>s e t. ev_fired t \<longleftrightarrow> e = Act () \<or> ev_fired s"
          and Q = "\<lambda>s es t. s = Event_new \<longrightarrow> (ev_fired t \<longleftrightarrow> Act () \<in> set es)" and ok = "\<lambda>_. True"])
  qed (auto simp: Event_fire_def Event_wait_def Event_new_def list_all_iff)
  then show ?thesis by simp
qed

subsection \<open>Properties\<close>

text \<open>
  C30. Continuing is stepping without stopping. From every line of the file \<^verbatim>\<open>run\<close> gets to the line that single steps
  reach first among those with a breakpoint, wrapping around at the end of the file, and fires one event;
  if seven steps meet no breakpoint it changes nothing and fires nothing.
\<close>

theorem debugger_run_is_stepping:
  assumes "line_ok d"
  shows "Debugger_run d = (case step_until 7 d of None \<Rightarrow> (d, []) | Some d' \<Rightarrow> (d', [BreakpointHit]))"
  using run_loop_find [OF assms, of 0] step_until_find [OF assms, of 7]
  by (simp add: Debugger_run_def split: option.split)

theorem debugger_run_is_stepping_witness:
  "Debugger_run \<lparr>db_line = 5, db_breakpoints = {2, 5, 40}\<rparr> = (\<lparr>db_line = 2, db_breakpoints = {2, 5, 40}\<rparr>, [BreakpointHit])"
proof -
  have "step_until 7 \<lparr>db_line = 5, db_breakpoints = {2, 5, 40}\<rparr> = Some \<lparr>db_line = 2, db_breakpoints = {2, 5, 40}\<rparr>"
    by code_simp
  then show ?thesis
    using debugger_run_is_stepping [of "\<lparr>db_line = 5, db_breakpoints = {2, 5, 40}\<rparr>"] by (simp add: line_ok_def)
qed

text \<open>Any sequence of calls.\<close>

datatype debugger_op = Run | Pause | StepForward | ClearBreakpoints | AddBreakpoint int64

fun debugger_do :: "debugger_op \<Rightarrow> Debugger \<Rightarrow> Debugger" where
  "debugger_do Run d = fst (Debugger_run d)"
| "debugger_do Pause d = fst (Debugger_pause d)"
| "debugger_do StepForward d = fst (Debugger_stepForward d)"
| "debugger_do ClearBreakpoints d = Debugger_clearBreakpoints d"
| "debugger_do (AddBreakpoint l) d = Debugger_addBreakpoint l d"

lemma line_ok_do: "line_ok d \<Longrightarrow> line_ok (debugger_do x d)"
  by (cases x) (simp_all add: line_ok_run Debugger_pause_def stepForward_after
      Debugger_clearBreakpoints_def Debugger_addBreakpoint_def)

lemma run_stops:
  assumes "line_ok d"
  shows "snd (Debugger_run d) = (if \<exists>b \<in> db_breakpoints d. 1 \<le> sint b \<and> sint b \<le> 7 then [BreakpointHit] else [])"
proof -
  have "l \<in> set (map (\<lambda>k. after (Suc k) (db_line d)) [0..<7]) \<longleftrightarrow> 1 \<le> sint l \<and> sint l \<le> 7" for l
    using lines_reached [OF assms, of l] by (auto simp: image_iff Bex_def)
  then have "find (\<lambda>l. l \<in> db_breakpoints d) (map (\<lambda>k. after (Suc k) (db_line d)) [0..<7]) = None
      \<longleftrightarrow> \<not> (\<exists>b \<in> db_breakpoints d. 1 \<le> sint b \<and> sint b \<le> 7)"
    unfolding find_None_iff by blast
  then show ?thesis
    using run_loop_find [OF assms, of 0] by (auto simp: Debugger_run_def split: option.splits)
qed

text \<open>
  The current line is always a line of the file, whatever is done with the debugger, and \<^verbatim>\<open>run\<close> stops
  exactly if some line of the file has a breakpoint: breakpoints elsewhere have no effect.
\<close>

theorem debugger_line_in_file:
  "line_ok (fold debugger_do ops Debugger_new)
   \<and> snd (Debugger_run (fold debugger_do ops Debugger_new))
     = (if \<exists>b \<in> db_breakpoints (fold debugger_do ops Debugger_new). 1 \<le> sint b \<and> sint b \<le> sint numSourceLines
        then [BreakpointHit] else [])"
proof -
  have "line_ok (fold debugger_do ops d)" if "line_ok d" for d
    using that by (induction ops arbitrary: d) (simp_all add: line_ok_do)
  then show ?thesis using line_ok_new run_stops by simp
qed

text \<open>
  No wait is missed: once an \<^verbatim>\<open>Event\<close> has been fired, in any interleaving of threads that wait and threads that
  fire, with or without spurious wakeups, nobody is asleep and every thread can return from
  \<^verbatim>\<open>wait\<close>; before that nobody returns.
\<close>

theorem event_wait_returns:
  assumes "mon_run ev_fired Event_fire Event_wait (Event_new, \<lambda>_. Running) es (e, w)"
  shows "(if Act () \<in> set es
          then w i \<noteq> Asleep \<and> (\<exists>u. mon_step ev_fired Event_fire Event_wait (e, w) (Passed i () ()) u)
          else \<not> (\<exists>u. mon_step ev_fired Event_fire Event_wait (e, w) (Passed i () ()) u))"
  using event_run_fired [OF assms] event.no_lost_wakeup [OF assms, of i "()"]
  by (auto elim: mon_step_PassedE)

theorem event_wait_returns_witness:
  "\<exists>u. mon_step ev_fired Event_fire Event_wait (\<lparr>ev_fired = True\<rparr>, notify_all ((\<lambda>_. Running)(1 := Asleep))) (Passed 1 () ()) u"
proof -
  have "mon_run ev_fired Event_fire Event_wait (Event_new, \<lambda>_. Running) [Silent, Act ()]
     (\<lparr>ev_fired = True\<rparr>, notify_all ((\<lambda>_. Running)(1 := Asleep)))"
  proof (intro mon_run_Cons [OF mon_run_Cons [OF mon_run.nil]])
    show "mon_step ev_fired Event_fire Event_wait (Event_new, \<lambda>_. Running) Silent (Event_new, (\<lambda>_. Running)(1 := Asleep))"
      by (rule mon_step.sleep) (simp_all add: Event_new_def)
    show "mon_step ev_fired Event_fire Event_wait (Event_new, (\<lambda>_. Running)(1 := Asleep)) (Act ())
       (\<lparr>ev_fired = True\<rparr>, notify_all ((\<lambda>_. Running)(1 := Asleep)))"
      by (rule mon_step_notify) (simp add: Event_fire_def Event_new_def)
  qed
  from event_wait_returns [OF this, of 1] show ?thesis by simp
qed

end
