(* ===== verification/HelloHandlers.thy ===== *)
theory HelloHandlers
  imports Messages HelloDebugger SessionCore
begin

section \<open>The handlers of the example debugger\<close>

text \<open>
  What \<^verbatim>\<open>main\<close> of \<^verbatim>\<open>hello_debugger.cpp\<close> registers with its session. A handler reads and changes the debugger,
  and does things in order: it sends events, fires a signal and returns a response or an error, which the
  session sends.
\<close>

subsection \<open>Members of structs\<close>

text \<open>
  Access to a member by its name, at its position among the members that the struct declares and
  inherits, and the value of an optional member or a default.
\<close>

abbreviation fresh :: "string \<Rightarrow> val" where
  "fresh s \<equiv> default_of protocol_decls (TStruct s)"

definition member_at :: "string \<Rightarrow> string \<Rightarrow> nat" where
  "member_at s f = length (takeWhile (\<lambda>m. m_name m \<noteq> f) (members_of protocol_decls s))"

definition get_member :: "string \<Rightarrow> string \<Rightarrow> val \<Rightarrow> val" where
  "get_member s f v = (case v of VStruct vs \<Rightarrow> vs ! member_at s f | _ \<Rightarrow> v)"

definition set_member :: "string \<Rightarrow> string \<Rightarrow> val \<Rightarrow> val \<Rightarrow> val" where
  "set_member s f x v = (case v of VStruct vs \<Rightarrow> VStruct (vs[member_at s f := x]) | _ \<Rightarrow> v)"

fun integer_of :: "val \<Rightarrow> int64" where
  "integer_of (VInteger i) = i"
| "integer_of _ = 0"

fun boolean_of :: "val \<Rightarrow> bool" where
  "boolean_of (VBoolean b) = b"
| "boolean_of _ = False"

fun elements_of :: "val \<Rightarrow> val list" where
  "elements_of (VArray vs) = vs"
| "elements_of _ = []"

fun value_or :: "val \<Rightarrow> val \<Rightarrow> val" where
  "value_or (VOptional h v) dflt = (if h then v else dflt)"
| "value_or _ dflt = dflt"

definition int64_to_string :: "int64 \<Rightarrow> string" where
  "int64_to_string i = (if sint i < 0 then ''-'' @ to_string (nat (- sint i)) else to_string (nat (sint i)))"

subsection \<open>The handlers\<close>

definition threadId :: int64 where "threadId = 100"
definition frameId :: int64 where "frameId = 200"
definition variablesReferenceId :: int64 where "variablesReferenceId = 300"
definition sourceReferenceId :: int64 where "sourceReferenceId = 400"

datatype signal = Configured | Terminate

datatype effect = SendEvent string val | FireSignal signal

definition stopped :: "string \<Rightarrow> effect" where
  "stopped reason = SendEvent ''StoppedEvent''
     (set_member ''StoppedEvent'' ''threadId'' (VOptional True (VInteger threadId))
       (set_member ''StoppedEvent'' ''reason'' (VString reason) (fresh ''StoppedEvent'')))"

fun onDebuggerEvent :: "debugger_event \<Rightarrow> effect list" where
  "onDebuggerEvent Stepped = [stopped ''step'']"
| "onDebuggerEvent BreakpointHit = [stopped ''breakpoint'']"
| "onDebuggerEvent Paused = [stopped ''pause'']"

text \<open>A call of a method of the debugger, whose events go to \<^verbatim>\<open>onDebuggerEvent\<close>.\<close>

definition debugger_call :: "(Debugger \<Rightarrow> Debugger \<times> debugger_event list) \<Rightarrow> Debugger \<Rightarrow> Debugger \<times> effect list" where
  "debugger_call f d = (case f d of (d, es) \<Rightarrow> (d, concat (map onDebuggerEvent es)))"

type_synonym handler = "Debugger \<Rightarrow> val \<Rightarrow> (Debugger \<times> effect list) \<times> ResponseOrError"

definition unknown :: "string \<Rightarrow> string \<Rightarrow> int64 \<Rightarrow> ResponseOrError" where
  "unknown T what i =
     of_error (fresh T) (Error_format (''Unknown '' @ what @ '' '' @ [CHR 0x27] @ format_d (ucast i) @ [CHR 0x27]))"

definition onInitialize :: handler where
  "onInitialize d request =
     ((d, []), of_response
        (set_member ''InitializeResponse'' ''supportsConfigurationDoneRequest'' (VOptional True (VBoolean True))
          (fresh ''InitializeResponse'')))"

definition onInitializeSent :: "effect list" where
  "onInitializeSent = [SendEvent ''InitializedEvent'' (fresh ''InitializedEvent'')]"

definition onThreads :: handler where
  "onThreads d request =
     (let thread = set_member ''Thread'' ''name'' (VString ''TheThread'')
            (set_member ''Thread'' ''id'' (VInteger threadId) (fresh ''Thread''))
      in ((d, []), of_response (set_member ''ThreadsResponse'' ''threads'' (VArray [thread]) (fresh ''ThreadsResponse''))))"

definition onStackTrace :: handler where
  "onStackTrace d request =
     ((d, []),
      if integer_of (get_member ''StackTraceRequest'' ''threadId'' request) \<noteq> threadId
      then unknown ''StackTraceResponse'' ''threadId'' (integer_of (get_member ''StackTraceRequest'' ''threadId'' request))
      else
        (let source = set_member ''Source'' ''name'' (VOptional True (VString ''HelloDebuggerSource''))
               (set_member ''Source'' ''sourceReference'' (VOptional True (VInteger sourceReferenceId)) (fresh ''Source''));
             frame = set_member ''StackFrame'' ''source'' (VOptional True source)
               (set_member ''StackFrame'' ''id'' (VInteger frameId)
                 (set_member ''StackFrame'' ''name'' (VString ''HelloDebugger'')
                   (set_member ''StackFrame'' ''column'' (VInteger 1)
                     (set_member ''StackFrame'' ''line'' (VInteger (Debugger_currentLine d)) (fresh ''StackFrame'')))))
         in of_response (set_member ''StackTraceResponse'' ''stackFrames'' (VArray [frame]) (fresh ''StackTraceResponse''))))"

definition onScopes :: handler where
  "onScopes d request =
     ((d, []),
      if integer_of (get_member ''ScopesRequest'' ''frameId'' request) \<noteq> frameId
      then unknown ''ScopesResponse'' ''frameId'' (integer_of (get_member ''ScopesRequest'' ''frameId'' request))
      else
        (let scope = set_member ''Scope'' ''variablesReference'' (VInteger variablesReferenceId)
               (set_member ''Scope'' ''presentationHint'' (VOptional True (VString ''locals''))
                 (set_member ''Scope'' ''name'' (VString ''Locals'') (fresh ''Scope'')))
         in of_response (set_member ''ScopesResponse'' ''scopes'' (VArray [scope]) (fresh ''ScopesResponse''))))"

definition onVariables :: handler where
  "onVariables d request =
     ((d, []),
      if integer_of (get_member ''VariablesRequest'' ''variablesReference'' request) \<noteq> variablesReferenceId
      then unknown ''VariablesResponse'' ''variablesReference''
        (integer_of (get_member ''VariablesRequest'' ''variablesReference'' request))
      else
        (let currentLineVar = set_member ''Variable'' ''type'' (VOptional True (VString ''int''))
               (set_member ''Variable'' ''value'' (VString (int64_to_string (Debugger_currentLine d)))
                 (set_member ''Variable'' ''name'' (VString ''currentLine'') (fresh ''Variable'')))
         in of_response (set_member ''VariablesResponse'' ''variables'' (VArray [currentLineVar]) (fresh ''VariablesResponse''))))"

definition onPause :: handler where
  "onPause d request = (debugger_call Debugger_pause d, of_response (fresh ''PauseResponse''))"

definition onContinue :: handler where
  "onContinue d request = (debugger_call Debugger_run d, of_response (fresh ''ContinueResponse''))"

definition onNext :: handler where
  "onNext d request = (debugger_call Debugger_stepForward d, of_response (fresh ''NextResponse''))"

definition onStepIn :: handler where
  "onStepIn d request = (debugger_call Debugger_stepForward d, of_response (fresh ''StepInResponse''))"

definition onStepOut :: handler where
  "onStepOut d request = ((d, []), of_response (fresh ''StepOutResponse''))"

text \<open>One turn of the loop over the breakpoints of the request.\<close>

definition breakpoint_line :: "val \<Rightarrow> int64" where
  "breakpoint_line b = integer_of (get_member ''SourceBreakpoint'' ''line'' b)"

definition set_turn :: "val list \<Rightarrow> nat \<Rightarrow> Debugger \<times> val list \<Rightarrow> Debugger \<times> val list" where
  "set_turn breakpoints i = (\<lambda>(d, rs).
     (Debugger_addBreakpoint (breakpoint_line (breakpoints ! i)) d,
      rs[i := set_member ''Breakpoint'' ''verified''
                (VBoolean (sint (breakpoint_line (breakpoints ! i)) < sint numSourceLines)) (rs ! i)]))"

definition onSetBreakpoints :: handler where
  "onSetBreakpoints d request =
     (let breakpoints = elements_of (value_or (get_member ''SetBreakpointsRequest'' ''breakpoints'' request) (VArray []));
          resized = replicate (length breakpoints) (fresh ''Breakpoint'')
      in if integer_of (value_or (get_member ''Source'' ''sourceReference''
              (get_member ''SetBreakpointsRequest'' ''source'' request)) (VInteger 0)) = sourceReferenceId
         then (case fold (set_turn breakpoints) [0..<length breakpoints] (Debugger_clearBreakpoints d, resized) of (d, rs) \<Rightarrow>
           ((d, []), of_response (set_member ''SetBreakpointsResponse'' ''breakpoints'' (VArray rs) (fresh ''SetBreakpointsResponse''))))
         else ((d, []), of_response
           (set_member ''SetBreakpointsResponse'' ''breakpoints'' (VArray resized) (fresh ''SetBreakpointsResponse''))))"

definition onSetExceptionBreakpoints :: handler where
  "onSetExceptionBreakpoints d request = ((d, []), of_response (fresh ''SetExceptionBreakpointsResponse''))"

definition onSource :: handler where
  "onSource d request =
     ((d, []),
      if integer_of (get_member ''SourceRequest'' ''sourceReference'' request) \<noteq> sourceReferenceId
      then unknown ''SourceResponse'' ''source reference'' (integer_of (get_member ''SourceRequest'' ''sourceReference'' request))
      else of_response (set_member ''SourceResponse'' ''content'' (VString sourceContent) (fresh ''SourceResponse'')))"

definition onLaunch :: handler where
  "onLaunch d request = ((d, []), of_response (fresh ''LaunchResponse''))"

definition onDisconnect :: handler where
  "onDisconnect d request =
     ((d, if boolean_of (value_or (get_member ''DisconnectRequest'' ''terminateDebuggee'' request) (VBoolean False))
          then [FireSignal Terminate] else []),
      of_response (fresh ''DisconnectResponse''))"

definition onConfigurationDone :: handler where
  "onConfigurationDone d request = ((d, [FireSignal Configured]), of_response (fresh ''ConfigurationDoneResponse''))"

text \<open>The handlers that \<^verbatim>\<open>main\<close> registers, in its order, each with the request and the response it is for.\<close>

definition hello_handlers :: "(string \<times> string \<times> handler) list" where
  "hello_handlers =
     [(''InitializeRequest'', ''InitializeResponse'', onInitialize), (''ThreadsRequest'', ''ThreadsResponse'', onThreads),
      (''StackTraceRequest'', ''StackTraceResponse'', onStackTrace), (''ScopesRequest'', ''ScopesResponse'', onScopes),
      (''VariablesRequest'', ''VariablesResponse'', onVariables), (''PauseRequest'', ''PauseResponse'', onPause),
      (''ContinueRequest'', ''ContinueResponse'', onContinue), (''NextRequest'', ''NextResponse'', onNext),
      (''StepInRequest'', ''StepInResponse'', onStepIn), (''StepOutRequest'', ''StepOutResponse'', onStepOut),
      (''SetBreakpointsRequest'', ''SetBreakpointsResponse'', onSetBreakpoints),
      (''SetExceptionBreakpointsRequest'', ''SetExceptionBreakpointsResponse'', onSetExceptionBreakpoints),
      (''SourceRequest'', ''SourceResponse'', onSource), (''LaunchRequest'', ''LaunchResponse'', onLaunch),
      (''DisconnectRequest'', ''DisconnectResponse'', onDisconnect),
      (''ConfigurationDoneRequest'', ''ConfigurationDoneResponse'', onConfigurationDone)]"

lemmas handlers_def =
  onInitialize_def onThreads_def onStackTrace_def onScopes_def onVariables_def onPause_def onContinue_def onNext_def
  onStepIn_def onStepOut_def onSetExceptionBreakpoints_def onSource_def onLaunch_def onDisconnect_def
  onConfigurationDone_def

subsection \<open>Typed access\<close>

text \<open>
  What the compiler checks of an access: the member is there and has the type. The checks are a table,
  evaluated once.
\<close>

definition member_type :: "string \<Rightarrow> string \<Rightarrow> dap_type option" where
  "member_type s f = (case filter (\<lambda>m. m_name m = f) (members_of protocol_decls s) of [m] \<Rightarrow> Some (m_type m) | _ \<Rightarrow> None)"

lemma member_type_Some:
  "member_type s f = Some t \<longleftrightarrow> map m_type (filter (\<lambda>m. m_name m = f) (members_of protocol_decls s)) = [t]"
  by (auto simp: member_type_def split: list.splits)

lemma member_at_nth:
  assumes "member_type s f = Some t"
  shows "member_at s f < length (members_of protocol_decls s)" and "m_type (members_of protocol_decls s ! member_at s f) = t"
proof -
  let ?ms = "members_of protocol_decls s"
  have "\<exists>m \<in> set ?ms. m_name m = f" using assms by (force simp: member_type_Some dest: arg_cong [of _ _ set])
  then show l: "member_at s f < length ?ms"
    unfolding member_at_def by (metis (mono_tags, lifting) length_takeWhile_le nat_less_le takeWhile_eq_all_conv takeWhile_eq_take take_all)
  then have "m_name (?ms ! member_at s f) = f"
    unfolding member_at_def using nth_length_takeWhile by blast
  with l have "?ms ! member_at s f \<in> set (filter (\<lambda>m. m_name m = f) ?ms)" by simp
  then have "m_type (?ms ! member_at s f) \<in> set (map m_type (filter (\<lambda>m. m_name m = f) ?ms))" by force
  then show "m_type (?ms ! member_at s f) = t" using assms unfolding member_type_Some by (metis empty_iff list.set insert_iff)
qed

lemma set_member_typed:
  assumes "of_type protocol_decls (TStruct s) v" and "member_type s f = Some t" and "of_type protocol_decls t x"
  shows "of_type protocol_decls (TStruct s) (set_member s f x v)"
proof -
  obtain vs where v: "v = VStruct vs" "of_types protocol_decls (map m_type (members_of protocol_decls s)) vs"
    using of_type_structD [OF assms(1)] by blast
  have "length vs = length (members_of protocol_decls s)" using v(2) by (auto simp: of_types_list_all2 dest: list_all2_lengthD)
  then show ?thesis
    using v member_at_nth [OF assms(2)] assms(3) by (simp add: set_member_def of_types_update)
qed

lemma get_member_typed:
  assumes "of_type protocol_decls (TStruct s) v" and "member_type s f = Some t"
  shows "of_type protocol_decls t (get_member s f v)"
proof -
  obtain vs where v: "v = VStruct vs" "of_types protocol_decls (map m_type (members_of protocol_decls s)) vs"
    using of_type_structD [OF assms(1)] by blast
  then show ?thesis
    using member_at_nth [OF assms(2)] by (auto simp: get_member_def of_types_list_all2 list_all2_conv_all_nth)
qed

lemma get_member_sendable:
  assumes "of_type protocol_decls (TStruct s) v" and "member_type s f = Some t" and "sendable P Q v"
  shows "sendable P Q (get_member s f v)"
proof -
  obtain vs where v: "v = VStruct vs" "of_types protocol_decls (map m_type (members_of protocol_decls s)) vs"
    using of_type_structD [OF assms(1)] by blast
  have "length vs = length (members_of protocol_decls s)" using v(2) by (auto simp: of_types_list_all2 dest: list_all2_lengthD)
  then show ?thesis using v assms(3) member_at_nth(1) [OF assms(2)] by (simp add: get_member_def list_all_length)
qed

lemma get_set_member:
  assumes "of_type protocol_decls (TStruct s) v" and "member_type s f = Some t"
  shows "get_member s f (set_member s f x v) = x"
proof -
  obtain vs where v: "v = VStruct vs" "of_types protocol_decls (map m_type (members_of protocol_decls s)) vs"
    using of_type_structD [OF assms(1)] by blast
  have "length vs = length (members_of protocol_decls s)" using v(2) by (auto simp: of_types_list_all2 dest: list_all2_lengthD)
  then show ?thesis using v member_at_nth(1) [OF assms(2)] by (simp add: set_member_def get_member_def)
qed

lemma set_member_sendable: "sendable P Q v \<Longrightarrow> sendable P Q x \<Longrightarrow> sendable P Q (set_member s f x v)"
  by (cases v) (auto simp: set_member_def list_all_iff dest: set_update_subset_insert [THEN subsetD])

lemma fresh_typed: "s \<in> set (map sd_name protocol_decls) \<Longrightarrow> of_type protocol_decls (TStruct s) (fresh s)"
  using default_of_type_ok(1) [OF protocol_wf, of "TStruct s"] by (simp add: type_ok_def protocol_env_decls)

text \<open>The structs that the handlers construct, and the members that they use.\<close>

definition hello_structs :: "struct_decl list" where
  "hello_structs =
     [InitializeResponse_decl, ThreadsResponse_decl, StackTraceResponse_decl, ScopesResponse_decl, VariablesResponse_decl,
      PauseResponse_decl, ContinueResponse_decl, NextResponse_decl, StepInResponse_decl, StepOutResponse_decl,
      SetBreakpointsResponse_decl, SetExceptionBreakpointsResponse_decl, SourceResponse_decl, LaunchResponse_decl,
      DisconnectResponse_decl, ConfigurationDoneResponse_decl, Thread_decl, Source_decl, StackFrame_decl, Scope_decl,
      Variable_decl, Breakpoint_decl, StoppedEvent_decl, InitializedEvent_decl, ThreadEvent_decl]"

definition hello_requests :: "struct_decl list" where
  "hello_requests = [StackTraceRequest_decl, ScopesRequest_decl, VariablesRequest_decl, SetBreakpointsRequest_decl,
     SourceBreakpoint_decl, SourceRequest_decl, DisconnectRequest_decl]"

definition hello_members :: "(struct_decl \<times> string \<times> dap_type) list" where
  "hello_members =
     [(StoppedEvent_decl, ''threadId'', TOptional TInteger), (StoppedEvent_decl, ''reason'', TString),
      (ThreadEvent_decl, ''threadId'', TInteger), (ThreadEvent_decl, ''reason'', TString),
      (InitializeResponse_decl, ''supportsConfigurationDoneRequest'', TOptional TBoolean),
      (Thread_decl, ''name'', TString), (Thread_decl, ''id'', TInteger),
      (ThreadsResponse_decl, ''threads'', TArray (TStruct ''Thread'')), (StackTraceRequest_decl, ''threadId'', TInteger),
      (Source_decl, ''name'', TOptional TString), (Source_decl, ''sourceReference'', TOptional TInteger),
      (StackFrame_decl, ''source'', TOptional (TStruct ''Source'')), (StackFrame_decl, ''id'', TInteger),
      (StackFrame_decl, ''name'', TString), (StackFrame_decl, ''column'', TInteger), (StackFrame_decl, ''line'', TInteger),
      (StackTraceResponse_decl, ''stackFrames'', TArray (TStruct ''StackFrame'')), (ScopesRequest_decl, ''frameId'', TInteger),
      (Scope_decl, ''variablesReference'', TInteger), (Scope_decl, ''presentationHint'', TOptional TString),
      (Scope_decl, ''name'', TString), (ScopesResponse_decl, ''scopes'', TArray (TStruct ''Scope'')),
      (VariablesRequest_decl, ''variablesReference'', TInteger), (Variable_decl, ''type'', TOptional TString),
      (Variable_decl, ''value'', TString), (Variable_decl, ''name'', TString),
      (VariablesResponse_decl, ''variables'', TArray (TStruct ''Variable'')),
      (SetBreakpointsRequest_decl, ''breakpoints'', TOptional (TArray (TStruct ''SourceBreakpoint''))),
      (SetBreakpointsRequest_decl, ''source'', TStruct ''Source''), (SourceBreakpoint_decl, ''line'', TInteger),
      (Breakpoint_decl, ''verified'', TBoolean), (SetBreakpointsResponse_decl, ''breakpoints'', TArray (TStruct ''Breakpoint'')),
      (SourceRequest_decl, ''sourceReference'', TInteger), (SourceResponse_decl, ''content'', TString),
      (DisconnectRequest_decl, ''terminateDebuggee'', TOptional TBoolean)]"

fun shallow :: "dap_type \<Rightarrow> bool" where
  "shallow (TVariant ts) = False"
| "shallow TAny = False"
| "shallow (TStruct s) = False"
| "shallow _ = True"

lemma hello_decls: "set hello_structs \<subseteq> set protocol_decls" "set hello_requests \<subseteq> set protocol_decls"
  by (simp_all add: hello_structs_def hello_requests_def protocol_decls_def)

lemma hello_structs_table:
  "list_all (\<lambda>d. sd_name d \<notin> set empty_bases \<and> sd_name d \<noteq> ''StackFrameFormat''
     \<and> list_all (\<lambda>m. shallow (m_type m)) (sd_members d)) hello_structs"
  by code_simp

lemma hello_requests_table:
  "list_all (\<lambda>d. sd_name d \<notin> set empty_bases \<and> sd_name d \<noteq> ''StackFrameFormat'') hello_requests"
  by code_simp

lemma hello_members_table:
  "list_all (\<lambda>(d, f, t). map m_type (filter (\<lambda>m. m_name m = f) (sd_members d)) = [t]) hello_members"
  by code_simp

lemma hello_members_decls: "fst ` set hello_members \<subseteq> set hello_structs \<union> set hello_requests"
  by (simp add: hello_members_def hello_structs_def hello_requests_def)

lemma hello_members_of:
  assumes "d \<in> set hello_structs \<union> set hello_requests"
  shows "members_of protocol_decls (sd_name d) = sd_members d"
  using assms hello_decls hello_structs_table hello_requests_table
  by (intro protocol_struct(1)) (auto simp: list_all_iff)

lemma hello_member_types: "list_all (\<lambda>(d, f, t). member_type (sd_name d) f = Some t) hello_members"
  using hello_members_table hello_members_decls hello_members_of
  by (fastforce simp: list_all_iff member_type_Some)

lemma hello_names:
  "map sd_name hello_structs = [
     ''InitializeResponse'', ''ThreadsResponse'', ''StackTraceResponse'', ''ScopesResponse'',
     ''VariablesResponse'', ''PauseResponse'', ''ContinueResponse'', ''NextResponse'', ''StepInResponse'',
     ''StepOutResponse'', ''SetBreakpointsResponse'', ''SetExceptionBreakpointsResponse'', ''SourceResponse'',
     ''LaunchResponse'', ''DisconnectResponse'', ''ConfigurationDoneResponse'', ''Thread'', ''Source'',
     ''StackFrame'', ''Scope'', ''Variable'', ''Breakpoint'', ''StoppedEvent'', ''InitializedEvent'',
     ''ThreadEvent'']"
  "map sd_name hello_requests = [
     ''StackTraceRequest'', ''ScopesRequest'', ''VariablesRequest'', ''SetBreakpointsRequest'',
     ''SourceBreakpoint'', ''SourceRequest'', ''DisconnectRequest'']"
  by code_simp+

lemmas hello_sd_names = hello_names [unfolded hello_structs_def hello_requests_def list.map list.inject]

lemmas hello_member_type [simp] =
  hello_member_types [simplified hello_members_def list.pred_inject prod.case hello_sd_names]

text \<open>Where the members are.\<close>

lemma hello_positions:
  "map (\<lambda>(d, f, t). length (takeWhile (\<lambda>m. m_name m \<noteq> f) (sd_members d))) hello_members
   = [6, 4, 1, 0, 12, 1, 0, 0, 3, 2, 6, 10, 4, 8, 1, 6, 0, 0, 10, 8, 6, 0, 4, 6, 7, 3, 0, 0, 2, 3, 10, 0, 1, 0, 2]"
  by code_simp

lemma hello_members_at:
  "map (\<lambda>(d, f, t). member_at (sd_name d) f) hello_members
   = map (\<lambda>(d, f, t). length (takeWhile (\<lambda>m. m_name m \<noteq> f) (sd_members d))) hello_members"
  using hello_members_decls hello_members_of by (fastforce simp: member_at_def)

lemmas hello_member_at [simp] =
  trans [OF hello_members_at hello_positions, simplified hello_members_def list.map prod.case list.inject hello_sd_names simp_thms]

lemma get_set_other [simp]:
  "member_at s f \<noteq> member_at s g \<Longrightarrow> get_member s f (set_member s g x v) = get_member s f v"
  by (simp add: get_member_def set_member_def split: val.split)

text \<open>An object of a struct that can be sent: what \<open>protocol_round_trip\<close> needs.\<close>

definition message_of :: "string \<Rightarrow> val \<Rightarrow> bool" where
  "message_of s v \<longleftrightarrow> of_type protocol_decls (TStruct s) v \<and> sendable (\<lambda>_. True) (\<lambda>_. True) v"

lemma shallow_sendable: "shallow t \<Longrightarrow> of_type ds t v \<Longrightarrow> clean v \<Longrightarrow> sendable P' Q' v \<or> (\<exists>s. v = VString s)"
  by (cases v) (auto split: dap_type.splits elim: of_type.elims)

lemma fresh_shallow:
  assumes "d \<in> set protocol_decls" and "sd_name d \<notin> set empty_bases" and "sd_name d \<noteq> ''StackFrameFormat''"
    and "list_all (\<lambda>m. shallow (m_type m)) (sd_members d)"
  shows "message_of (sd_name d) (fresh (sd_name d))"
proof -
  have ok: "type_ok protocol_env (TStruct (sd_name d))"
    using assms(1) by (auto simp: type_ok_def protocol_env_decls)
  note v = default_of_type_ok [OF protocol_wf ok, unfolded protocol_env_decls]
  obtain vs where vs: "fresh (sd_name d) = VStruct vs" "list_all2 (of_type protocol_decls) (map m_type (sd_members d)) vs"
    using of_type_structD [OF v(1)] protocol_struct(1) [OF assms(1-3)] by (auto simp: of_types_list_all2)
  have "sendable (\<lambda>_. True) (\<lambda>_. True) (vs ! i)" if "i < length vs" for i
    using that vs v(2) assms(4)
      shallow_sendable [of "m_type (sd_members d ! i)" protocol_decls "vs ! i" "\<lambda>_. True" "\<lambda>_. True"]
    by (auto simp: list_all2_conv_all_nth list_all_iff)
  then show ?thesis using v(1) vs(1) by (simp add: message_of_def list_all_length)
qed

lemma fresh_message_of: "d \<in> set hello_structs \<Longrightarrow> message_of (sd_name d) (fresh (sd_name d))"
  using hello_decls(1) hello_structs_table by (intro fresh_shallow) (auto simp: list_all_iff)

lemma fresh_messages: "list_all (\<lambda>d. message_of (sd_name d) (fresh (sd_name d))) hello_structs"
  using fresh_message_of by (simp add: list_all_iff)

lemmas hello_fresh [simp] = fresh_messages [simplified hello_structs_def list.pred_inject hello_sd_names]

lemma message_of_set [simp]:
  assumes "message_of s v" and "pred_option (\<lambda>t. of_type protocol_decls t x) (member_type s f)" and "member_type s f \<noteq> None"
    and "sendable (\<lambda>_. True) (\<lambda>_. True) x"
  shows "message_of s (set_member s f x v)"
  using assms by (auto simp: message_of_def intro!: set_member_typed set_member_sendable)

lemma message_of_struct:
  "message_of s v \<Longrightarrow> of_type protocol_decls (TStruct s) v" "message_of s v \<Longrightarrow> sendable (\<lambda>_. True) (\<lambda>_. True) v"
  by (simp_all add: message_of_def)

lemma fresh_sendables: "list_all (\<lambda>d. sendable (\<lambda>_. True) (\<lambda>_. True) (fresh (sd_name d))) hello_structs"
  using message_of_struct(2) [OF fresh_message_of] by (simp add: list_all_iff)

lemmas hello_fresh_sendable [simp] = fresh_sendables [simplified hello_structs_def list.pred_inject hello_sd_names]

declare message_of_struct(1) [simp] set_member_sendable [simp]

lemma message_of_array:
  assumes "\<forall>v \<in> set vs. message_of s v"
  shows "of_type protocol_decls (TArray (TStruct s)) (VArray vs)"
    and "int (length vs) < 2 ^ 32 \<Longrightarrow> sendable (\<lambda>_. True) (\<lambda>_. True) (VArray vs)"
  using assms message_of_struct(2) by (auto simp: of_types_replicate list_all_iff)

subsection \<open>What the handlers answer\<close>

fun effect_ok :: "effect \<Rightarrow> bool" where
  "effect_ok (SendEvent s v) = message_of s v"
| "effect_ok (FireSignal sg) = True"

lemma stopped_ok [simp]: "effect_ok (stopped r)"
  by (simp add: stopped_def del: default_of.simps)

lemma debugger_call_ok [simp]: "list_all effect_ok (snd (debugger_call f d))"
proof -
  have "list_all effect_ok (onDebuggerEvent e)" for e by (cases e) simp_all
  then show ?thesis by (auto simp: debugger_call_def list_all_iff split: prod.split)
qed

lemma line_ok_call:
  assumes "line_ok d"
  shows "line_ok (fst (debugger_call Debugger_pause d))" "line_ok (fst (debugger_call Debugger_run d))"
    "line_ok (fst (debugger_call Debugger_stepForward d))"
  using assms line_ok_run [OF assms]
  by (simp_all add: debugger_call_def Debugger_pause_def stepForward_after split_beta)

text \<open>The breakpoints that \<^verbatim>\<open>onSetBreakpoints\<close> answers with, and those it sets.\<close>

definition verified :: "val \<Rightarrow> val" where
  "verified b = set_member ''Breakpoint'' ''verified'' (VBoolean (sint (breakpoint_line b) < sint numSourceLines)) (fresh ''Breakpoint'')"

lemma set_turns:
  assumes "n \<le> length bs"
  shows "fold (set_turn bs) [0..<n] (d, replicate (length bs) (fresh ''Breakpoint'')) =
    (d\<lparr>db_breakpoints := breakpoint_line ` set (take n bs) \<union> db_breakpoints d\<rparr>,
     map verified (take n bs) @ replicate (length bs - n) (fresh ''Breakpoint''))"
  using assms
proof (induction n)
  case (Suc n)
  then have "length bs - n = Suc (length bs - Suc n)" by simp
  then have "replicate (length bs - n) (fresh ''Breakpoint'') = fresh ''Breakpoint'' # replicate (length bs - Suc n) (fresh ''Breakpoint'')"
    by (simp only: replicate_Suc)
  with Suc show ?case
    by (simp add: set_turn_def verified_def Debugger_addBreakpoint_def take_Suc_conv_app_nth list_update_append nth_append
        del: default_of.simps)
qed (simp add: Debugger_clearBreakpoints_def)

lemma onSetBreakpoints_eq:
  "onSetBreakpoints d request =
     (let breakpoints = elements_of (value_or (get_member ''SetBreakpointsRequest'' ''breakpoints'' request) (VArray []));
          ours = integer_of (value_or (get_member ''Source'' ''sourceReference''
            (get_member ''SetBreakpointsRequest'' ''source'' request)) (VInteger 0)) = sourceReferenceId
      in ((if ours then d\<lparr>db_breakpoints := breakpoint_line ` set breakpoints\<rparr> else d, []),
          of_response (set_member ''SetBreakpointsResponse'' ''breakpoints''
            (VArray (map (if ours then verified else (\<lambda>b. fresh ''Breakpoint'')) breakpoints)) (fresh ''SetBreakpointsResponse''))))"
  using set_turns [OF order_refl]
  by (simp add: onSetBreakpoints_def Let_def Debugger_clearBreakpoints_def map_replicate_const del: default_of.simps)

lemma verified_message [simp]: "message_of ''Breakpoint'' (verified b)"
  by (simp add: verified_def del: default_of.simps)

lemma set_breakpoints_count:
  assumes "message_of ''SetBreakpointsRequest'' request"
  shows "int (length (elements_of (value_or (get_member ''SetBreakpointsRequest'' ''breakpoints'' request) (VArray [])))) < 2 ^ 32"
proof -
  let ?b = "get_member ''SetBreakpointsRequest'' ''breakpoints'' request"
  have t: "of_type protocol_decls (TOptional (TArray (TStruct ''SourceBreakpoint''))) ?b"
    using get_member_typed [of "''SetBreakpointsRequest''" request] assms by simp
  have "sendable (\<lambda>_. True) (\<lambda>_. True) ?b"
    using get_member_sendable [of "''SetBreakpointsRequest''" request] assms message_of_struct(2) by simp
  moreover obtain h vs where "?b = VOptional h (VArray vs)"
    using of_type_optionalD [OF t] of_type_arrayD by blast
  ultimately show ?thesis by auto
qed

lemma set_breakpoints_message:
  assumes "message_of ''SetBreakpointsRequest'' request"
  shows "message_of ''SetBreakpointsResponse'' (roe_response (snd (onSetBreakpoints d request)))"
proof -
  note n = set_breakpoints_count [OF assms]
  have "of_type protocol_decls (TArray (TStruct ''Breakpoint'')) (VArray (map f bs))"
      "int (length bs) < 2 ^ 32 \<Longrightarrow> sendable (\<lambda>_. True) (\<lambda>_. True) (VArray (map f bs))"
    if "\<forall>b. message_of ''Breakpoint'' (f b)" for f and bs :: "val list"
    using message_of_array [of "map f bs" "''Breakpoint''"] that by simp_all
  with n show ?thesis
    by (auto simp: onSetBreakpoints_eq Let_def of_response_def simp del: default_of.simps of_type.simps sendable.simps intro!: message_of_set)
qed

lemmas answer_defs = handlers_def unknown_def of_response_def of_error_def Let_def

lemma answer_messages:
  "message_of ''InitializeResponse'' (roe_response (snd (onInitialize d request)))"
  "message_of ''ThreadsResponse'' (roe_response (snd (onThreads d request)))"
  "message_of ''StackTraceResponse'' (roe_response (snd (onStackTrace d request)))"
  "message_of ''ScopesResponse'' (roe_response (snd (onScopes d request)))"
  "message_of ''VariablesResponse'' (roe_response (snd (onVariables d request)))"
  "message_of ''PauseResponse'' (roe_response (snd (onPause d request)))"
  "message_of ''ContinueResponse'' (roe_response (snd (onContinue d request)))"
  "message_of ''NextResponse'' (roe_response (snd (onNext d request)))"
  "message_of ''StepInResponse'' (roe_response (snd (onStepIn d request)))"
  "message_of ''StepOutResponse'' (roe_response (snd (onStepOut d request)))"
  "message_of ''SetExceptionBreakpointsResponse'' (roe_response (snd (onSetExceptionBreakpoints d request)))"
  "message_of ''SourceResponse'' (roe_response (snd (onSource d request)))"
  "message_of ''LaunchResponse'' (roe_response (snd (onLaunch d request)))"
  "message_of ''DisconnectResponse'' (roe_response (snd (onDisconnect d request)))"
  "message_of ''ConfigurationDoneResponse'' (roe_response (snd (onConfigurationDone d request)))"
  by (simp_all add: answer_defs del: default_of.simps)

text \<open>
  C31. Every handler answers with a message of the protocol. Whatever the state of the debugger and whatever
  the request, the response is an object of the response type that the protocol declares for the request,
  the events sent on the way are objects of event types, and none of them holds anything that
  cannot be sent: by \<open>protocol_round_trip\<close> the client reads what was sent. The current line stays a line of the file.
\<close>

theorem hello_answers_typed:
  assumes "(q, p, f) \<in> set hello_handlers" and "message_of q request" and "line_ok d"
  shows "(q, p) \<in> set response_of \<and> message_of p (roe_response (snd (f d request)))
    \<and> list_all effect_ok (snd (fst (f d request))) \<and> line_ok (fst (fst (f d request)))"
proof -
  have "set (map (\<lambda>(q, p, _). (q, p)) hello_handlers) \<subseteq> set response_of"
    by (simp add: hello_handlers_def response_of_def)
  then have "(q, p) \<in> set response_of" using assms(1) by force
  moreover have "message_of p (roe_response (snd (f d request)))"
    using assms(1,2) answer_messages set_breakpoints_message by (auto simp: hello_handlers_def simp del: default_of.simps)
  moreover have "list_all effect_ok (snd (fst (f d request)))"
    using assms(1) by (auto simp: hello_handlers_def answer_defs onSetBreakpoints_eq)
  moreover have "line_ok (fst (fst (f d request)))"
    using assms(1,3) by (auto simp: hello_handlers_def answer_defs onSetBreakpoints_eq line_ok_call)
  ultimately show ?thesis by blast
qed

text \<open>A request of a client, for the examples: breakpoints on lines of a source.\<close>

definition set_breakpoints_request :: "int64 \<Rightarrow> int64 list \<Rightarrow> val" where
  "set_breakpoints_request source lines = VStruct
     [VOptional True (VArray (map (\<lambda>l. VStruct
        [VOptional False (VInteger 0), VOptional False (VString []), VOptional False (VString []), VInteger l,
         VOptional False (VString []), VOptional False (VString [])]) lines)),
      VOptional False (VArray []),
      VStruct [VOptional False (VVariant (VAny (Some (TString, VString [])))), VOptional False (VArray []),
        VOptional False (VString []), VOptional False (VString []), VOptional False (VString []),
        VOptional False (VString []), VOptional True (VInteger source), VOptional False (VArray [])],
      VOptional False (VBoolean False)]"

lemma request_members:
  "members_of protocol_decls ''SetBreakpointsRequest'' = sd_members SetBreakpointsRequest_decl"
  "members_of protocol_decls ''SourceBreakpoint'' = sd_members SourceBreakpoint_decl"
  using hello_members_of [of SetBreakpointsRequest_decl] hello_members_of [of SourceBreakpoint_decl]
  by (simp_all add: hello_requests_def hello_sd_names)

lemma set_breakpoints_request_message:
  assumes "int (length lines) < 2 ^ 32"
  shows "message_of ''SetBreakpointsRequest'' (set_breakpoints_request source lines)"
proof -
  have "of_types protocol_decls (replicate (length lines) (TStruct ''SourceBreakpoint'')) (map (\<lambda>l. VStruct
        [VOptional False (VInteger 0), VOptional False (VString []), VOptional False (VString []), VInteger l,
         VOptional False (VString []), VOptional False (VString [])]) lines)"
    unfolding of_types_list_all2 by (simp add: list_all2_conv_all_nth request_members SourceBreakpoint_decl_def)
  with assms show ?thesis
    by (simp add: message_of_def set_breakpoints_request_def request_members SetBreakpointsRequest_decl_def
        Source_members Source_decl_def list_all_iff)
qed

theorem hello_answers_typed_witness:
  "message_of ''SetBreakpointsResponse''
     (roe_response (snd (onSetBreakpoints Debugger_new (set_breakpoints_request sourceReferenceId [3, 7, 0]))))"
proof -
  have "(''SetBreakpointsRequest'', ''SetBreakpointsResponse'', onSetBreakpoints) \<in> set hello_handlers"
    by (simp add: hello_handlers_def)
  from hello_answers_typed [OF this set_breakpoints_request_message line_ok_new, of "[3, 7, 0]"] show ?thesis by simp
qed

text \<open>
  C32. Breakpoints take effect. After a request that sets breakpoints in the debugger's source, the breakpoints are
  those of the request and no others, the answer has one breakpoint for each, in order, and a
  request to continue stops, with one event, exactly if one of the lines asked for is a line of the file. A breakpoint
  is reported as verified when its line is less than seven: on the last line, where it works, it is not
  verified, and on line 0, where it does not, it is.
\<close>

theorem set_breakpoints_then_continue:
  assumes "line_ok d"
    and "integer_of (value_or (get_member ''Source'' ''sourceReference'' (get_member ''SetBreakpointsRequest'' ''source'' request))
           (VInteger 0)) = sourceReferenceId"
    and "bs = elements_of (value_or (get_member ''SetBreakpointsRequest'' ''breakpoints'' request) (VArray []))"
    and "onSetBreakpoints d request = ((d', es), r)"
  shows "db_breakpoints d' = breakpoint_line ` set bs \<and> db_line d' = db_line d \<and> es = []
    \<and> map (get_member ''Breakpoint'' ''verified'') (elements_of (get_member ''SetBreakpointsResponse'' ''breakpoints'' (roe_response r)))
      = map (\<lambda>b. VBoolean (sint (breakpoint_line b) < 7)) bs
    \<and> snd (fst (onContinue d' c))
      = (if \<exists>b \<in> set bs. 1 \<le> sint (breakpoint_line b) \<and> sint (breakpoint_line b) \<le> 7 then [stopped ''breakpoint''] else [])"
proof -
  have d': "d' = d\<lparr>db_breakpoints := breakpoint_line ` set bs\<rparr>" "es = []"
      "r = of_response (set_member ''SetBreakpointsResponse'' ''breakpoints'' (VArray (map verified bs)) (fresh ''SetBreakpointsResponse''))"
    using assms(2-4) by (simp_all add: onSetBreakpoints_eq Let_def del: default_of.simps)
  have "get_member ''Breakpoint'' ''verified'' (verified b) = VBoolean (sint (breakpoint_line b) < 7)" for b
    using get_set_member [of "''Breakpoint''" "fresh ''Breakpoint''"] by (simp add: verified_def del: default_of.simps)
  moreover have "get_member ''SetBreakpointsResponse'' ''breakpoints'' (roe_response r) = VArray (map verified bs)"
    using get_set_member [of "''SetBreakpointsResponse''" "fresh ''SetBreakpointsResponse''"]
    by (simp add: d'(3) of_response_def del: default_of.simps)
  moreover have "line_ok d'" using assms(1) d'(1) by simp
  ultimately show ?thesis
    using d' run_stops [of d'] by (auto simp: onContinue_def debugger_call_def split: prod.splits if_splits)
qed

text \<open>On lines 7 and 0: the last line is not verified but works, and line 0 is verified.\<close>

theorem set_breakpoints_then_continue_witness:
  "\<exists>d' r. onSetBreakpoints Debugger_new (set_breakpoints_request sourceReferenceId [7, 0]) = ((d', []), r)
    \<and> map (get_member ''Breakpoint'' ''verified'') (elements_of (get_member ''SetBreakpointsResponse'' ''breakpoints'' (roe_response r)))
      = [VBoolean False, VBoolean True]
    \<and> snd (fst (onContinue d' VNull)) = [stopped ''breakpoint'']"
proof -
  let ?q = "set_breakpoints_request sourceReferenceId [7, 0]"
  let ?bs = "elements_of (value_or (get_member ''SetBreakpointsRequest'' ''breakpoints'' ?q) (VArray []))"
  obtain d' es r where q: "onSetBreakpoints Debugger_new ?q = ((d', es), r)" by (metis prod.exhaust)
  have "map breakpoint_line ?bs = [7, 0]"
    by (simp add: set_breakpoints_request_def get_member_def breakpoint_line_def)
  then obtain a b where bs: "?bs = [a, b]" "breakpoint_line a = 7" "breakpoint_line b = 0" by auto
  have "integer_of (value_or (get_member ''Source'' ''sourceReference'' (get_member ''SetBreakpointsRequest'' ''source'' ?q))
      (VInteger 0)) = sourceReferenceId"
    by (simp add: set_breakpoints_request_def get_member_def)
  from set_breakpoints_then_continue [OF line_ok_new this refl q, of VNull] q bs show ?thesis by auto
qed

text \<open>
  What the client sees of the program. A stack trace of the one thread has one frame, which is at the
  current line, and the one variable of its scope prints the same line in decimal.
\<close>

theorem debugger_is_reported:
  assumes "line_ok d" and "integer_of (get_member ''StackTraceRequest'' ''threadId'' q1) = threadId"
    and "integer_of (get_member ''VariablesRequest'' ''variablesReference'' q2) = variablesReferenceId"
  shows "\<exists>frame var text.
      elements_of (get_member ''StackTraceResponse'' ''stackFrames'' (roe_response (snd (onStackTrace d q1)))) = [frame]
    \<and> get_member ''StackFrame'' ''line'' frame = VInteger (db_line d)
    \<and> elements_of (get_member ''VariablesResponse'' ''variables'' (roe_response (snd (onVariables d q2)))) = [var]
    \<and> get_member ''Variable'' ''value'' var = VString text \<and> int (decimal text) = sint (db_line d)"
proof -
  let ?f = "set_member ''StackFrame'' ''line'' (VInteger (db_line d)) (fresh ''StackFrame'')"
  let ?v = "set_member ''Variable'' ''value'' (VString (to_string (nat (sint (db_line d)))))
    (set_member ''Variable'' ''name'' (VString ''currentLine'') (fresh ''Variable''))"
  have "get_member ''StackFrame'' ''line'' ?f = VInteger (db_line d)"
      "get_member ''Variable'' ''value'' ?v = VString (to_string (nat (sint (db_line d))))"
    by (rule get_set_member; simp del: default_of.simps)+
  then show ?thesis
    using assms get_set_member [of "''StackTraceResponse''" "fresh ''StackTraceResponse''"]
      get_set_member [of "''VariablesResponse''" "fresh ''VariablesResponse''"]
    by (simp add: answer_defs Debugger_currentLine_def int64_to_string_def line_ok_def del: default_of.simps)
qed

definition stack_trace_request :: val where
  "stack_trace_request = VStruct [VOptional False VNull, VOptional False (VInteger 0), VOptional False (VInteger 0), VInteger 100]"

definition variables_request :: val where
  "variables_request = VStruct [VOptional False (VInteger 0), VOptional False (VString []), VOptional False VNull,
     VOptional False (VInteger 0), VInteger 300]"

theorem debugger_is_reported_witness:
  "\<exists>frame var text.
      elements_of (get_member ''StackTraceResponse'' ''stackFrames'' (roe_response (snd (onStackTrace Debugger_new stack_trace_request)))) = [frame]
    \<and> get_member ''StackFrame'' ''line'' frame = VInteger 1
    \<and> elements_of (get_member ''VariablesResponse'' ''variables'' (roe_response (snd (onVariables Debugger_new variables_request)))) = [var]
    \<and> get_member ''Variable'' ''value'' var = VString text \<and> decimal text = 1"
  using debugger_is_reported [OF line_ok_new, of stack_trace_request variables_request]
  by (simp add: stack_trace_request_def variables_request_def get_member_def threadId_def variablesReferenceId_def Debugger_new_def)

lemma unknown_is_error: "is_error (roe_error (unknown T what i))"
  by (simp add: unknown_def of_error_def is_error_def Error_format_def vsnprintf_c_str_def)

text \<open>
  Requests for things that do not exist. A stack trace of another thread, the scopes of another frame,
  the variables of another scope and the text of another source are answered with an error, and only those are.
\<close>

theorem unknown_identifiers:
  "(is_error (roe_error (snd (onStackTrace d q))) \<longleftrightarrow> integer_of (get_member ''StackTraceRequest'' ''threadId'' q) \<noteq> threadId)
   \<and> (is_error (roe_error (snd (onScopes d q))) \<longleftrightarrow> integer_of (get_member ''ScopesRequest'' ''frameId'' q) \<noteq> frameId)
   \<and> (is_error (roe_error (snd (onVariables d q)))
      \<longleftrightarrow> integer_of (get_member ''VariablesRequest'' ''variablesReference'' q) \<noteq> variablesReferenceId)
   \<and> (is_error (roe_error (snd (onSource d q))) \<longleftrightarrow> integer_of (get_member ''SourceRequest'' ''sourceReference'' q) \<noteq> sourceReferenceId)"
  using unknown_is_error by (auto simp: onStackTrace_def onScopes_def onVariables_def onSource_def Let_def of_response_def is_error_def)

end
