(* ===== verification/HelloServer.thy ===== *)
theory HelloServer
  imports HelloHandlers
begin

section \<open>The threads of the example debugger\<close>

text \<open>
  \<^verbatim>\<open>main\<close> of \<^verbatim>\<open>hello_debugger.cpp\<close> once the handlers are registered and the session is bound. Two threads are at
  work. The dispatch thread of the session takes one request after the other and runs its handler, which does what
  it has to do step by step: it sends events, fires a signal, and last of all the session sends the
  response and calls the response-sent handler. The main thread waits for the signal \<^verbatim>\<open>configured\<close>, sends two events and waits for
  the signal \<^verbatim>\<open>terminate\<close>. Their steps interleave in every way. Errors that the session reports fire
  \<^verbatim>\<open>terminate\<close> at any time.

  The debugger itself is used by the dispatch thread only (\<^verbatim>\<open>pause\<close>, which the main thread calls, reads none of its data),
  so the part of a handler that reads and changes it is taken as one step at its start.
\<close>

subsection \<open>Registration\<close>

datatype hello_token = OnErr | OnRequest string | OnInitializeSent

definition register_handlers :: "(string \<times> string \<times> handler) list \<Rightarrow> ('r, 'w, hello_token) Session \<Rightarrow> ('r, 'w, hello_token) Session" where
  "register_handlers hs s = fold (\<lambda>(q, p, f). handlers_put_request protocol_env (TStruct q) (OnRequest q)) hs s"

definition hello_session :: "('r, 'w, hello_token) Session" where
  "hello_session =
     register_handlers (drop 1 hello_handlers)
       (handlers_put_sent protocol_env (TStruct ''InitializeResponse'') OnInitializeSent
         (register_handlers (take 1 hello_handlers) (handlers_put_error (Some OnErr) Session_create)))"

subsection \<open>The two threads\<close>

datatype main_at = AwaitConfigured | SendStarted | PauseDebugger | AwaitTerminate | Returned

datatype origin = MainThread | DispatchThread

datatype action = Do effect | Answer request_context string ResponseOrError

text \<open>\<open>hl_todo\<close> is what the handler that runs still has to do, \<open>hl_log\<close> what the threads have done so far.\<close>

record hello =
  hl_debugger :: Debugger
  hl_configured :: Event
  hl_terminate :: Event
  hl_main :: main_at
  hl_todo :: "action list"
  hl_log :: "(origin \<times> action) list"

definition hello_start :: hello where
  "hello_start = \<lparr>hl_debugger = Debugger_new, hl_configured = Event_new, hl_terminate = Event_new,
     hl_main = AwaitConfigured, hl_todo = [], hl_log = []\<rparr>"

fun fire :: "signal \<Rightarrow> hello \<Rightarrow> hello" where
  "fire Configured s = s\<lparr>hl_configured := fst (Event_fire (hl_configured s) ())\<rparr>"
| "fire Terminate s = s\<lparr>hl_terminate := fst (Event_fire (hl_terminate s) ())\<rparr>"

definition perform :: "origin \<Rightarrow> action \<Rightarrow> hello \<Rightarrow> hello" where
  "perform t a s =
     (let s = s\<lparr>hl_log := hl_log s @ [(t, a)]\<rparr>
      in case a of Do (FireSignal sg) \<Rightarrow> fire sg s | _ \<Rightarrow> s)"

text \<open>What a request gives the dispatch thread to do.\<close>

type_synonym hello_request = "string \<times> val \<times> request_context"

definition actions :: "request_context \<Rightarrow> string \<Rightarrow> effect list \<Rightarrow> ResponseOrError \<Rightarrow> action list" where
  "actions ctx p es r =
     map Do es @ Answer ctx p r # (if p = ''InitializeResponse'' then map Do onInitializeSent else [])"

definition started :: effect where
  "started = SendEvent ''ThreadEvent''
     (set_member ''ThreadEvent'' ''threadId'' (VInteger threadId)
       (set_member ''ThreadEvent'' ''reason'' (VString ''started'') (fresh ''ThreadEvent'')))"

inductive hello_step :: "hello \<Rightarrow> hello_request option \<Rightarrow> hello \<Rightarrow> bool" where
  receive: "hl_todo s = [] \<Longrightarrow> map_of hello_handlers q = Some (p, f) \<Longrightarrow> f (hl_debugger s) v = ((d, es), r) \<Longrightarrow>
    hello_step s (Some (q, v, ctx)) (s\<lparr>hl_debugger := d, hl_todo := actions ctx p es r\<rparr>)"
| act: "hl_todo s = a # as \<Longrightarrow> hello_step s None (perform DispatchThread a (s\<lparr>hl_todo := as\<rparr>))"
| session_error: "hello_step s None (fire Terminate s)"
| configured: "hl_main s = AwaitConfigured \<Longrightarrow> ev_fired (hl_configured s) \<Longrightarrow> hello_step s None (s\<lparr>hl_main := SendStarted\<rparr>)"
| thread_started: "hl_main s = SendStarted \<Longrightarrow>
    hello_step s None (perform MainThread (Do started) (s\<lparr>hl_main := PauseDebugger\<rparr>))"
| paused: "hl_main s = PauseDebugger \<Longrightarrow> debugger_call Debugger_pause (hl_debugger s) = (d, es) \<Longrightarrow>
    hello_step s None (fold (\<lambda>e. perform MainThread (Do e)) es (s\<lparr>hl_main := AwaitTerminate\<rparr>))"
| returned: "hl_main s = AwaitTerminate \<Longrightarrow> ev_fired (hl_terminate s) \<Longrightarrow> hello_step s None (s\<lparr>hl_main := Returned\<rparr>)"

inductive hello_run :: "hello \<Rightarrow> hello_request list \<Rightarrow> hello \<Rightarrow> bool" for s where
  start: "hello_run s [] s"
| step: "hello_run s qs t \<Longrightarrow> hello_step t l u \<Longrightarrow> hello_run s (qs @ (case l of None \<Rightarrow> [] | Some q \<Rightarrow> [q])) u"

text \<open>The same requests handled one at a time by one thread, and what \<^verbatim>\<open>main\<close> does up to a point.\<close>

fun script :: "hello_request list \<Rightarrow> Debugger \<Rightarrow> Debugger \<times> action list" where
  "script [] d = (d, [])"
| "script ((q, v, ctx) # qs) d =
     (case map_of hello_handlers q of
        None \<Rightarrow> script qs d
      | Some (p, f) \<Rightarrow>
          (case f d v of ((d, es), r) \<Rightarrow> (case script qs d of (d, as) \<Rightarrow> (d, actions ctx p es r @ as))))"

fun main_script :: "main_at \<Rightarrow> action list" where
  "main_script AwaitConfigured = []"
| "main_script SendStarted = []"
| "main_script PauseDebugger = [Do started]"
| "main_script _ = [Do started, Do (stopped ''pause'')]"

definition done_by :: "origin \<Rightarrow> hello \<Rightarrow> action list" where
  "done_by t s = map snd (filter (\<lambda>x. fst x = t) (hl_log s))"

lemma script_append:
  "script (qs @ qs') d = (case script qs d of (d', as) \<Rightarrow> (case script qs' d' of (d'', as') \<Rightarrow> (d'', as @ as')))"
  by (induction qs d rule: script.induct) (auto split: option.splits prod.splits)

lemma perform_simps [simp]:
  "hl_debugger (perform t a s) = hl_debugger s" "hl_main (perform t a s) = hl_main s"
  "hl_todo (perform t a s) = hl_todo s" "hl_log (perform t a s) = hl_log s @ [(t, a)]"
  "ev_fired (hl_configured (perform t a s)) = (a = Do (FireSignal Configured) \<or> ev_fired (hl_configured s))"
  "ev_fired (hl_terminate (perform t a s)) = (a = Do (FireSignal Terminate) \<or> ev_fired (hl_terminate s))"
  by (auto simp: perform_def Let_def Event_fire_def split: action.split effect.split signal.split)
    (case_tac x2; simp add: Event_fire_def)+

lemma perform_eqs:
  "perform t (Do (SendEvent n v)) s = s\<lparr>hl_log := hl_log s @ [(t, Do (SendEvent n v))]\<rparr>"
  "perform t (Do started) s = s\<lparr>hl_log := hl_log s @ [(t, Do started)]\<rparr>"
  "perform t (Do (stopped r)) s = s\<lparr>hl_log := hl_log s @ [(t, Do (stopped r))]\<rparr>"
  "perform t (Answer ctx p q) s = s\<lparr>hl_log := hl_log s @ [(t, Answer ctx p q)]\<rparr>"
  "perform t (Do (FireSignal sg)) s = fire sg (s\<lparr>hl_log := hl_log s @ [(t, Do (FireSignal sg))]\<rparr>)"
  by (simp_all add: perform_def started_def stopped_def Let_def)

lemma debugger_pause_effects [simp]: "debugger_call Debugger_pause d = (d, [stopped ''pause''])"
  by (simp add: debugger_call_def Debugger_pause_def)

definition hello_inv :: "hello_request list \<Rightarrow> hello \<Rightarrow> bool" where
  "hello_inv qs s \<longleftrightarrow> script qs Debugger_new = (hl_debugger s, done_by DispatchThread s @ hl_todo s)
     \<and> done_by MainThread s = main_script (hl_main s)
     \<and> (ev_fired (hl_configured s) \<longleftrightarrow> Do (FireSignal Configured) \<in> set (done_by DispatchThread s))
     \<and> (hl_main s \<noteq> AwaitConfigured \<longrightarrow> ev_fired (hl_configured s))
     \<and> (done_by MainThread s \<noteq> [] \<longrightarrow>
          (DispatchThread, Do (FireSignal Configured)) \<in> set (takeWhile (\<lambda>x. fst x \<noteq> MainThread) (hl_log s)))"

lemma hello_inv_step:
  assumes "hello_step s l t" and "hello_inv qs s"
  shows "hello_inv (qs @ (case l of None \<Rightarrow> [] | Some q \<Rightarrow> [q])) t"
  using assms
proof (induction rule: hello_step.induct)
  case (receive s q p f v d es r ctx)
  then show ?case by (auto simp: hello_inv_def script_append done_by_def)
next
  case (act s a as)
  then show ?case by (auto simp: hello_inv_def done_by_def takeWhile_append)
next
  case (session_error s)
  then show ?case by (auto simp: hello_inv_def done_by_def)
next
  case (configured s)
  then show ?case by (auto simp: hello_inv_def done_by_def)
next
  case (thread_started s)
  then show ?case by (auto simp: hello_inv_def done_by_def takeWhile_append started_def filter_empty_conv)
next
  case (paused s d es)
  then show ?case by (auto simp: hello_inv_def done_by_def takeWhile_append stopped_def)
next
  case (returned s)
  then show ?case by (auto simp: hello_inv_def done_by_def)
qed

lemma hello_inv_run:
  assumes "hello_run hello_start qs s"
  shows "hello_inv qs s"
  using assms
proof (induction rule: hello_run.induct)
  case start
  then show ?case by (simp add: hello_inv_def hello_start_def done_by_def Event_new_def)
next
  case (step qs t l u)
  then show ?case using hello_inv_step by blast
qed

lemma hello_run_trans:
  assumes "hello_run t qs' u" and "hello_run s qs t"
  shows "hello_run s (qs @ qs') u"
  using assms
proof (induction rule: hello_run.induct)
  case (step qs' v l u)
  then show ?case using hello_run.step [OF step.IH step.hyps(2)] by simp
qed simp

lemma hello_silent: "hello_step s None t \<Longrightarrow> hello_run s [] t"
  using hello_run.step [OF hello_run.start, of s None t] by simp

subsection \<open>Executable runs\<close>

text \<open>The same steps as a function, for examples: which thread moves next is the argument.\<close>

datatype move = Receive hello_request | Act | SessionError | MainMoves

fun move_label :: "move \<Rightarrow> hello_request option" where
  "move_label (Receive q) = Some q"
| "move_label _ = None"

fun hello_move :: "move \<Rightarrow> hello \<Rightarrow> hello option" where
  "hello_move (Receive (q, v, ctx)) s =
     (case map_of hello_handlers q of
        None \<Rightarrow> None
      | Some (p, f) \<Rightarrow>
          if hl_todo s = []
          then Some (case f (hl_debugger s) v of ((d, es), r) \<Rightarrow> s\<lparr>hl_debugger := d, hl_todo := actions ctx p es r\<rparr>)
          else None)"
| "hello_move Act s = (case hl_todo s of [] \<Rightarrow> None | a # as \<Rightarrow> Some (perform DispatchThread a (s\<lparr>hl_todo := as\<rparr>)))"
| "hello_move SessionError s = Some (fire Terminate s)"
| "hello_move MainMoves s =
     (case hl_main s of
        AwaitConfigured \<Rightarrow> if ev_fired (hl_configured s) then Some (s\<lparr>hl_main := SendStarted\<rparr>) else None
      | SendStarted \<Rightarrow> Some (perform MainThread (Do started) (s\<lparr>hl_main := PauseDebugger\<rparr>))
      | PauseDebugger \<Rightarrow>
          Some (fold (\<lambda>e. perform MainThread (Do e)) (snd (debugger_call Debugger_pause (hl_debugger s)))
            (s\<lparr>hl_main := AwaitTerminate\<rparr>))
      | AwaitTerminate \<Rightarrow> if ev_fired (hl_terminate s) then Some (s\<lparr>hl_main := Returned\<rparr>) else None
      | Returned \<Rightarrow> None)"

lemma hello_move_step: "hello_move m s = Some t \<Longrightarrow> hello_step s (move_label m) t"
proof (induction m s rule: hello_move.induct)
  case (1 q v ctx s)
  then obtain p f where "map_of hello_handlers q = Some (p, f)" "hl_todo s = []"
      "t = (case f (hl_debugger s) v of ((d, es), r) \<Rightarrow> s\<lparr>hl_debugger := d, hl_todo := actions ctx p es r\<rparr>)"
    by (auto split: option.splits if_splits)
  then show ?case by (cases "f (hl_debugger s) v") (auto intro: hello_step.receive)
next
  case (4 s)
  then show ?case
    by (cases "hl_main s") (auto split: if_splits intro: hello_step.intros hello_step.paused [where es = "[stopped ''pause'']", simplified])
qed (auto split: list.splits intro: hello_step.intros simp del: fire.simps)

lemma hello_step_move: "hello_step s l t \<longleftrightarrow> (\<exists>m. move_label m = l \<and> hello_move m s = Some t)"
proof
  assume "hello_step s l t"
  then show "\<exists>m. move_label m = l \<and> hello_move m s = Some t"
  proof (induction rule: hello_step.induct)
    case (receive s q p f v d es r ctx)
    then show ?case by (intro exI [of _ "Receive (q, v, ctx)"]) simp
  next
    case (act s a as)
    then show ?case by (intro exI [of _ Act]) simp
  next
    case (session_error s)
    then show ?case by (intro exI [of _ SessionError]) simp
  qed (rule exI [of _ MainMoves], simp)+
qed (use hello_move_step in blast)

fun hello_moves :: "move list \<Rightarrow> hello \<Rightarrow> hello option" where
  "hello_moves [] s = Some s"
| "hello_moves (m # ms) s = (case hello_move m s of None \<Rightarrow> None | Some t \<Rightarrow> hello_moves ms t)"

lemma hello_moves_run: "hello_moves ms s = Some t \<Longrightarrow> hello_run s (List.map_filter move_label ms) t"
proof (induction ms arbitrary: s)
  case Nil
  then show ?case by (simp add: hello_run.start)
next
  case (Cons m ms)
  then obtain u where u: "hello_move m s = Some u" "hello_moves ms u = Some t" by (auto split: option.splits)
  have "hello_run s (case move_label m of None \<Rightarrow> [] | Some q \<Rightarrow> [q]) u"
    using hello_run.step [OF hello_run.start hello_move_step [OF u(1)]] by simp
  from hello_run_trans [OF Cons.IH [OF u(2)] this] show ?case by (auto split: option.splits)
qed

text \<open>
  A client that configures the program, lets it start, and asks it to terminate; the main thread is the first to go on after
  the handler has fired the signal.
\<close>

definition disconnect_request :: val where
  "disconnect_request = VStruct [VOptional False (VBoolean False), VOptional False (VBoolean False), VOptional True (VBoolean True)]"

abbreviation nth_context :: "int64 \<Rightarrow> string \<Rightarrow> request_context" where
  "nth_context n c \<equiv> \<lparr>rc_sequence = n, rc_command = c\<rparr>"

definition disconnect_moves :: "move list" where
  "disconnect_moves =
     [Receive (''InitializeRequest'', VNull, nth_context 1 ''initialize''), Act, Act,
      Receive (''ConfigurationDoneRequest'', VNull, nth_context 2 ''configurationDone''), Act, MainMoves, MainMoves, Act, MainMoves,
      Receive (''DisconnectRequest'', disconnect_request, nth_context 3 ''disconnect''), Act, MainMoves]"

lemma hello_lookup:
  "map_of hello_handlers ''InitializeRequest'' = Some (''InitializeResponse'', onInitialize)"
  "map_of hello_handlers ''ConfigurationDoneRequest'' = Some (''ConfigurationDoneResponse'', onConfigurationDone)"
  "map_of hello_handlers ''DisconnectRequest'' = Some (''DisconnectResponse'', onDisconnect)"
  by (simp_all add: hello_handlers_def)

lemma disconnect_handled:
  "onDisconnect d disconnect_request = ((d, [FireSignal Terminate]), of_response (fresh ''DisconnectResponse''))"
  by (simp add: onDisconnect_def disconnect_request_def get_member_def del: default_of.simps)

lemma disconnect_run:
  "\<exists>s. hello_run hello_start (List.map_filter move_label disconnect_moves) s \<and> hl_main s = Returned
    \<and> hl_todo s = [Answer (nth_context 3 ''disconnect'') ''DisconnectResponse'' (of_response (fresh ''DisconnectResponse''))]
    \<and> done_by DispatchThread s =
      [Answer (nth_context 1 ''initialize'') ''InitializeResponse'' (snd (onInitialize Debugger_new VNull)),
       Do (SendEvent ''InitializedEvent'' (fresh ''InitializedEvent'')), Do (FireSignal Configured),
       Answer (nth_context 2 ''configurationDone'') ''ConfigurationDoneResponse'' (of_response (fresh ''ConfigurationDoneResponse'')),
       Do (FireSignal Terminate)]"
proof -
  obtain s where s: "hello_moves disconnect_moves hello_start = Some s" "hl_main s = Returned"
      "hl_todo s = [Answer (nth_context 3 ''disconnect'') ''DisconnectResponse'' (of_response (fresh ''DisconnectResponse''))]"
      "done_by DispatchThread s =
      [Answer (nth_context 1 ''initialize'') ''InitializeResponse'' (snd (onInitialize Debugger_new VNull)),
       Do (SendEvent ''InitializedEvent'' (fresh ''InitializedEvent'')), Do (FireSignal Configured),
       Answer (nth_context 2 ''configurationDone'') ''ConfigurationDoneResponse'' (of_response (fresh ''ConfigurationDoneResponse'')),
       Do (FireSignal Terminate)]"
    by (simp add: disconnect_moves_def hello_start_def hello_lookup onInitialize_def onConfigurationDone_def
        disconnect_handled actions_def onInitializeSent_def perform_eqs Event_fire_def Event_new_def done_by_def del: default_of.simps)
  then show ?thesis using hello_moves_run by blast
qed

text \<open>A client that asks the program to terminate before it has configured it.\<close>

lemma early_disconnect_run:
  "\<exists>s. hello_run hello_start [(''DisconnectRequest'', disconnect_request, nth_context 1 ''disconnect'')] s
    \<and> ev_fired (hl_terminate s) \<and> hl_todo s = []"
proof -
  let ?ms = "[Receive (''DisconnectRequest'', disconnect_request, nth_context 1 ''disconnect''), Act, Act]"
  obtain s where "hello_moves ?ms hello_start = Some s" "ev_fired (hl_terminate s)" "hl_todo s = []"
    by (simp add: hello_start_def hello_lookup disconnect_handled actions_def perform_eqs Event_fire_def del: default_of.simps)
  then show ?thesis using hello_moves_run [of ?ms hello_start s] by auto
qed

subsection \<open>Properties\<close>

text \<open>
  C29. The concurrent program implements the sequential one. In every interleaving of its threads, with session errors at
  any time, what the dispatch thread has done and still has to do is what one thread alone does that
  handles the requests received one after the other, and the debugger is in the state that it
  leaves; the main thread does its own steps, once each and in order, and none of them before the
  signal that the configuration is done.
\<close>

theorem hello_refines_script:
  assumes "hello_run hello_start qs s"
  shows "script qs Debugger_new = (hl_debugger s, done_by DispatchThread s @ hl_todo s)
    \<and> done_by MainThread s = main_script (hl_main s)
    \<and> (done_by MainThread s \<noteq> [] \<longrightarrow>
         (DispatchThread, Do (FireSignal Configured)) \<in> set (takeWhile (\<lambda>x. fst x \<noteq> MainThread) (hl_log s)))"
  using hello_inv_run [OF assms] by (simp add: hello_inv_def)

theorem hello_refines_script_witness:
  "\<exists>s. hl_main s = Returned \<and> done_by MainThread s = [Do started, Do (stopped ''pause'')]
    \<and> script (List.map_filter move_label disconnect_moves) Debugger_new = (hl_debugger s, done_by DispatchThread s @ hl_todo s)"
proof -
  obtain s where s: "hello_run hello_start (List.map_filter move_label disconnect_moves) s" "hl_main s = Returned"
    using disconnect_run by blast
  from hello_refines_script [OF s(1)] s(2) show ?thesis by auto
qed

text \<open>What the handlers do: only one of them fires \<^verbatim>\<open>configured\<close>, and none of them sends \<^verbatim>\<open>InitializedEvent\<close>.\<close>

lemma debugger_call_stops: "e \<in> set (snd (debugger_call f d)) \<Longrightarrow> \<exists>r. e = stopped r"
proof -
  have "e \<in> set (onDebuggerEvent x) \<Longrightarrow> \<exists>r. e = stopped r" for x by (cases x) auto
  then show "e \<in> set (snd (debugger_call f d)) \<Longrightarrow> \<exists>r. e = stopped r"
    by (auto simp: debugger_call_def split: prod.splits)
qed

lemma handler_events:
  "snd (fst (onInitialize d v)) = []" "snd (fst (onThreads d v)) = []" "snd (fst (onStackTrace d v)) = []"
  "snd (fst (onScopes d v)) = []" "snd (fst (onVariables d v)) = []" "snd (fst (onStepOut d v)) = []"
  "snd (fst (onSetBreakpoints d v)) = []" "snd (fst (onSetExceptionBreakpoints d v)) = []" "snd (fst (onSource d v)) = []"
  "snd (fst (onLaunch d v)) = []" "fst (onPause d v) = debugger_call Debugger_pause d"
  "fst (onContinue d v) = debugger_call Debugger_run d" "fst (onNext d v) = debugger_call Debugger_stepForward d"
  "fst (onStepIn d v) = debugger_call Debugger_stepForward d" "snd (fst (onConfigurationDone d v)) = [FireSignal Configured]"
  "set (snd (fst (onDisconnect d v))) \<subseteq> {FireSignal Terminate}"
  by (simp_all add: handlers_def Let_def onSetBreakpoints_eq) auto

lemma handler_effects:
  assumes "map_of hello_handlers q = Some (p, f)" and "e \<in> set (snd (fst (f d v)))"
  shows "(\<exists>r. e = stopped r) \<or> e = FireSignal Terminate \<or> e = FireSignal Configured \<and> q = ''ConfigurationDoneRequest''"
proof -
  have "list_all (\<lambda>(q, p, f). \<forall>e \<in> set (snd (fst (f d v))).
      (\<exists>r. e = stopped r) \<or> e = FireSignal Terminate \<or> e = FireSignal Configured \<and> q = ''ConfigurationDoneRequest'') hello_handlers"
    unfolding hello_handlers_def list.pred_inject prod.case handler_events
    using handler_events(16) [of d v] by (auto dest: debugger_call_stops simp del: debugger_pause_effects)
  then show ?thesis using map_of_SomeD [OF assms(1)] assms(2) by (auto simp: list_all_iff)
qed

lemma script_configured:
  assumes "Do (FireSignal Configured) \<in> set (snd (script qs d))"
  shows "''ConfigurationDoneRequest'' \<in> fst ` set qs"
  using assms
proof (induction qs arbitrary: d)
  case (Cons x qs)
  obtain q v ctx where x: "x = (q, v, ctx)" by (metis prod.exhaust)
  show ?case
  proof (cases "map_of hello_handlers q")
    case None
    then show ?thesis using Cons x by simp
  next
    case (Some h)
    obtain p f d' es r where h: "h = (p, f)" "f d v = ((d', es), r)" by (metis prod.exhaust)
    have "Do (FireSignal Configured) \<in> set (actions ctx p es r) \<Longrightarrow> q = ''ConfigurationDoneRequest''"
      using handler_effects [of q p f _ d v] Some h by (auto simp: actions_def onInitializeSent_def stopped_def split: if_splits)
    then show ?thesis using Cons.IH [of d'] Cons.prems x Some h by (auto split: prod.splits)
  qed
qed simp

text \<open>
  The program starts only when it is configured. Before a client has asked for \<^verbatim>\<open>ConfigurationDone\<close>, the main thread sends
  nothing and does not get past its first wait, whatever requests come in, and even if the session
  has reported an error or the client has asked the program to terminate.
\<close>

theorem hello_waits_for_configuration:
  assumes "hello_run hello_start qs s" and "''ConfigurationDoneRequest'' \<notin> fst ` set qs"
  shows "hl_main s = AwaitConfigured \<and> done_by MainThread s = []"
proof -
  note inv = hello_inv_run [OF assms(1), unfolded hello_inv_def]
  have "Do (FireSignal Configured) \<notin> set (snd (script qs Debugger_new))" using assms(2) script_configured by blast
  then show ?thesis using inv by auto
qed

theorem hello_waits_for_configuration_witness:
  "\<exists>s. hello_run hello_start [(''DisconnectRequest'', disconnect_request, nth_context 1 ''disconnect'')] s
    \<and> ev_fired (hl_terminate s) \<and> hl_main s = AwaitConfigured"
proof -
  obtain s where s: "hello_run hello_start [(''DisconnectRequest'', disconnect_request, nth_context 1 ''disconnect'')] s"
      "ev_fired (hl_terminate s)"
    using early_disconnect_run by blast
  from hello_waits_for_configuration [OF s(1)] s show ?thesis by auto
qed

definition is_initialized :: "action \<Rightarrow> bool" where
  "is_initialized a \<longleftrightarrow> (\<exists>v. a = Do (SendEvent ''InitializedEvent'' v))"

definition is_initialize_answer :: "action \<Rightarrow> bool" where
  "is_initialize_answer a \<longleftrightarrow> (\<exists>ctx r. a = Answer ctx ''InitializeResponse'' r)"

lemma script_initialized:
  "successively (\<lambda>a b. is_initialized b \<longrightarrow> is_initialize_answer a) (snd (script qs d))
   \<and> (snd (script qs d) \<noteq> [] \<longrightarrow> \<not> is_initialized (hd (snd (script qs d))))"
proof (induction qs arbitrary: d)
  case (Cons x qs)
  obtain q v ctx where x: "x = (q, v, ctx)" by (metis prod.exhaust)
  show ?case
  proof (cases "map_of hello_handlers q")
    case None
    then show ?thesis using Cons x by simp
  next
    case (Some h)
    obtain p f d' es r where h: "h = (p, f)" "f d v = ((d', es), r)" by (metis prod.exhaust)
    let ?R = "\<lambda>a b. is_initialized b \<longrightarrow> is_initialize_answer a"
    have es: "\<forall>a \<in> set (map Do es). \<not> is_initialized a"
      using handler_effects [of q p f _ d v] Some h by (auto simp: is_initialized_def stopped_def)
    then have "successively ?R (map Do es)" by (auto simp: successively_conv_nth)
    then have "successively ?R (actions ctx p es r)" "actions ctx p es r \<noteq> []" "\<not> is_initialized (hd (actions ctx p es r))"
      using es by (auto simp: actions_def onInitializeSent_def successively_append_iff is_initialized_def is_initialize_answer_def
          hd_append successively_Cons list.map_sel(1))
    then show ?thesis using Cons.IH [of d'] x Some h by (auto simp: successively_append_iff split: prod.splits)
  qed
qed simp



text \<open>
  When the signals have been fired the main thread comes to its end by its own steps; but the response to the
  request that makes it end need not have been sent by then.
\<close>

theorem hello_returns:
  assumes "ev_fired (hl_configured s)" and "ev_fired (hl_terminate s)"
  shows "\<exists>t. hello_run s [] t \<and> hl_main t = Returned"
proof -
  have 1: "\<exists>t. hello_run s [] t \<and> hl_main t = Returned" if "hl_main s = AwaitTerminate" "ev_fired (hl_terminate s)" for s
    using hello_silent [OF hello_step.returned [OF that]] by auto
  have 2: "\<exists>t. hello_run s [] t \<and> hl_main t = Returned" if "hl_main s = PauseDebugger" "ev_fired (hl_terminate s)" for s
  proof -
    have st: "hello_step s None (perform MainThread (Do (stopped ''pause'')) (s\<lparr>hl_main := AwaitTerminate\<rparr>))"
      using hello_step.paused [OF that(1) debugger_pause_effects] by simp
    from 1 [of "perform MainThread (Do (stopped ''pause'')) (s\<lparr>hl_main := AwaitTerminate\<rparr>)"] that(2)
    show ?thesis using hello_run_trans [OF _ hello_silent [OF st]] by (auto simp: stopped_def)
  qed
  have 3: "\<exists>t. hello_run s [] t \<and> hl_main t = Returned" if "hl_main s = SendStarted" "ev_fired (hl_terminate s)" for s
    using 2 [of "perform MainThread (Do started) (s\<lparr>hl_main := PauseDebugger\<rparr>)"] that
      hello_run_trans [OF _ hello_silent [OF hello_step.thread_started [OF that(1)]]] by (auto simp: started_def)
  have 4: "\<exists>t. hello_run s [] t \<and> hl_main t = Returned" if "hl_main s = AwaitConfigured"
    using 3 [of "s\<lparr>hl_main := SendStarted\<rparr>"] assms
      hello_run_trans [OF _ hello_silent [OF hello_step.configured [OF that assms(1)]]] by auto
  show ?thesis
    using 1 [OF _ assms(2)] 2 [OF _ assms(2)] 3 [OF _ assms(2)] 4 hello_run.start [of s] by (cases "hl_main s") auto
qed

theorem disconnect_answer_may_be_lost:
  "\<exists>qs s ctx r. hello_run hello_start qs s \<and> hl_main s = Returned \<and> hl_todo s = [Answer ctx ''DisconnectResponse'' r]"
  using disconnect_run by blast

subsection \<open>The registered handlers\<close>

definition hello_infos :: "struct_info list" where
  "hello_infos = [
     InitializeRequest_info, ThreadsRequest_info, StackTraceRequest_info, ScopesRequest_info, VariablesRequest_info,
     PauseRequest_info, ContinueRequest_info, NextRequest_info, StepInRequest_info, StepOutRequest_info,
     SetBreakpointsRequest_info, SetExceptionBreakpointsRequest_info, SourceRequest_info, LaunchRequest_info,
     DisconnectRequest_info, ConfigurationDoneRequest_info]"

lemma hello_commands:
  "map (\<lambda>i. (ti_struct i, ti_name i)) hello_infos = [
     (''InitializeRequest'', ''initialize''), (''ThreadsRequest'', ''threads''),
     (''StackTraceRequest'', ''stackTrace''), (''ScopesRequest'', ''scopes''), (''VariablesRequest'', ''variables''),
     (''PauseRequest'', ''pause''), (''ContinueRequest'', ''continue''), (''NextRequest'', ''next''),
     (''StepInRequest'', ''stepIn''), (''StepOutRequest'', ''stepOut''),
     (''SetBreakpointsRequest'', ''setBreakpoints''),
     (''SetExceptionBreakpointsRequest'', ''setExceptionBreakpoints''), (''SourceRequest'', ''source''),
     (''LaunchRequest'', ''launch''), (''DisconnectRequest'', ''disconnect''),
     (''ConfigurationDoneRequest'', ''configurationDone'')]"
  by code_simp

lemma hello_infos_listed: "set hello_infos \<subseteq> set (e_infos protocol_env)"
  by (simp add: hello_infos_def protocol_env_def protocol_requests_infos_def)

lemma hello_type_names:
  "list_all (\<lambda>(q, n). TypeInfo_name protocol_env (TStruct q) = n) (map (\<lambda>i. (ti_struct i, ti_name i)) hello_infos)"
proof -
  have "TypeInfo_name protocol_env (TStruct (ti_struct i)) = ti_name i" if "i \<in> set hello_infos" for i
    using that hello_infos_listed info_of_distinct [OF protocol_infos_distinct, of i] by (auto simp: TypeInfo_name_def)
  then show ?thesis by (simp add: list_all_iff)
qed

lemma put_handler_frame:
  "se_isBound (handlers_put_request E T h s) = se_isBound s" "se_nextSeq (handlers_put_request E T h s) = se_nextSeq s"
  "se_onInvalidData (handlers_put_request E T h s) = se_onInvalidData s"
  "se_isBound (handlers_put_sent E T h s) = se_isBound s" "se_nextSeq (handlers_put_sent E T h s) = se_nextSeq s"
  "se_onInvalidData (handlers_put_sent E T h s) = se_onInvalidData s"
  by (simp_all add: handlers_put_request_def handlers_put_sent_def errorLocked_def called_def Let_def split: option.split)

lemma register_handlers_frame:
  "se_isBound (register_handlers hs s) = se_isBound s" "se_nextSeq (register_handlers hs s) = se_nextSeq s"
  "se_onInvalidData (register_handlers hs s) = se_onInvalidData s"
proof -
  have "se_isBound (register_handlers hs s) = se_isBound s \<and> se_nextSeq (register_handlers hs s) = se_nextSeq s
      \<and> se_onInvalidData (register_handlers hs s) = se_onInvalidData s"
  proof (induction hs arbitrary: s)
    case (Cons h hs)
    obtain q p f where "h = (q, p, f)" by (metis prod.exhaust)
    then have "register_handlers (h # hs) s = register_handlers hs (handlers_put_request protocol_env (TStruct q) (OnRequest q) s)"
      by (simp add: register_handlers_def)
    then show ?case using Cons.IH by (simp only: put_handler_frame)
  qed (simp add: register_handlers_def)
  then show "se_isBound (register_handlers hs s) = se_isBound s" "se_nextSeq (register_handlers hs s) = se_nextSeq s"
      "se_onInvalidData (register_handlers hs s) = se_onInvalidData s"
    by blast+
qed

lemma hello_session_frame:
  "se_isBound hello_session = False" "se_nextSeq hello_session = 1" "se_onInvalidData hello_session = kIgnore"
  unfolding hello_session_def
  by (simp_all add: register_handlers_frame put_handler_frame handlers_put_error_def Session_create_def)

lemma hello_request_table:
  "map (\<lambda>i. (ti_name i, (TStruct (ti_struct i), OnRequest (ti_struct i)))) hello_infos
   = map (\<lambda>(q, n). (n, (TStruct q, OnRequest q))) (map (\<lambda>i. (ti_struct i, ti_name i)) hello_infos)"
  by simp

lemma handler_maps:
  "handlers_request s = eh_requestMap (se_handlers s)" "handlers_responseSent s = eh_responseSentMap (se_handlers s)"
  by (simp_all add: fun_eq_iff handlers_request_def handlers_responseSent_def)

lemmas hello_type_name = hello_type_names [unfolded hello_commands list.pred_inject prod.case]

text \<open>
  The handlers are found: the commands that the session knows are these sixteen, each with the handler that
  \<^verbatim>\<open>main\<close> registered for its type, and registering them reports no error. The one response-sent handler is that of
  \<^verbatim>\<open>InitializeResponse\<close>.
\<close>

theorem hello_dispatch:
  "handlers_request hello_session = map_of (rev (map (\<lambda>i. (ti_name i, (TStruct (ti_struct i), OnRequest (ti_struct i)))) hello_infos))
   \<and> handlers_responseSent hello_session = [TStruct ''InitializeResponse'' \<mapsto> OnInitializeSent]
   \<and> se_calls hello_session = []"
  unfolding hello_request_table hello_commands
  by (simp add: hello_session_def register_handlers_def hello_handlers_def handlers_put_request_def handlers_put_sent_def
        handlers_put_error_def Session_create_def hello_type_name Let_def handler_maps)

end
