(* ===== verification/HelloSession.thy ===== *)
theory HelloSession
  imports Sessions HelloServer
begin

section \<open>A client of the example debugger\<close>

text \<open>
  The example debugger behind its session, and a client with a session of its own, over pipes: the bytes
  that the handlers' events and responses become, and what the client makes of them. \<open>act_on\<close> does an
  action of \<open>HelloServer\<close> on the session, \<open>hear\<close> is the client receiving one message and running what it
  was given, and \<open>serve\<close> does the actions one after the other, with the client hearing each message.
\<close>

fun act_on :: "'w Writer \<Rightarrow> 'j json_setup \<Rightarrow> action \<Rightarrow> ('r, 'w, 'h) Session \<Rightarrow> ('r, 'w, 'h) Session option" where
  "act_on W J (Do (SendEvent n v)) s = map_option snd (send_event W J (TStruct n) v s)"
| "act_on W J (Do (FireSignal sg)) s = Some s"
| "act_on W J (Answer ctx p r) s = handle_request W J ctx (TStruct p) r s"

definition hear :: "'r Reader \<Rightarrow> 'j json_setup \<Rightarrow> ('r, 'w, 'h) Session \<Rightarrow> ('r, 'w, 'h) Session option" where
  "hear R J A = do {
     (p, A) \<leftarrow> getPayload R J A;
     Some (case p of None \<Rightarrow> A | Some payload \<Rightarrow> run_payload payload A) }"

fun silent :: "action \<Rightarrow> bool" where
  "silent (Do (FireSignal sg)) = True"
| "silent _ = False"

fun serve ::
  "'d Reader \<Rightarrow> 'd Writer \<Rightarrow> 'j json_setup \<Rightarrow> action list \<Rightarrow> ('d, 'd, 'g) Session \<Rightarrow> ('d, 'd, 'h) Session
     \<Rightarrow> (('d, 'd, 'g) Session \<times> ('d, 'd, 'h) Session) option" where
  "serve R W J [] A B = Some (A, B)"
| "serve R W J (a # as) A B =
     (if silent a then do { B \<leftarrow> act_on W J a B; serve R W J as A B }
      else do {
        B \<leftarrow> act_on W J a B;
        A \<leftarrow> hear R J (reader_follows B A);
        serve R W J as A (writer_follows A B) })"

text \<open>A request to the debugger \<open>d\<close>: sent, received, handled and answered.\<close>

definition hello_exchange ::
  "'d Reader \<Rightarrow> 'd Writer \<Rightarrow> 'j json_setup \<Rightarrow> string \<Rightarrow> val \<Rightarrow> 'g \<Rightarrow> Debugger \<Rightarrow> ('d, 'd, 'g) Session \<Rightarrow> ('d, 'd, hello_token) Session
     \<Rightarrow> (Debugger \<times> ('d, 'd, 'g) Session \<times> ('d, 'd, hello_token) Session) option" where
  "hello_exchange R W J q v g d A B =
     (case map_of hello_handlers q of
        None \<Rightarrow> None
      | Some (p, f) \<Rightarrow> do {
          (_, A) \<leftarrow> send_request W J (TStruct q) (TStruct p) v g A;
          (payload, B) \<leftarrow> getPayload R J (reader_follows A B);
          case payload of
            Some (RequestPayload (OnRequest q') data ctx) \<Rightarrow>
              (case f d data of ((d, es), r) \<Rightarrow>
                 map_option (Pair d)
                   (serve R W J (actions ctx p es r) (writer_follows B A) (run_payload (RequestPayload (OnRequest q') data ctx) B)))
          | _ \<Rightarrow> None })"

text \<open>What the client is called with for an action.\<close>

fun heard :: "(string \<Rightarrow> 'g) \<Rightarrow> effect \<Rightarrow> 'g call \<Rightarrow> bool" where
  "heard h (SendEvent n v) c = (\<exists>v'. c = EventCall (h n) v' \<and> norm v' = norm v)"
| "heard h (FireSignal sg) c = False"

fun is_send :: "effect \<Rightarrow> bool" where
  "is_send (SendEvent n v) = True"
| "is_send (FireSignal sg) = False"

text \<open>The client has handlers for the events, and their documents, numbered from \<open>seq\<close> on, can be carried.\<close>

fun audible :: "(json \<Rightarrow> bool) \<Rightarrow> (string \<Rightarrow> 'g) \<Rightarrow> (string \<Rightarrow> (dap_type \<times> 'g) option) \<Rightarrow> uint32 \<Rightarrow> effect list \<Rightarrow> bool" where
  "audible carried h m seq [] = True"
| "audible carried h m seq (FireSignal sg # es) = audible carried h m seq es"
| "audible carried h m seq (SendEvent n v # es) =
     (m (TypeInfo_name protocol_env (TStruct n)) = Some (TStruct n, h n)
      \<and> (\<exists>X. json_of protocol_env (TStruct n) v = Some X \<and> carried (event_doc protocol_env seq (TStruct n) X))
      \<and> audible carried h m (seq + 1) es)"

text \<open>Messages of the protocol are portable.\<close>

lemma message_portable:
  assumes "message_of s v" and "s \<in> set (map sd_name protocol_decls)" and "s \<notin> set not_carried"
  shows "type_ok protocol_env (TStruct s)" and "portable (\<lambda>_. True) (\<lambda>_. True) protocol_env (TStruct s) v"
proof -
  show ok: "type_ok protocol_env (TStruct s)" using assms(2) by (simp add: type_ok_def protocol_env_decls)
  show "portable (\<lambda>_. True) (\<lambda>_. True) protocol_env (TStruct s) v"
    using assms(1,3) by (intro proto.sendable_portable [OF ok]) (simp_all add: protocol_env_decls message_of_def)
qed

definition known :: "string \<Rightarrow> bool" where
  "known s \<longleftrightarrow> s \<in> set (map sd_name protocol_decls) \<and> s \<notin> set not_carried"

fun known_effect :: "effect \<Rightarrow> bool" where
  "known_effect (SendEvent n v) = (known n \<and> message_of n v)"
| "known_effect (FireSignal sg) = True"

abbreviation pipe_connected where
  "pipe_connected \<equiv> connected Pipe_Reader pipe_contents (\<lambda>_. True)"

abbreviation pipe_session_link where
  "pipe_session_link J repr carried \<equiv>
     session_link J repr (\<lambda>_. True) (\<lambda>_. True) carried Pipe_Reader pipe_contents (\<lambda>_. True) Pipe_Writer"

lemma serve_events:
  fixes A :: "(Pipe, Pipe, 'g) Session" and B :: "(Pipe, Pipe, 'h) Session"
  assumes link: "pipe_session_link J repr carried" and E: "js_env J = protocol_env"
    and "pipe_connected A B" and "list_all known_effect es"
    and "audible carried h (handlers_event A) (se_nextSeq B) es"
  shows "\<exists>A' B' cs. serve Pipe_Reader Pipe_Writer J (map Do es @ as) A B = serve Pipe_Reader Pipe_Writer J as A' B'
    \<and> pipe_connected A' B' \<and> se_calls A' = se_calls A @ cs \<and> list_all2 (heard h) (filter is_send es) cs
    \<and> se_nextSeq B' = se_nextSeq B + of_nat (length (filter is_send es))
    \<and> se_handlers A' = se_handlers A \<and> se_handlers B' = se_handlers B \<and> se_calls B' = se_calls B"
  using assms(3-5)
proof (induction es arbitrary: A B)
  case (Cons e es)
  show ?case
  proof (cases e)
    case (FireSignal sg)
    then show ?thesis using Cons.IH [of A B] Cons.prems by simp
  next
    case (SendEvent n v)
    obtain X where X: "json_of protocol_env (TStruct n) v = Some X"
        "carried (event_doc protocol_env (se_nextSeq B) (TStruct n) X)"
        "handlers_event A (TypeInfo_name protocol_env (TStruct n)) = Some (TStruct n, h n)"
      using Cons.prems(3) SendEvent by auto
    have n: "message_of n v" "n \<in> set (map sd_name protocol_decls)" "n \<notin> set not_carried"
      using Cons.prems(2) SendEvent by (simp_all add: known_def)
    have c: "pipe_at True (cr_on_invalid_data (se_reader A)) [] (se_reader A)" "se_writer B = cr_reader (se_reader A)"
      using Cons.prems(1) by (simp_all add: connected_def)
    obtain w cr v' where x: "send_event Pipe_Writer J (TStruct n) v B = Some (True, (drawn B)\<lparr>se_writer := w\<rparr>)"
        "getPayload Pipe_Reader J (reader_follows ((drawn B)\<lparr>se_writer := w\<rparr>) A)
          = Some (Some (EventPayload (h n) v'), A\<lparr>se_reader := cr\<rparr>)"
        "pipe_at True (cr_on_invalid_data cr) [] cr" "norm v' = norm v"
      using session_link.event_arrives [OF link c, unfolded E, OF protocol_wf message_portable [OF n] X(1) TrueI X(2,3)] by auto
    let ?A = "called (EventCall (h n) v') (A\<lparr>se_reader := cr\<rparr>)"
    let ?B = "writer_follows ?A ((drawn B)\<lparr>se_writer := w\<rparr>)"
    have "serve Pipe_Reader Pipe_Writer J (map Do (e # es) @ as) A B = serve Pipe_Reader Pipe_Writer J (map Do es @ as) ?A ?B"
      using x(1,2) SendEvent by (simp add: hear_def run_payload_def)
    moreover have "pipe_connected ?A ?B"
      using Cons.prems(1) x(3) by (simp add: connected_def writer_follows_def called_def)
    moreover have "audible carried h (handlers_event ?A) (se_nextSeq ?B) es"
    proof -
      have "handlers_event ?A = handlers_event A" by (rule ext) (simp add: handlers_event_def called_def)
      then show ?thesis using Cons.prems(3) SendEvent by (simp add: writer_follows_def)
    qed
    moreover have "list_all known_effect es" using Cons.prems(2) by simp
    ultimately obtain A' B' cs where r: "serve Pipe_Reader Pipe_Writer J (map Do (e # es) @ as) A B = serve Pipe_Reader Pipe_Writer J as A' B'"
        "pipe_connected A' B'" "se_calls A' = se_calls ?A @ cs" "list_all2 (heard h) (filter is_send es) cs"
        "se_nextSeq B' = se_nextSeq ?B + of_nat (length (filter is_send es))"
        "se_handlers A' = se_handlers ?A" "se_handlers B' = se_handlers ?B" "se_calls B' = se_calls ?B"
      using Cons.IH [of ?A ?B] by metis
    then show ?thesis
      using x(4) SendEvent
      by (intro exI [of _ A'] exI [of _ B'] exI [of _ "EventCall (h n) v' # cs"]) (simp add: writer_follows_def called_def)
  qed
next
  case Nil
  then show ?case by (intro exI [of _ A] exI [of _ B] exI [of _ "[]"]) simp
qed

text \<open>The answer, when it is no error and nothing follows it.\<close>

lemma serve_answer:
  fixes A :: "(Pipe, Pipe, 'g) Session" and B :: "(Pipe, Pipe, 'h) Session"
  assumes link: "pipe_session_link J repr carried" and E: "js_env J = protocol_env"
    and "pipe_connected A B" and "known p" "message_of p v" "json_of protocol_env (TStruct p) v = Some X"
    and "carried (success_doc (se_nextSeq B) ctx X)"
    and "eh_responseMap (se_handlers A) (rc_sequence ctx) = Some (TStruct p, g)"
  shows "\<exists>A' B' r'. serve Pipe_Reader Pipe_Writer J [Answer ctx p (of_response v)] A B = Some (A', B')
    \<and> pipe_connected A' B' \<and> se_calls A' = se_calls A @ [ResponseCall g (Inl r')] \<and> norm r' = norm v
    \<and> se_calls B' = se_calls B @ sent_calls B (TStruct p) (Inl v)
    \<and> eh_responseMap (se_handlers A') = (eh_responseMap (se_handlers A))(rc_sequence ctx := None)"
proof -
  have n: "message_of p v" "p \<in> set (map sd_name protocol_decls)" "p \<notin> set not_carried"
    using assms(4,5) by (simp_all add: known_def)
  have c: "pipe_at True (cr_on_invalid_data (se_reader A)) [] (se_reader A)" "se_writer B = cr_reader (se_reader A)"
    using assms(3) by (simp_all add: connected_def)
  obtain w cr r' where x: "onSuccess Pipe_Writer J ctx (TStruct p) v B = Some (response_sent (TStruct p) (Inl v) ((drawn B)\<lparr>se_writer := w\<rparr>))"
      "getPayload Pipe_Reader J (reader_follows (response_sent (TStruct p) (Inl v) ((drawn B)\<lparr>se_writer := w\<rparr>)) A)
        = Some (None, called (ResponseCall g (Inl r')) (taken (rc_sequence ctx) (A\<lparr>se_reader := cr\<rparr>)))"
      "pipe_at True (cr_on_invalid_data cr) [] cr" "norm r' = norm v"
    using session_link.success_arrives [OF link c, unfolded E, OF protocol_wf message_portable [OF n] assms(6) TrueI assms(7,8)] by auto
  let ?A = "called (ResponseCall g (Inl r')) (taken (rc_sequence ctx) (A\<lparr>se_reader := cr\<rparr>))"
  let ?B = "writer_follows ?A (response_sent (TStruct p) (Inl v) ((drawn B)\<lparr>se_writer := w\<rparr>))"
  have "serve Pipe_Reader Pipe_Writer J [Answer ctx p (of_response v)] A B = Some (?A, ?B)"
    using x(1,2) by (simp add: hear_def handle_request_def of_response_def is_error_def)
  moreover have "pipe_connected ?A ?B"
    using assms(3) x(3) by (simp add: connected_def writer_follows_def called_def)
  moreover have "se_calls ?B = se_calls B @ sent_calls B (TStruct p) (Inl v)"
    using sent_calls_cong [of "(drawn B)\<lparr>se_writer := w\<rparr>" B] by (simp add: writer_follows_def)
  ultimately show ?thesis using x(4)
    by (intro exI [of _ ?A] exI [of _ ?B] exI [of _ r']) (simp add: called_def)
qed

text \<open>The requests that make the debugger go, and the method that each of them calls.\<close>

definition execution_requests :: "(string \<times> string \<times> (Debugger \<Rightarrow> Debugger \<times> debugger_event list)) list" where
  "execution_requests =
     [(''PauseRequest'', ''PauseResponse'', Debugger_pause), (''ContinueRequest'', ''ContinueResponse'', Debugger_run),
      (''NextRequest'', ''NextResponse'', Debugger_stepForward), (''StepInRequest'', ''StepInResponse'', Debugger_stepForward)]"

lemma execution_names:
  "TypeInfo_name protocol_env (TStruct ''PauseRequest'') = ''pause''" "TypeInfo_name protocol_env (TStruct ''ContinueRequest'') = ''continue''"
  "TypeInfo_name protocol_env (TStruct ''NextRequest'') = ''next''" "TypeInfo_name protocol_env (TStruct ''StepInRequest'') = ''stepIn''"
  using hello_type_name by blast+

lemma execution_handled:
  assumes "(q, p, m) \<in> set execution_requests"
  shows "\<exists>f. map_of hello_handlers q = Some (p, f) \<and> (\<forall>d v. f d v = (debugger_call m d, of_response (fresh p)))"
    and "p \<noteq> ''InitializeResponse''" and "message_of p (fresh p)"
    and "handlers_request hello_session (TypeInfo_name protocol_env (TStruct q)) = Some (TStruct q, OnRequest q)"
proof -
  consider "q = ''PauseRequest'' \<and> p = ''PauseResponse'' \<and> m = Debugger_pause"
    | "q = ''ContinueRequest'' \<and> p = ''ContinueResponse'' \<and> m = Debugger_run"
    | "q = ''NextRequest'' \<and> p = ''NextResponse'' \<and> m = Debugger_stepForward"
    | "q = ''StepInRequest'' \<and> p = ''StepInResponse'' \<and> m = Debugger_stepForward"
    using assms unfolding execution_requests_def by fastforce
  note cs = this
  show "\<exists>f. map_of hello_handlers q = Some (p, f) \<and> (\<forall>d v. f d v = (debugger_call m d, of_response (fresh p)))"
    by (rule cs; simp add: hello_handlers_def onPause_def onContinue_def onNext_def onStepIn_def del: default_of.simps debugger_pause_effects)
  show "p \<noteq> ''InitializeResponse''" by (rule cs; simp)
  show "message_of p (fresh p)" by (rule cs; simp del: default_of.simps)
  show "handlers_request hello_session (TypeInfo_name protocol_env (TStruct q)) = Some (TStruct q, OnRequest q)"
    unfolding hello_dispatch [THEN conjunct1] hello_request_table hello_commands by (rule cs; simp add: execution_names)
qed

lemma knownI: "d \<in> set protocol_decls \<Longrightarrow> sd_name d \<notin> set not_carried \<Longrightarrow> known (sd_name d)"
  by (auto simp: known_def)

lemma execution_known:
  assumes "(q, p, m) \<in> set execution_requests"
  shows "known q" "known p" "known ''StoppedEvent''"
proof -
  have "known ''PauseRequest''" "known ''ContinueRequest''" "known ''NextRequest''" "known ''StepInRequest''"
      "known ''PauseResponse''" "known ''ContinueResponse''" "known ''NextResponse''" "known ''StepInResponse''"
    using knownI [of PauseRequest_decl] knownI [of ContinueRequest_decl] knownI [of NextRequest_decl] knownI [of StepInRequest_decl]
      knownI [of PauseResponse_decl] knownI [of ContinueResponse_decl] knownI [of NextResponse_decl] knownI [of StepInResponse_decl]
    by (simp_all add: protocol_decls_def not_carried_def PauseRequest_decl_def ContinueRequest_decl_def NextRequest_decl_def
        StepInRequest_decl_def PauseResponse_decl_def ContinueResponse_decl_def NextResponse_decl_def StepInResponse_decl_def)
  then show "known q" "known p" using assms by (auto simp: execution_requests_def)
  show "known ''StoppedEvent''"
    using knownI [of StoppedEvent_decl] by (simp add: protocol_decls_def not_carried_def StoppedEvent_decl_def)
qed

lemma debugger_events_sent:
  assumes "known ''StoppedEvent''"
  shows "list_all known_effect (concat (map onDebuggerEvent evs))" and "filter is_send (concat (map onDebuggerEvent evs)) = concat (map onDebuggerEvent evs)"
proof -
  have "list_all known_effect (onDebuggerEvent e) \<and> list_all is_send (onDebuggerEvent e)" for e
    using assms stopped_ok by (cases e) (simp_all add: stopped_def del: stopped_ok default_of.simps)
  then show "list_all known_effect (concat (map onDebuggerEvent evs))"
      "filter is_send (concat (map onDebuggerEvent evs)) = concat (map onDebuggerEvent evs)"
    by (auto simp: list_all_iff filter_id_conv)
qed

section \<open>Properties\<close>

text \<open>
  C28. A client makes the debugger go. A request to step, to continue or to pause that a client sends over a pipe to the example debugger
  moves the debugger as the method of the class does, and the client's handlers are called with the
  events that the debugger fires, in order, and then with the response; after that both sessions are
  ready for the next request.
\<close>

theorem execution_over_session:
  fixes A :: "(Pipe, Pipe, 'g) Session" and B :: "(Pipe, Pipe, hello_token) Session"
  assumes lib: "nlohmann_text N repr depth parse dump carried" and J: "J = nlohmann_setup protocol_env N parse dump depth"
    and conn: "pipe_connected A B" and hb: "se_handlers B = se_handlers (hello_session :: (Pipe, Pipe, hello_token) Session)"
    and q: "(q, p, m) \<in> set execution_requests" and m: "m d = (d', evs)" and es: "es = concat (map onDebuggerEvent evs)"
    and fresh: "eh_responseMap (se_handlers A) (scast (se_nextSeq A)) = None"
    and req: "message_of q v" "json_of protocol_env (TStruct q) v = Some X"
      "carried (request_doc protocol_env (se_nextSeq A) (TStruct q) X)"
    and aud: "audible carried (\<lambda>_. h) (handlers_event A) (se_nextSeq B) es"
    and resp: "json_of protocol_env (TStruct p) (fresh p) = Some Y"
      "carried (success_doc (se_nextSeq B + of_nat (length es)) (context_of protocol_env (TStruct q) A) Y)"
  shows "\<exists>A' B' cs r'. hello_exchange Pipe_Reader Pipe_Writer J q v g d A B = Some (d', A', B') \<and> pipe_connected A' B'
    \<and> se_calls A' = se_calls A @ cs @ [ResponseCall g (Inl r')] \<and> list_all2 (heard (\<lambda>_. h)) es cs \<and> norm r' = norm (fresh p)
    \<and> eh_responseMap (se_handlers A') = eh_responseMap (se_handlers A)"
proof -
  note link = nlohmann_text.pipe_link [OF lib, of protocol_env, folded J]
  have E: "js_env J = protocol_env" by (simp add: J nlohmann_setup_def)
  obtain f where f: "map_of hello_handlers q = Some (p, f)" "\<And>v. f d v = ((d', es), of_response (fresh p))"
    using execution_handled(1) [OF q] m es by (auto simp: debugger_call_def simp del: default_of.simps)
  have hq: "handlers_request B (TypeInfo_name protocol_env (TStruct q)) = Some (TStruct q, OnRequest q)"
    using execution_handled(4) [OF q] hb by (simp add: handlers_request_def)
  have n: "message_of q v" "q \<in> set (map sd_name protocol_decls)" "q \<notin> set not_carried"
    using req(1) execution_known(1) [OF q] by (simp_all add: known_def)
  let ?ctx = "context_of protocol_env (TStruct q) A" and ?A = "expecting (TStruct p) g A"
  have c: "pipe_at True (cr_on_invalid_data (se_reader B)) [] (se_reader B)" "se_writer A = cr_reader (se_reader B)"
    using conn by (simp_all add: connected_def)
  obtain w cr v' where x: "send_request Pipe_Writer J (TStruct q) (TStruct p) v g A = Some (True, ?A\<lparr>se_writer := w\<rparr>)"
      "getPayload Pipe_Reader J (reader_follows (?A\<lparr>se_writer := w\<rparr>) B)
        = Some (Some (RequestPayload (OnRequest q) v' ?ctx), B\<lparr>se_reader := cr\<rparr>)"
      "pipe_at True (cr_on_invalid_data cr) [] cr"
    using session_link.request_arrives [OF link c, unfolded E, OF protocol_wf message_portable [OF n] req(2) TrueI req(3) hq, of "TStruct p" g] by auto
  let ?A1 = "writer_follows (B\<lparr>se_reader := cr\<rparr>) (?A\<lparr>se_writer := w\<rparr>)"
  let ?B1 = "called (RequestCall (OnRequest q) v' ?ctx) (B\<lparr>se_reader := cr\<rparr>)"
  have A1: "pipe_connected ?A1 ?B1" "handlers_event ?A1 = handlers_event A" "se_calls ?A1 = se_calls A"
      "eh_responseMap (se_handlers ?A1) = (eh_responseMap (se_handlers A))(rc_sequence ?ctx \<mapsto> (TStruct p, g))"
    using conn x(3) expecting_fresh [OF fresh]
    by (simp_all add: connected_def writer_follows_def called_def context_of_def fun_eq_iff handlers_event_def expecting_def drawn_def
        handlers_put_response_def Let_def split: option.splits)
  note es_ok = debugger_events_sent [OF execution_known(3) [OF q], of evs, folded es]
  obtain A2 B2 cs where s: "serve Pipe_Reader Pipe_Writer J (map Do es @ [Answer ?ctx p (of_response (fresh p))]) ?A1 ?B1
        = serve Pipe_Reader Pipe_Writer J [Answer ?ctx p (of_response (fresh p))] A2 B2"
      "pipe_connected A2 B2" "se_calls A2 = se_calls ?A1 @ cs" "list_all2 (heard (\<lambda>_. h)) es cs"
      "se_nextSeq B2 = se_nextSeq B + of_nat (length es)" "se_handlers A2 = se_handlers ?A1"
    using serve_events [OF link E A1(1) es_ok(1), of "\<lambda>_. h" "[Answer ?ctx p (of_response (fresh p))]"] aud A1(2)
    unfolding es_ok(2) by (auto simp del: serve.simps default_of.simps)
  have a: "carried (success_doc (se_nextSeq B2) ?ctx Y)" "eh_responseMap (se_handlers A2) (rc_sequence ?ctx) = Some (TStruct p, g)"
    using resp(2) s(5,6) A1(4) by simp_all
  obtain A3 B3 r' where t: "serve Pipe_Reader Pipe_Writer J [Answer ?ctx p (of_response (fresh p))] A2 B2 = Some (A3, B3)"
      "pipe_connected A3 B3" "se_calls A3 = se_calls A2 @ [ResponseCall g (Inl r')]" "norm r' = norm (fresh p)"
      "eh_responseMap (se_handlers A3) = (eh_responseMap (se_handlers A2))(rc_sequence ?ctx := None)"
    using serve_answer [OF link E s(2) execution_known(2) [OF q] execution_handled(3) [OF q] resp(1) a] by blast
  have "hello_exchange Pipe_Reader Pipe_Writer J q v g d A B = Some (d', A3, B3)"
    using f x(1,2) s(1) t(1) execution_handled(2) [OF q]
    by (simp add: hello_exchange_def actions_def run_payload_def del: serve.simps default_of.simps)
  moreover have "eh_responseMap (se_handlers A3) = eh_responseMap (se_handlers A)"
    using t(5) s(6) A1(4) fresh by (auto simp: context_of_def fun_upd_idem)
  ultimately show ?thesis
    using t(2-4) s(3,4) A1(3) by (intro exI [of _ A3] exI [of _ B3] exI [of _ cs] exI [of _ r']) (simp del: default_of.simps)
qed

text \<open>A step from the first line, with a client that has a handler for the event \<^verbatim>\<open>stopped\<close>.\<close>

definition step_client :: "(Pipe, Pipe, nat) Session" where
  "step_client = connect Pipe_create Pipe_create (handlers_put_event protocol_env (TStruct ''StoppedEvent'') 5 Session_create)"

definition step_server :: "(Pipe, Pipe, hello_token) Session" where
  "step_server = connect Pipe_create Pipe_create hello_session"

text \<open>
  A printer and a parser for the documents of a list, by their position in it: enough for an example, and
  nothing has to be computed of the documents.
\<close>

definition dump_of :: "json list \<Rightarrow> json \<Rightarrow> string option" where
  "dump_of ds j = Some (replicate (Suc (length (takeWhile (\<lambda>x. x \<noteq> j) ds))) (CHR ''x''))"

definition parse_of :: "json list \<Rightarrow> string \<Rightarrow> json" where
  "parse_of ds t = ds ! (length t - 1)"

lemma listed_text:
  assumes "length ds < 100"
  shows "nlohmann_text ref_nlohmann (=) jdepth (parse_of ds) (dump_of ds) (\<lambda>X. X \<in> set ds)"
proof unfold_locales
  fix j X
  assume X: "j = X" "X \<in> set ds"
  let ?n = "length (takeWhile (\<lambda>x. x \<noteq> X) ds)"
  have "?n < length ds"
    using X(2) by (metis (mono_tags, lifting) length_takeWhile_le nat_less_le takeWhile_eq_all_conv takeWhile_eq_take take_all)
  moreover from this have "ds ! ?n = X" using nth_length_takeWhile by blast
  ultimately show "\<exists>t. dump_of ds j = Some t \<and> message_ok t \<and> parse_of ds t = X"
    using X(1) assms by (simp add: dump_of_def parse_of_def message_ok_def)
qed simp

definition step_docs :: "json list" where
  "step_docs =
     [request_doc protocol_env 1 (TStruct ''NextRequest'') (the (json_of protocol_env (TStruct ''NextRequest'') (fresh ''NextRequest''))),
      event_doc protocol_env 1 (TStruct ''StoppedEvent'') (the (json_of protocol_env (TStruct ''StoppedEvent'')
        (case stopped ''step'' of SendEvent n v \<Rightarrow> v))),
      success_doc 2 \<lparr>rc_sequence = 1, rc_command = ''next''\<rparr> (the (json_of protocol_env (TStruct ''NextResponse'') (fresh ''NextResponse'')))]"

abbreviation step_setup :: "json json_setup" where
  "step_setup \<equiv> nlohmann_setup protocol_env ref_nlohmann (parse_of step_docs) (dump_of step_docs) jdepth"

lemma message_json:
  assumes "message_of s v" and "known s"
  shows "json_of protocol_env (TStruct s) v = Some (the (json_of protocol_env (TStruct s) v))"
proof -
  have "s \<in> set (map sd_name protocol_decls)" "s \<notin> set not_carried" using assms(2) by (simp_all add: known_def)
  from nlohmann_lib.nlohmann_reads_back [OF nj.nlohmann_lib_axioms protocol_wf message_portable [OF assms(1) this] _
      nlohmann_lib.make(1) [OF nj.nlohmann_lib_axioms]]
  show ?thesis by auto
qed

theorem execution_over_session_witness:
  "\<exists>A' B' ev r'. hello_exchange Pipe_Reader Pipe_Writer step_setup ''NextRequest'' (fresh ''NextRequest'') 7 Debugger_new step_client step_server
      = Some (\<lparr>db_line = 2, db_breakpoints = {}\<rparr>, A', B')
    \<and> se_calls A' = [EventCall 5 ev, ResponseCall 7 (Inl r')]"
proof -
  have q: "(''NextRequest'', ''NextResponse'', Debugger_stepForward) \<in> set execution_requests" by (simp add: execution_requests_def)
  have m: "Debugger_stepForward Debugger_new = (\<lparr>db_line = 2, db_breakpoints = {}\<rparr>, [Stepped])" by code_simp
  have c: "pipe_connected step_client step_server"
    using pipe_at_create [of kIgnore]
    by (simp add: connected_def step_client_def step_server_def connect_def hello_session_frame Session_create_def
        handlers_put_event_def Let_def ContentReader_new_def)
  have hb: "se_handlers step_server = se_handlers (hello_session :: (Pipe, Pipe, hello_token) Session)"
    by (simp add: step_server_def connect_def hello_session_frame)
  have A: "se_nextSeq step_client = 1" "se_nextSeq step_server = 1" "se_calls step_client = []"
      "eh_responseMap (se_handlers step_client) (scast (se_nextSeq step_client)) = None"
      "handlers_event step_client (TypeInfo_name protocol_env (TStruct ''StoppedEvent'')) = Some (TStruct ''StoppedEvent'', 5)"
    by (simp_all add: step_client_def step_server_def connect_def hello_session_frame Session_create_def handlers_put_event_def
        handlers_event_def Let_def)
  have ctx: "context_of protocol_env (TStruct ''NextRequest'') step_client = \<lparr>rc_sequence = 1, rc_command = ''next''\<rparr>"
    by (simp add: context_of_def A(1) execution_names)
  have r: "message_of ''NextRequest'' (fresh ''NextRequest'')"
    using fresh_shallow [of NextRequest_decl]
    by (simp add: protocol_decls_def NextRequest_decl_def empty_bases_def del: default_of.simps)
  obtain ev where ev: "stopped ''step'' = SendEvent ''StoppedEvent'' ev" "message_of ''StoppedEvent'' ev"
    using stopped_ok [of "''step''"] by (auto simp: stopped_def simp del: default_of.simps)
  note k = execution_known [OF q]
  note docs = message_json [OF r k(1)] message_json [OF ev(2) k(3)] message_json [OF execution_handled(3) [OF q] k(2)]
  have "audible (\<lambda>X. X \<in> set step_docs) (\<lambda>_. 5) (handlers_event step_client) (se_nextSeq step_server) [stopped ''step'']"
    using docs(2) A(5) unfolding ev A(2) by (auto simp: step_docs_def ev(1) simp del: default_of.simps)
  moreover have "length step_docs < 100" by (simp add: step_docs_def)
  moreover have "request_doc protocol_env (se_nextSeq step_client) (TStruct ''NextRequest'')
      (the (json_of protocol_env (TStruct ''NextRequest'') (fresh ''NextRequest''))) \<in> set step_docs"
    unfolding A(1) step_docs_def by (simp del: default_of.simps)
  moreover have "success_doc (se_nextSeq step_server + of_nat (length [stopped ''step'']))
      (context_of protocol_env (TStruct ''NextRequest'') step_client)
      (the (json_of protocol_env (TStruct ''NextResponse'') (fresh ''NextResponse''))) \<in> set step_docs"
    unfolding A(2) ctx step_docs_def by (simp del: default_of.simps)
  moreover have "[stopped ''step''] = concat (map onDebuggerEvent [Stepped])" by simp
  ultimately obtain A' B' cs r' where x:
      "hello_exchange Pipe_Reader Pipe_Writer step_setup ''NextRequest'' (fresh ''NextRequest'') 7 Debugger_new step_client step_server
        = Some (\<lparr>db_line = 2, db_breakpoints = {}\<rparr>, A', B')"
      "se_calls A' = se_calls step_client @ cs @ [ResponseCall 7 (Inl r')]" "list_all2 (heard (\<lambda>_. 5)) [stopped ''step''] cs"
    using execution_over_session [OF listed_text [of step_docs] refl c hb q m _ A(4) r docs(1) _ _ docs(3),
        where es = "[stopped ''step'']" and h = 5 and g = 7] by blast
  then obtain ev' where "cs = [EventCall 5 ev']" by (auto simp: list_all2_Cons1 ev(1))
  then show ?thesis using x A(3) by auto
qed

end
