(* ===== verification/SimpleNet.thy ===== *)
theory SimpleNet
  imports HelloServer Sessions
begin

section \<open>The network example: \<^verbatim>\<open>examples/simple_net_client_server.cpp\<close>\<close>

text \<open>
  A server that accepts a client, answers its \<^verbatim>\<open>Initialize\<close> request and ends the session when the client disconnects. The
  callback for a connection binds the session to the socket, which starts the receiving thread, and registers
  the handlers after that. \<^verbatim>\<open>terminate\<close>, with its mutex and its condition variable, is an \<open>Event\<close> that one
  thread waits for.
\<close>

datatype simple_token = OnSimpleInitialize | OnSimpleDisconnect

definition simple_bound :: "'r \<Rightarrow> 'w \<Rightarrow> ('r, 'w, simple_token) Session" where
  "simple_bound r w = bind r w None (setOnInvalidData kClose Session_create)"

definition simple_registered :: "('r, 'w, simple_token) Session \<Rightarrow> ('r, 'w, simple_token) Session" where
  "simple_registered s =
     handlers_put_request protocol_env (TStruct ''DisconnectRequest'') OnSimpleDisconnect
       (handlers_put_request protocol_env (TStruct ''InitializeRequest'') OnSimpleInitialize s)"

definition onSimpleInitialize :: "val \<Rightarrow> ResponseOrError" where
  "onSimpleInitialize request = of_response (fresh ''InitializeResponse'')"

definition onSimpleDisconnect :: "val \<Rightarrow> Event \<Rightarrow> ResponseOrError \<times> Event" where
  "onSimpleDisconnect request terminate = (of_response (fresh ''DisconnectResponse''), fst (Event_fire terminate ()))"

text \<open>A request for which there is no handler.\<close>

context session_json
begin

lemma request_unhandled:
  assumes "js_parse J t = Some i" "repr i (request_doc (js_env J) seq T X)"
    and "str_ok (TypeInfo_name (js_env J) T)" "handlers_request s (TypeInfo_name (js_env J) T) = None"
  shows "processMessage J t s = Some (None, errorLocked (NoRequestHandler (TypeInfo_name (js_env J) T)) s)"
proof -
  note r = assms(2) [unfolded request_doc_def]
  have "field_string J i ''type'' = Some ''request''" "field_integer J i ''seq'' = Some (scast seq)"
      "field_string J i ''command'' = Some (TypeInfo_name (js_env J) T)"
    using field_string_reads [OF r] field_integer_reads [OF r] words_ok assms(3) by simp_all
  with assms(1,4) show ?thesis by (simp add: processMessage_def processRequest_def)
qed

end

lemma simple_handlers:
  "handlers_request (simple_bound r w) n = None" "errorLocked e (simple_bound r w) = simple_bound r w"
  "handlers_request (simple_registered (simple_bound r w)) ''initialize'' = Some (TStruct ''InitializeRequest'', OnSimpleInitialize)"
  by (simp_all add: simple_bound_def simple_registered_def bind_def connect_def startProcessingMessages_def setOnInvalidData_def
      Session_create_def errorLocked_def handlers_put_request_def handlers_request_def hello_type_name Let_def)

lemma initialize_request_message: "message_of ''InitializeRequest'' (fresh ''InitializeRequest'')"
proof -
  have "InitializeRequest_decl \<in> set protocol_decls" by (simp add: protocol_decls_def)
  moreover have n: "sd_name InitializeRequest_decl = ''InitializeRequest''" by (simp add: InitializeRequest_decl_def)
  moreover have "list_all (\<lambda>m. shallow (m_type m)) (sd_members InitializeRequest_decl)" by (simp add: InitializeRequest_decl_def)
  ultimately show ?thesis using fresh_shallow [of InitializeRequest_decl] by (simp add: n empty_bases_def del: default_of.simps)
qed

lemma initialize_request_portable:
  "type_ok protocol_env (TStruct ''InitializeRequest'')"
  "portable (\<lambda>_. True) (\<lambda>_. True) protocol_env (TStruct ''InitializeRequest'') (fresh ''InitializeRequest'')"
proof -
  have "InitializeRequest_decl \<in> set protocol_decls" "sd_name InitializeRequest_decl = ''InitializeRequest''"
    by (simp_all add: protocol_decls_def InitializeRequest_decl_def)
  then show ok: "type_ok protocol_env (TStruct ''InitializeRequest'')" by (force simp: type_ok_def protocol_env_decls)
  show "portable (\<lambda>_. True) (\<lambda>_. True) protocol_env (TStruct ''InitializeRequest'') (fresh ''InitializeRequest'')"
    using initialize_request_message
    by (intro proto.sendable_portable [OF ok]) (simp_all add: not_carried_def protocol_env_decls message_of_def del: default_of.simps)
qed

text \<open>
  C38. The server of the network example may lose the client's first request. If the \<^verbatim>\<open>Initialize\<close> request arrives after
  the handlers were registered, its handler is called; but the receiving thread runs before that, and
  a request that it takes in between is dropped without a trace: no handler is called, no error is reported
  and nothing is sent to the client, which waits for the response.
\<close>

theorem simple_server_race:
  assumes "nlohmann_text N repr depth parse dump carried" and "J = nlohmann_setup protocol_env N parse dump depth"
    and "json_of protocol_env (TStruct ''InitializeRequest'') (fresh ''InitializeRequest'') = Some X"
    and "repr (parse t) (request_doc protocol_env seq (TStruct ''InitializeRequest'') X)"
  shows "processMessage J t (simple_bound r w) = Some (None, simple_bound r w)
    \<and> (\<exists>v. processMessage J t (simple_registered (simple_bound r w))
         = Some (Some (RequestPayload OnSimpleInitialize v \<lparr>rc_sequence = scast seq, rc_command = ''initialize''\<rparr>),
             simple_registered (simple_bound r w))
       \<and> norm v = norm (fresh ''InitializeRequest''))"
proof -
  note sj = nlohmann_text.session_json [OF assms(1), of protocol_env, folded assms(2)]
  have J: "js_env J = protocol_env" "js_parse J t = Some (parse t)" by (simp_all add: assms(2) nlohmann_setup_def)
  have n: "TypeInfo_name protocol_env (TStruct ''InitializeRequest'') = ''initialize''" using hello_type_name by blast
  have "processMessage J t (simple_bound r w) = Some (None, simple_bound r w)"
    using session_json.request_unhandled [OF sj J(2), unfolded J(1), OF assms(4) TrueI, of "simple_bound r w"]
    by (simp add: simple_handlers)
  moreover have "handlers_request (simple_registered (simple_bound r w)) (TypeInfo_name protocol_env (TStruct ''InitializeRequest''))
      = Some (TStruct ''InitializeRequest'', OnSimpleInitialize)"
    unfolding n by (rule simple_handlers(3))
  from session_json.request_processed [OF sj J(2), unfolded J(1), OF assms(4) protocol_wf initialize_request_portable assms(3) TrueI this]
  have "\<exists>v. processMessage J t (simple_registered (simple_bound r w))
      = Some (Some (RequestPayload OnSimpleInitialize v \<lparr>rc_sequence = scast seq, rc_command = ''initialize''\<rparr>),
          simple_registered (simple_bound r w)) \<and> norm v = norm (fresh ''InitializeRequest'')"
    unfolding n .
  ultimately show ?thesis by (rule conjI)
qed

theorem simple_server_race_witness:
  "\<exists>t. processMessage (ref_setup protocol_env) t (simple_bound Pipe_create Pipe_create) = Some (None, simple_bound Pipe_create Pipe_create)
    \<and> (\<exists>v. processMessage (ref_setup protocol_env) t (simple_registered (simple_bound Pipe_create Pipe_create))
         = Some (Some (RequestPayload OnSimpleInitialize v \<lparr>rc_sequence = 1, rc_command = ''initialize''\<rparr>),
             simple_registered (simple_bound Pipe_create Pipe_create)))"
proof -
  obtain X where X: "json_of protocol_env (TStruct ''InitializeRequest'') (fresh ''InitializeRequest'') = Some X"
    using nlohmann_lib.nlohmann_reads_back [OF nj.nlohmann_lib_axioms protocol_wf initialize_request_portable _
        nlohmann_lib.make(1) [OF nj.nlohmann_lib_axioms]] by auto
  let ?t = "print_json (request_doc protocol_env 1 (TStruct ''InitializeRequest'') X)"
  have "ref_parse ?t = request_doc protocol_env 1 (TStruct ''InitializeRequest'') X"
    by (rule ref_parse_print)
  from simple_server_race [OF ref_text.nlohmann_text_axioms, OF refl X, OF this, where r = Pipe_create and w = Pipe_create]
  have "processMessage (ref_setup protocol_env) ?t (simple_bound Pipe_create Pipe_create) = Some (None, simple_bound Pipe_create Pipe_create)
    \<and> (\<exists>v. processMessage (ref_setup protocol_env) ?t (simple_registered (simple_bound Pipe_create Pipe_create))
         = Some (Some (RequestPayload OnSimpleInitialize v \<lparr>rc_sequence = scast (1 :: 32 word), rc_command = ''initialize''\<rparr>),
             simple_registered (simple_bound Pipe_create Pipe_create)))"
    by blast
  moreover have "scast (1 :: 32 word) = (1 :: int64)" by simp
  ultimately show ?thesis by (intro exI [of _ ?t]) (simp only:)
qed

end
