(* ===== verification/Spec2Isabelle.thy ===== *)
theory Spec2Isabelle
  imports ContentStream PipeSync Channel Future ReaderWriterLock Messages SessionProperties BackEndSessions Optional AnyStorage TypeInfos Network Interop HelloSession SimpleNet
begin

text \<open>
  Verification of cppdap, a C++ library for the Debug Adapter Protocol.

  \<^bold>\<open>The program.\<close> A \<^verbatim>\<open>Session\<close> (\<^verbatim>\<open>src/session.cpp\<close>, \<^verbatim>\<open>include/dap/session.h\<close>) exchanges requests, responses and events
  with a peer. It frames texts with a \<^verbatim>\<open>Content-Length\<close> header (\<^verbatim>\<open>src/content_stream.*\<close>) over a byte stream: a
  pipe, a file, a string buffer (\<^verbatim>\<open>src/io.cpp\<close>, \<^verbatim>\<open>src/string_buffer.h\<close>) or a socket (\<^verbatim>\<open>src/socket.cpp\<close>, accepted
  by the server of \<^verbatim>\<open>src/network.cpp\<close>). Messages are C++ structs (\<^verbatim>\<open>include/dap/protocol.h\<close>), turned into JSON
  and back by templates (\<^verbatim>\<open>include/dap/serialization.h\<close>) that are driven by type information
  (\<^verbatim>\<open>include/dap/typeof.h\<close>, \<^verbatim>\<open>src/protocol_*.cpp\<close>) and run over one of three JSON libraries
  (\<^verbatim>\<open>src/*_json_serializer.cpp\<close>). A received message is put into a queue (\<^verbatim>\<open>src/chan.h\<close>) by one thread and
  dispatched to a handler by another; the response to a request completes a future (\<^verbatim>\<open>include/dap/future.h\<close>).
  Two programs in \<^verbatim>\<open>examples\<close> use the library: a debugger that steps through a text, and a client with its server.

  \<^bold>\<open>The theories\<close>, with the code each models:

  \<^item> \<open>Prelude\<close>: types of the model, decimal numbers, C strings, lemmas on lists and options.
  \<^item> \<open>IO\<close>: \<^verbatim>\<open>Reader\<close> and \<^verbatim>\<open>Writer\<close> as records of operations; \<open>StringBuffer\<close>, \<open>Pipe\<close>, \<open>RW\<close>, \<open>File\<close> and the two spies.
    The locales \<open>byte_reader\<close>, \<open>draining_reader\<close>, \<open>stream_link\<close> and \<open>loopback\<close> are the contract of a stream.
  \<^item> \<open>ContentStream\<close>: \<^verbatim>\<open>ContentReader\<close> and \<^verbatim>\<open>ContentWriter\<close> with every helper. What is written is read back in order,
    reading recovers or closes on invalid data, only framed messages are delivered, reading ends.
  \<^item> \<open>Monitor\<close>: threads that wait for a condition variable, as a locale over the operations of a class;
    \<open>Channel\<close>, \<open>Future\<close> and \<open>PipeSync\<close> instantiate it for \<^verbatim>\<open>Chan\<close>, \<^verbatim>\<open>promise\<close>/\<^verbatim>\<open>future\<close> and \<^verbatim>\<open>Pipe\<close>: no wake-up is
    lost under any interleaving, and values and bytes arrive once and in order.
  \<^item> \<open>ReaderWriterLock\<close>: \<^verbatim>\<open>RWMutex\<close> as a step relation with its invariant, and the guards \<^verbatim>\<open>RLock\<close>/\<^verbatim>\<open>WLock\<close>.
  \<^item> \<open>Values\<close>: types and objects (\<open>dap_type\<close>, \<open>val\<close>), struct declarations and the macros for type information.
  \<^item> \<open>AnyStorage\<close>: \<^verbatim>\<open>any.h\<close> on a memory of objects and blocks: the ownership invariant, value semantics without
    moves, and what moves break.
  \<^item> \<open>Optional\<close>: \<^verbatim>\<open>optional.h\<close> and \<^verbatim>\<open>variant.h\<close>. \<open>TypeInfos\<close>: the reference-counted owner of type information.
  \<^item> \<open>Serialization\<close>: the templates as two mutually recursive functions, \<open>deser\<close> and \<open>ser\<close>, over a record of
    back-end operations; the locales \<open>deserializer\<close> and \<open>total_deserializer\<close>. \<open>RoundTrip\<close>: which objects are
    portable, the document of an object (\<open>json_of\<close>), and the locale \<open>json_backend\<close> with the round trip.
  \<^item> \<open>NlohmannJson\<close>, \<open>RapidJson\<close>, \<open>JsonCppJson\<close>: the three back ends. Each library is a parameter, a record of
    its operations; a locale states its documented behaviour and is shown to give \<open>json_backend\<close>, and it is
    interpreted on a library of JSON trees. \<open>BackEnds\<close>: the three write and read the same documents.
  \<^item> \<open>ProtocolTypes\<close>, \<open>ProtocolInfo\<close>, \<open>Protocol\<close>, \<open>ProtocolTables\<close>, \<open>Messages\<close>: every struct of the protocol and
    its type information; the tables are well-formed and every struct but two survives the round trip.
  \<^item> \<open>SessionCore\<close>: every method of the session. \<open>SessionRun\<close>: sequences of calls and turns of the two threads.
    \<open>JsonText\<close>: the documents of the four kinds of message. \<open>Endpoints\<close>: two sessions over a link. \<open>TextCodec\<close>,
    \<open>Sessions\<close>, \<open>BackEndSessions\<close>: the session with each JSON library. \<open>SessionProperties\<close>: invariants of runs.
  \<^item> \<open>Socket\<close>, \<open>Network\<close>: sockets over a parameter for the system calls, and the server as a step relation.
    \<open>SocketLink\<close>: two sockets of a connection (locale \<open>tcp\<close>) are a link for messages. \<open>Interop\<close>: sessions compiled
    against different JSON libraries at the two ends of a connection.
  \<^item> \<open>HelloDebugger\<close>, \<open>HelloHandlers\<close>, \<open>HelloServer\<close>: \<^verbatim>\<open>examples/hello_debugger.cpp\<close>: its two classes, every request
    handler with the messages it answers with, and its two threads as a step relation that implements a
    sequential script. \<open>HelloSession\<close>: the debugger behind its session, with a client at the other end of a
    pipe. \<open>SimpleNet\<close>: the server callback of \<^verbatim>\<open>examples/simple_net_client_server.cpp\<close>.

  \<^bold>\<open>How state and effects are modelled.\<close> Objects are records that operations return updated. A result of
  type option is \<^term>\<open>None\<close> when the call does not return: it waits for ever, the program is stopped by a
  failed assertion or by the library, or behaviour is undefined; each theory says which. Machine
  integers keep their width where it matters (sequence numbers, content lengths, time limits). A method
  body that runs under a mutex is one step. Handlers are tokens whose calls the session records.

  \<^bold>\<open>Fuel.\<close> \<^const>\<open>deser\<close> has the depth of the document as fuel; the depth is enough, which
  \<open>NlohmannJson.nlohmann_deserialize_returns\<close> shows. The scanning loop of \<^verbatim>\<open>ContentReader\<close> may wait for ever
  and is a partial function; that it returns is a theorem of its own.

  \<^bold>\<open>What is assumed of code outside the repository\<close>: the laws of the locales \<open>nlohmann_lib\<close>, \<open>rapid_lib\<close>,
  \<open>jsoncpp_lib\<close> and their extensions with parsing and printing, and \<open>descriptors\<close> and \<open>tcp\<close> for the system calls.
  The layout of C++ types and what is left of a moved-from value are arguments.

  \<^bold>\<open>Not modelled\<close>: the traits (compile-time only), the generator of the protocol sources (its output is
  modelled), the fuzzer and the tests; the log file of the example debugger and the client of the network
  example; the Windows and macOS branches of the sockets; the interleaving of several threads within one
  socket; handlers that call back into the session, but for those of the example debugger; the text of C++
  exceptions, which the library does not use.
\<close>

section \<open>Sessions and the protocol\<close>

lemma default_struct: "\<exists>vs. default_of ds (TStruct s) = VStruct vs"
  by (induction ds) auto

lemma deser_missing_struct:
  assumes "struct_fields E s \<noteq> []"
  shows "\<exists>v. deser D E f (TStruct s) None (default_of ds (TStruct s)) = Some (False, v)"
proof -
  obtain vs where "default_of ds (TStruct s) = VStruct vs" using default_struct by blast
  moreover obtain fd fds where "struct_fields E s = fd # fds" using assms by (cases "struct_fields E s") auto
  ultimately show ?thesis by simp
qed

lemma TerminatedEvent_fields: "struct_fields protocol_env ''TerminatedEvent'' \<noteq> []"
  using protocol_struct(3) [of TerminatedEvent_decl]
  by (auto simp: protocol_decls_def TerminatedEvent_decl_def empty_bases_def)

text \<open>
  C40. The event \<^verbatim>\<open>terminated\<close> is rejected when its message has no \<^verbatim>\<open>body\<close>, although the protocol makes the
  body of this event optional and its only member is optional: the session reports that it failed to
  deserialise the body and dispatches nothing.
\<close>

theorem terminated_event_needs_body:
  assumes "js_env J = protocol_env" and "js_parse J str = Some d"
    and "field_string J d ''type'' = Some ''event''" and "field_integer J d ''seq'' = Some q"
    and "field_string J d ''event'' = Some n" and "handlers_event s n = Some (TStruct ''TerminatedEvent'', h)"
    and "d_field (js_in J) d ''body'' = Some None"
  shows "processMessage J str s = Some (None, errorLocked (BadEvent n) s)"
proof -
  obtain v where "field_callback J d ''body'' (TStruct ''TerminatedEvent'') (construct J (TStruct ''TerminatedEvent''))
      = Some (Some False, v)"
    using deser_missing_struct [OF TerminatedEvent_fields, of "js_in J" "js_depth J d" "e_decls protocol_env"] assms(1,7)
    by (auto simp: field_callback_def)
  with assms(2-6) show ?thesis by (simp add: processMessage_def processEvent_def)
qed

definition terminated_listener :: test_session where
  "terminated_listener =
     (let s = handlers_put_error (Some 9) Session_create
      in s\<lparr>se_handlers := (se_handlers s)\<lparr>eh_eventMap := [''terminated'' \<mapsto> (TStruct ''TerminatedEvent'', 4)]\<rparr>\<rparr>)"

theorem terminated_event_needs_body_witness:
  "processMessage (ref_setup protocol_env) ''o4:types5:event3:seqi1e5:events10:terminatede'' terminated_listener
     = Some (None, errorLocked (BadEvent ''terminated'') terminated_listener)"
proof (rule terminated_event_needs_body)
  let ?d = "JObj [(''type'', JStr ''event''), (''seq'', JInt 1), (''event'', JStr ''terminated'')]"
    and ?J = "ref_setup protocol_env"
  show "js_env ?J = protocol_env" by (rule setup_env)
  have "ref_parse ''o4:types5:event3:seqi1e5:events10:terminatede'' = ?d" by code_simp
  then show "js_parse ?J ''o4:types5:event3:seqi1e5:events10:terminatede'' = Some ?d" by (simp add: nlohmann_setup_def)
  show "field_string ?J ?d ''type'' = Some ''event''" "field_integer ?J ?d ''seq'' = Some 1"
      "field_string ?J ?d ''event'' = Some ''terminated''" "d_field (js_in ?J) ?d ''body'' = Some None"
    by (simp_all add: field_string_def field_integer_def nlohmann_setup_def nlohmann_defs ref_nlohmann_def)
  show "handlers_event terminated_listener ''terminated'' = Some (TStruct ''TerminatedEvent'', 4)"
    by (simp add: terminated_listener_def handlers_event_def Let_def)
qed

end
